(* ===== verification/Srtp_Prelude.thy ===== *)
theory Srtp_Prelude
  imports Main "HOL-Library.Word"
begin

text \<open>
  Shared vocabulary of the development: the machine types of the Rust code, the error type of
  \<^verbatim>\<open>libsrtp/src/lib.rs\<close>, the outcome of a fallible operation (a Rust \<^verbatim>\<open>Result\<close>
  or a panic), checked slicing, big-endian encodings, and the generic lemmas about lists and
  words that the component theories share.
\<close>

unbundle bit_operations_syntax

section \<open>Machine types\<close>

type_synonym u8 = "8 word"
type_synonym u16 = "16 word"
type_synonym u32 = "32 word"
type_synonym u64 = "64 word"
type_synonym bytes = "u8 list"

text \<open>A master key identifier, \<^verbatim>\<open>Option<Vec<u8>>\<close>.\<close>

type_synonym mki = "bytes option"

text \<open>\<^verbatim>\<open>if let Some(mki) = &self.mki\<close>: the identifier as the bytes it adds to a packet.\<close>

definition mki_bytes :: "mki \<Rightarrow> bytes" where
  "mki_bytes m = (case m of None \<Rightarrow> [] | Some i \<Rightarrow> i)"

section \<open>Lemma collections\<close>

named_theorems slice_simps \<open>evaluation of checked slices\<close>
named_theorems outcome_simps \<open>evaluation and inversion of outcomes\<close>
named_theorems be_simps \<open>big-endian encodings\<close>

section \<open>Errors and outcomes\<close>

text \<open>\<^verbatim>\<open>SrtpError\<close>, with the payload of its \<^verbatim>\<open>KeyLimit\<close> variant.\<close>

datatype srtp_error =
    Encryption
  | Authentication
  | ContextNotReady
  | InvalidKeySize
  | TransformDispatch
  | KdfDispatch
  | InvalidPacket
  | InvalidProfile
  | InvalidPacketIndex
  | InvalidMki
  | StreamNotFound
  | KeyLimit (err_is_rtp: bool) (err_is_dead: bool) (err_mki: mki) (err_ssrc: u32)

text \<open>
  The outcome of an operation: \<^verbatim>\<open>Ok\<close> and \<^verbatim>\<open>Err\<close> of the Rust \<^verbatim>\<open>Result\<close>, and
  \<open>Panic\<close> where the code would abort (a slice or an index out of range, a length that
  \<^verbatim>\<open>copy_from_slice\<close> or \<^verbatim>\<open>GenericArray::from_slice\<close> refuses, an underflow of a
  \<^verbatim>\<open>usize\<close>).
\<close>

datatype 'a result = Ok 'a | Err srtp_error | Panic

text \<open>The \<^verbatim>\<open>?\<close> operator.\<close>

fun and_then :: "'a result \<Rightarrow> ('a \<Rightarrow> 'b result) \<Rightarrow> 'b result" where
  "and_then (Ok x) f = f x"
| "and_then (Err e) f = Err e"
| "and_then Panic f = Panic"

fun ok_or :: "'a option \<Rightarrow> srtp_error \<Rightarrow> 'a result" where
  "ok_or None e = Err e"
| "ok_or (Some x) e = Ok x"

text \<open>An external call that panics instead of returning an error.\<close>

fun or_panic :: "'a option \<Rightarrow> 'a result" where
  "or_panic None = Panic"
| "or_panic (Some x) = Ok x"

text \<open>A Rust \<^verbatim>\<open>assert\<close> on lengths inside a library call: panics when it fails.\<close>

definition expect :: "bool \<Rightarrow> unit result" where
  "expect b = (if b then Ok () else Panic)"

fun is_ok :: "'a result \<Rightarrow> bool" where
  "is_ok (Ok _) = True"
| "is_ok _ = False"

lemma and_then_Ok_iff [outcome_simps]:
  "and_then r f = Ok y \<longleftrightarrow> (\<exists>x. r = Ok x \<and> f x = Ok y)"
  by (cases r) auto

lemma and_then_Err_iff [outcome_simps]:
  "and_then r f = Err e \<longleftrightarrow> r = Err e \<or> (\<exists>x. r = Ok x \<and> f x = Err e)"
  by (cases r) auto

lemma and_then_Panic_iff [outcome_simps]:
  "and_then r f = Panic \<longleftrightarrow> r = Panic \<or> (\<exists>x. r = Ok x \<and> f x = Panic)"
  by (cases r) auto

lemma ok_or_iff [outcome_simps]:
  "ok_or m e = Ok x \<longleftrightarrow> m = Some x"
  "ok_or m e = Err e' \<longleftrightarrow> m = None \<and> e' = e"
  "ok_or m e \<noteq> Panic"
  by (cases m; auto)+

lemma or_panic_iff [outcome_simps]:
  "or_panic m = Ok x \<longleftrightarrow> m = Some x"
  "or_panic m \<noteq> Err e"
  "or_panic m = Panic \<longleftrightarrow> m = None"
  by (cases m; auto)+

lemma expect_iff [outcome_simps]:
  "expect b = Ok u \<longleftrightarrow> b"
  "expect b \<noteq> Err e"
  "expect b = Panic \<longleftrightarrow> \<not> b"
  by (auto simp: expect_def)

lemma expect_True [simp]: "expect True = Ok ()"
  by (simp add: expect_def)

lemma is_ok_iff: "is_ok r \<longleftrightarrow> (\<exists>x. r = Ok x)"
  by (cases r) auto

lemma and_then_assoc: "and_then (and_then r f) g = and_then r (\<lambda>x. and_then (f x) g)"
  by (cases r) auto

text \<open>
  The \<^verbatim>\<open>?\<close> operator inside a method that has already logged the handler calls \<open>evs\<close> and
  holds the object state \<open>s\<close>: an error leaves the method with that state.
\<close>

fun try_in :: "'s \<Rightarrow> srtp_error list \<Rightarrow> 'a result \<Rightarrow>
    ('a \<Rightarrow> 's \<times> srtp_error list \<times> 'b result) \<Rightarrow> 's \<times> srtp_error list \<times> 'b result" where
  "try_in s evs (Ok x) k = k x"
| "try_in s evs (Err e) k = (s, evs, Err e)"
| "try_in s evs Panic k = (s, evs, Panic)"

lemma try_in_Ok_iff [outcome_simps]:
  "try_in s evs r k = (s', evs', Ok y) \<longleftrightarrow> (\<exists>x. r = Ok x \<and> k x = (s', evs', Ok y))"
  by (cases r) auto

lemma try_in_Err_iff [outcome_simps]:
  "try_in s evs r k = (s', evs', Err e) \<longleftrightarrow>
     (r = Err e \<and> s' = s \<and> evs' = evs) \<or> (\<exists>x. r = Ok x \<and> k x = (s', evs', Err e))"
  by (cases r) auto

lemma try_in_Panic_iff [outcome_simps]:
  "try_in s evs r k = (s', evs', Panic) \<longleftrightarrow>
     (r = Panic \<and> s' = s \<and> evs' = evs) \<or> (\<exists>x. r = Ok x \<and> k x = (s', evs', Panic))"
  by (cases r) auto

text \<open>A method that fails before its first assignment leaves the object as it was.\<close>

definition fails_unchanged :: "'s \<Rightarrow> 's \<times> srtp_error list \<times> 'a result \<Rightarrow> bool" where
  "fails_unchanged s out \<longleftrightarrow> is_ok (snd (snd out)) \<or> fst out = s"

lemma fails_unchanged_try [intro]:
  "(\<And>x. r = Ok x \<Longrightarrow> fails_unchanged s (k x)) \<Longrightarrow> fails_unchanged s (try_in s evs r k)"
  by (cases r) (auto simp: fails_unchanged_def)

lemma fails_unchanged_simps [simp]:
  "fails_unchanged s (s', evs, Ok x)" "fails_unchanged s (s, evs, r)"
  by (auto simp: fails_unchanged_def)

lemma fails_unchangedD: "fails_unchanged s (s', evs, r) \<Longrightarrow> \<not> is_ok r \<Longrightarrow> s' = s"
  by (simp add: fails_unchanged_def)

section \<open>Checked slices\<close>

text \<open>\<^verbatim>\<open>xs[a..b]\<close>, \<^verbatim>\<open>xs[a..]\<close>, \<^verbatim>\<open>xs[..b]\<close> and \<^verbatim>\<open>xs[i]\<close>: out of range they panic.\<close>

definition slice_range :: "'a list \<Rightarrow> nat \<Rightarrow> nat \<Rightarrow> 'a list result" where
  "slice_range xs a b = (if a \<le> b \<and> b \<le> length xs then Ok (take (b - a) (drop a xs)) else Panic)"

definition slice_from :: "'a list \<Rightarrow> nat \<Rightarrow> 'a list result" where
  "slice_from xs a = (if a \<le> length xs then Ok (drop a xs) else Panic)"

definition slice_to :: "'a list \<Rightarrow> nat \<Rightarrow> 'a list result" where
  "slice_to xs b = (if b \<le> length xs then Ok (take b xs) else Panic)"

definition slice_at :: "'a list \<Rightarrow> nat \<Rightarrow> 'a result" where
  "slice_at xs i = (if i < length xs then Ok (xs ! i) else Panic)"

text \<open>\<^verbatim>\<open>split_at_mut\<close>.\<close>

definition split_at :: "'a list \<Rightarrow> nat \<Rightarrow> ('a list \<times> 'a list) result" where
  "split_at xs n = (if n \<le> length xs then Ok (take n xs, drop n xs) else Panic)"

text \<open>Subtraction of \<^verbatim>\<open>usize\<close> values.\<close>

definition usize_sub :: "nat \<Rightarrow> nat \<Rightarrow> nat result" where
  "usize_sub a b = (if b \<le> a then Ok (a - b) else Panic)"

text \<open>\<^verbatim>\<open>Vec::truncate\<close>: no effect when the vector is already shorter.\<close>

definition vec_truncate :: "'a list \<Rightarrow> nat \<Rightarrow> 'a list" where
  "vec_truncate xs n = take n xs"

lemma slice_Ok [slice_simps, simp]:
  "a \<le> b \<Longrightarrow> b \<le> length xs \<Longrightarrow> slice_range xs a b = Ok (take (b - a) (drop a xs))"
  "a \<le> length xs \<Longrightarrow> slice_from xs a = Ok (drop a xs)"
  "b \<le> length xs \<Longrightarrow> slice_to xs b = Ok (take b xs)"
  "i < length xs \<Longrightarrow> slice_at xs i = Ok (xs ! i)"
  "n \<le> length xs \<Longrightarrow> split_at xs n = Ok (take n xs, drop n xs)"
  by (simp_all add: slice_range_def slice_from_def slice_to_def slice_at_def split_at_def)

lemma usize_sub_Ok [slice_simps, simp]: "b \<le> a \<Longrightarrow> usize_sub a b = Ok (a - b)"
  by (simp add: usize_sub_def)

lemmas slice_defs =
  slice_range_def slice_from_def slice_to_def slice_at_def split_at_def usize_sub_def

text \<open>A packet with a trailer of \<open>m\<close> and \<open>t\<close> bytes, cut where the code cuts it.\<close>

lemma split_trailer:
  assumes "t + m \<le> length c"
  shows "c = take (length c - (t + m)) c @ take m (drop (length c - (t + m)) c) @ drop (length c - t) c"
proof -
  have "drop (length c - t) c = drop m (drop (length c - (t + m)) c)"
    using assms by (simp add: add.commute)
  then show ?thesis by (simp only: append_take_drop_id)
qed

section \<open>Byte operations\<close>

definition xor_bytes :: "bytes \<Rightarrow> bytes \<Rightarrow> bytes" where
  "xor_bytes xs ys = map2 (XOR) xs ys"

text \<open>\<^verbatim>\<open>for i in 0..n { buf[pos + i] ^= src[i] }\<close>, the loop that builds every IV.\<close>

fun xor_at :: "bytes \<Rightarrow> nat \<Rightarrow> bytes \<Rightarrow> bytes" where
  "xor_at buf pos [] = buf"
| "xor_at buf pos (b # bs) = xor_at (buf[pos := buf ! pos XOR b]) (Suc pos) bs"

lemma length_xor_at [simp]: "length (xor_at buf pos bs) = length buf"
  by (induction bs arbitrary: buf pos) auto

lemma nth_xor_at:
  "i < length buf \<Longrightarrow>
   xor_at buf pos bs ! i =
     (if pos \<le> i \<and> i < pos + length bs then buf ! i XOR bs ! (i - pos) else buf ! i)"
proof (induction bs arbitrary: buf pos i)
  case Nil
  then show ?case by auto
next
  case (Cons b bs)
  consider "i < pos" | "i = pos" | "pos < i" by fastforce
  then show ?case
    using Cons.prems by cases (simp_all add: Cons.IH nth_list_update nth_Cons' Suc_le_eq)
qed

section \<open>Big-endian encodings\<close>

definition to_be_bytes16 :: "u16 \<Rightarrow> bytes" where
  "to_be_bytes16 w = [ucast (drop_bit 8 w), ucast w]"

definition to_be_bytes32 :: "u32 \<Rightarrow> bytes" where
  "to_be_bytes32 w =
     [ucast (drop_bit 24 w), ucast (drop_bit 16 w), ucast (drop_bit 8 w), ucast w]"

definition from_be_bytes16 :: "u8 \<Rightarrow> u8 \<Rightarrow> u16" where
  "from_be_bytes16 a b = push_bit 8 (ucast a) OR ucast b"

definition from_be_bytes32 :: "u8 \<Rightarrow> u8 \<Rightarrow> u8 \<Rightarrow> u8 \<Rightarrow> u32" where
  "from_be_bytes32 a b c d =
     push_bit 24 (ucast a) OR push_bit 16 (ucast b) OR push_bit 8 (ucast c) OR ucast d"

lemma length_to_be_bytes [simp, be_simps]:
  "length (to_be_bytes16 v) = 2" "length (to_be_bytes32 w) = 4"
  by (simp_all add: to_be_bytes16_def to_be_bytes32_def)

lemma from_to_be_bytes16 [be_simps]:
  "from_be_bytes16 (ucast (drop_bit 8 w)) (ucast w) = (w :: u16)"
  unfolding from_be_bytes16_def
proof (rule bit_word_eqI)
  fix n assume "n < LENGTH(16)"
  then consider "n < 8" | "8 \<le> n" "n < 16" by fastforce
  then show "bit (push_bit 8 (ucast (ucast (drop_bit 8 w) :: u8)) OR ucast (ucast w :: u8) :: u16) n = bit w n"
    by cases (auto simp: bit_simps)
qed

lemma from_to_be_bytes32 [be_simps]:
  "from_be_bytes32 (ucast (drop_bit 24 w)) (ucast (drop_bit 16 w)) (ucast (drop_bit 8 w)) (ucast w) = (w :: u32)"
  unfolding from_be_bytes32_def
proof (rule bit_word_eqI)
  fix n assume "n < LENGTH(32)"
  then consider "n < 8" | "8 \<le> n" "n < 16" | "16 \<le> n" "n < 24" | "24 \<le> n" "n < 32" by fastforce
  then show "bit (push_bit 24 (ucast (ucast (drop_bit 24 w) :: u8)) OR
      push_bit 16 (ucast (ucast (drop_bit 16 w) :: u8)) OR
      push_bit 8 (ucast (ucast (drop_bit 8 w) :: u8)) OR ucast (ucast w :: u8) :: u32) n = bit w n"
    by cases (auto simp: bit_simps)
qed

text \<open>\<^verbatim>\<open>xs.try_into().map_err(|_| e)?\<close> into a fixed-size array, and the big-endian readers on it.\<close>

definition to_array :: "nat \<Rightarrow> srtp_error \<Rightarrow> 'a list \<Rightarrow> 'a list result" where
  "to_array n e xs = (if length xs = n then Ok xs else Err e)"

definition be16 :: "bytes \<Rightarrow> u16" where
  "be16 xs = from_be_bytes16 (xs ! 0) (xs ! 1)"

definition be32 :: "bytes \<Rightarrow> u32" where
  "be32 xs = from_be_bytes32 (xs ! 0) (xs ! 1) (xs ! 2) (xs ! 3)"

lemma be_to_be_bytes [be_simps, simp]:
  "be16 (to_be_bytes16 v) = v" "be32 (to_be_bytes32 w) = w"
  by (simp_all add: be16_def be32_def to_be_bytes16_def to_be_bytes32_def be_simps)

lemma to_be_bytes_inject [be_simps, simp]:
  "to_be_bytes16 v = to_be_bytes16 v' \<longleftrightarrow> v = v'"
  "to_be_bytes32 w = to_be_bytes32 w' \<longleftrightarrow> w = w'"
  by (metis be_to_be_bytes(1), metis be_to_be_bytes(2))

lemma to_array_iff [outcome_simps]:
  "to_array n e xs = Ok ys \<longleftrightarrow> length xs = n \<and> ys = xs"
  "to_array n e xs = Err e' \<longleftrightarrow> length xs \<noteq> n \<and> e' = e"
  "to_array n e xs \<noteq> Panic"
  by (auto simp: to_array_def)

section \<open>Words as natural numbers\<close>

lemma unat_bounds:
  "unat (a :: u8) < 256" "unat (b :: u16) < 65536" "unat (c :: u32) < 4294967296"
  "unat (d :: u64) < 18446744073709551616"
  using unsigned_less [of a, where 'a = nat] unsigned_less [of b, where 'a = nat]
    unsigned_less [of c, where 'a = nat] unsigned_less [of d, where 'a = nat] by simp_all

lemma unat_widen [simp]:
  "unat (ucast (b :: u16) :: u64) = unat b" "unat (ucast (c :: u32) :: u64) = unat c"
  using unat_bounds(2) [of b] unat_bounds(3) [of c]
  by (simp_all add: unsigned_ucast_eq take_bit_nat_eq_self)

text \<open>Masking an RTCP index on 31 bits.\<close>

lemma and_31_less: "(x :: u32) AND 0x7fffffff < 0x80000000"
proof -
  have "x AND 0x7fffffff \<le> 0x7fffffff" by (rule word_and_le1)
  then show ?thesis by (rule order.strict_trans1) simp
qed

lemma and_31_nat: "unat ((x :: u32) AND 0x7fffffff) = unat x mod 2147483648"
proof -
  have "x AND 0x7fffffff = take_bit 31 x"
    by (simp add: take_bit_eq_mask mask_eq_exp_minus_1)
  then show ?thesis
    by (simp only: unsigned_take_bit_eq) (simp add: take_bit_eq_mod)
qed

lemma and_31_id: "(x :: u32) < 0x80000000 \<Longrightarrow> x AND 0x7fffffff = x"
  by (rule unsigned_word_eqI [where 'a = nat]) (simp add: and_31_nat word_less_nat_alt)

end
