(* ===== verification/Srtp_Profile.thy ===== *)
theory Srtp_Profile
  imports Srtp_Prelude
begin

text \<open>
  The protection profiles of \<^verbatim>\<open>libsrtp/src/protection_profile.rs\<close>: the enumeration and the
  three tables of sizes, with the facts about them the other components use.
\<close>

datatype protection_profile =
    NullCipherHmacSha180
  | Aes128CmHmacSha180
  | Aes128CmHmacSha132
  | Aes128CmNullAuth
  | Aes192CmHmacSha180
  | Aes192CmHmacSha132
  | Aes192CmNullAuth
  | Aes256CmHmacSha180
  | Aes256CmHmacSha132
  | Aes256CmNullAuth
  | AeadAes128Gcm
  | AeadAes256Gcm

fun tag_len :: "protection_profile \<Rightarrow> nat" where
  "tag_len NullCipherHmacSha180 = 10"
| "tag_len Aes128CmHmacSha180 = 10"
| "tag_len Aes192CmHmacSha180 = 10"
| "tag_len Aes256CmHmacSha180 = 10"
| "tag_len Aes128CmHmacSha132 = 4"
| "tag_len Aes192CmHmacSha132 = 4"
| "tag_len Aes256CmHmacSha132 = 4"
| "tag_len Aes128CmNullAuth = 0"
| "tag_len Aes192CmNullAuth = 0"
| "tag_len Aes256CmNullAuth = 0"
| "tag_len AeadAes128Gcm = 0"
| "tag_len AeadAes256Gcm = 0"

fun key_len :: "protection_profile \<Rightarrow> nat" where
  "key_len NullCipherHmacSha180 = 0"
| "key_len Aes128CmNullAuth = 16"
| "key_len Aes128CmHmacSha132 = 16"
| "key_len Aes128CmHmacSha180 = 16"
| "key_len AeadAes128Gcm = 16"
| "key_len Aes192CmNullAuth = 24"
| "key_len Aes192CmHmacSha132 = 24"
| "key_len Aes192CmHmacSha180 = 24"
| "key_len Aes256CmNullAuth = 32"
| "key_len Aes256CmHmacSha132 = 32"
| "key_len Aes256CmHmacSha180 = 32"
| "key_len AeadAes256Gcm = 32"

fun salt_len :: "protection_profile \<Rightarrow> nat" where
  "salt_len NullCipherHmacSha180 = 14"
| "salt_len Aes128CmNullAuth = 14"
| "salt_len Aes128CmHmacSha132 = 14"
| "salt_len Aes128CmHmacSha180 = 14"
| "salt_len Aes192CmNullAuth = 14"
| "salt_len Aes192CmHmacSha132 = 14"
| "salt_len Aes192CmHmacSha180 = 14"
| "salt_len Aes256CmNullAuth = 14"
| "salt_len Aes256CmHmacSha132 = 14"
| "salt_len Aes256CmHmacSha180 = 14"
| "salt_len AeadAes128Gcm = 12"
| "salt_len AeadAes256Gcm = 12"

text \<open>The two families of transforms, as \<^verbatim>\<open>get_transforms\<close> dispatches on them.\<close>

fun is_gcm :: "protection_profile \<Rightarrow> bool" where
  "is_gcm AeadAes128Gcm = True"
| "is_gcm AeadAes256Gcm = True"
| "is_gcm _ = False"

lemma is_gcm_iff: "is_gcm p \<longleftrightarrow> p = AeadAes128Gcm \<or> p = AeadAes256Gcm"
  by (cases p) auto

lemma tag_len_le: "tag_len p \<le> 10"
  by (cases p) auto

lemma key_len_cases: "key_len p \<in> {0, 16, 24, 32}"
  by (cases p) auto

lemma salt_len_pos: "0 < salt_len p"
  by (cases p) auto

lemma salt_len_eq: "salt_len p = (if is_gcm p then 12 else 14)"
  by (cases p) auto

lemma gcm_key_len_inj: "is_gcm p \<Longrightarrow> is_gcm q \<Longrightarrow> key_len p = key_len q \<Longrightarrow> p = q"
  by (cases p; cases q; simp)

text \<open>The profiles \<^verbatim>\<open>StreamConfig::validate\<close> accepts for RTCP.\<close>

lemma full_tag_profiles:
  "\<not> tag_len p < 10 \<longleftrightarrow>
     p \<in> {NullCipherHmacSha180, Aes128CmHmacSha180, Aes192CmHmacSha180, Aes256CmHmacSha180}"
  by (cases p) auto

instantiation protection_profile :: default
begin

definition default_protection_profile :: protection_profile where
  "default_protection_profile = NullCipherHmacSha180"

instance ..

end

end
