(* ===== verification/Srtp_Config.thy ===== *)
theory Srtp_Config
  imports Srtp_Profile
begin

text \<open>
  Master keys, their lifetimes and the stream configuration: the types \<^verbatim>\<open>KeysLifetime\<close>,
  \<^verbatim>\<open>MasterKey\<close> and \<^verbatim>\<open>StreamConfig\<close> of \<^verbatim>\<open>libsrtp/src/stream.rs\<close>. A method on \<^verbatim>\<open>&mut self\<close>
  returns the new object with its outcome. The lemmas describe every outcome of the setters and
  give \<^verbatim>\<open>validate\<close> a declarative reading, \<open>valid_config\<close>.
\<close>

section \<open>Lifetimes\<close>

definition MAX_RTP_SESSION_KEY_LIVES :: u64 where "MAX_RTP_SESSION_KEY_LIVES = 0x1000000000000"
definition MAX_RTCP_SESSION_KEY_LIVES :: u32 where "MAX_RTCP_SESSION_KEY_LIVES = 0x80000000"
definition DEFAULT_RTP_SESSION_KEY_SOFT_LIMIT :: u64 where
  "DEFAULT_RTP_SESSION_KEY_SOFT_LIMIT = 0x10000"
definition DEFAULT_RTCP_SESSION_KEY_SOFT_LIMIT :: u32 where
  "DEFAULT_RTCP_SESSION_KEY_SOFT_LIMIT = 0x10000"
definition DEFAULT_REPLAY_WINDOW_SIZE :: u16 where "DEFAULT_REPLAY_WINDOW_SIZE = 128"

record keys_lifetime =
  l_rtp :: u64
  l_rtp_limit :: u64
  l_rtcp :: u32
  l_rtcp_limit :: u32

definition keys_lifetime_default :: keys_lifetime where
  "keys_lifetime_default =
     \<lparr>l_rtp = MAX_RTP_SESSION_KEY_LIVES, l_rtp_limit = DEFAULT_RTP_SESSION_KEY_SOFT_LIMIT,
      l_rtcp = MAX_RTCP_SESSION_KEY_LIVES, l_rtcp_limit = DEFAULT_RTCP_SESSION_KEY_SOFT_LIMIT\<rparr>"

text \<open>The subtractions underflow at 0: that is a panic in a checked build.\<close>

definition decrease_rtp :: "keys_lifetime \<Rightarrow> keys_lifetime result" where
  "decrease_rtp l =
     (if l_rtp l = 0 then Panic
      else let l = l\<lparr>l_rtp := l_rtp l - 1\<rparr> in
        if l_rtp l = 0 then Ok (l\<lparr>l_rtcp := 0\<rparr>) else Ok l)"

definition decrease_rtcp :: "keys_lifetime \<Rightarrow> keys_lifetime result" where
  "decrease_rtcp l =
     (if l_rtcp l = 0 then Panic
      else let l = l\<lparr>l_rtcp := l_rtcp l - 1\<rparr> in
        if l_rtcp l = 0 then Ok (l\<lparr>l_rtp := 0\<rparr>) else Ok l)"

text \<open>What the code keeps of a lifetime: the counts never exceed the maxima.\<close>

definition lifetime_ok :: "keys_lifetime \<Rightarrow> bool" where
  "lifetime_ok l \<longleftrightarrow> l_rtp l \<le> MAX_RTP_SESSION_KEY_LIVES \<and> l_rtcp l \<le> MAX_RTCP_SESSION_KEY_LIVES"

lemma lifetime_ok_default: "lifetime_ok keys_lifetime_default"
  by (simp add: lifetime_ok_def keys_lifetime_default_def)

lemma decrease_not_Err [outcome_simps, simp]: "decrease_rtp l \<noteq> Err e" "decrease_rtcp l \<noteq> Err e"
  by (simp_all add: decrease_rtp_def decrease_rtcp_def Let_def)

lemma decrease_Panic_iff [outcome_simps, simp]:
  "decrease_rtp l = Panic \<longleftrightarrow> l_rtp l = 0" "decrease_rtcp l = Panic \<longleftrightarrow> l_rtcp l = 0"
  by (simp_all add: decrease_rtp_def decrease_rtcp_def Let_def)

lemma unat_pred: "(w :: 'a::len word) \<noteq> 0 \<Longrightarrow> unat (w - 1) = unat w - 1"
  by (metis unat_minus_one)

lemma decrease_rtp_Ok:
  assumes "decrease_rtp l = Ok l'"
  shows "Suc (unat (l_rtp l')) = unat (l_rtp l)" "unat (l_rtcp l') \<le> unat (l_rtcp l)"
    "l_rtp l' = 0 \<Longrightarrow> l_rtcp l' = 0"
  using assms by (auto simp: decrease_rtp_def Let_def unat_pred unat_gt_0 split: if_splits)

lemma decrease_rtcp_Ok:
  assumes "decrease_rtcp l = Ok l'"
  shows "Suc (unat (l_rtcp l')) = unat (l_rtcp l)" "unat (l_rtp l') \<le> unat (l_rtp l)"
    "l_rtcp l' = 0 \<Longrightarrow> l_rtp l' = 0"
  using assms by (auto simp: decrease_rtcp_def Let_def unat_pred unat_gt_0 split: if_splits)

lemma decrease_lifetime_ok:
  assumes "lifetime_ok l" and "decrease_rtp l = Ok l' \<or> decrease_rtcp l = Ok l'"
  shows "lifetime_ok l'"
proof -
  have "unat (l_rtp l') \<le> unat (l_rtp l) \<and> unat (l_rtcp l') \<le> unat (l_rtcp l)"
    using assms(2) decrease_rtp_Ok(1,2) [of l l'] decrease_rtcp_Ok(1,2) [of l l'] by force
  with assms(1) show ?thesis
    unfolding lifetime_ok_def word_le_nat_alt by linarith
qed

section \<open>Master keys\<close>

record master_key =
  mk_key :: bytes
  mk_salt :: bytes
  mk_mki :: mki
  mk_lifetime :: keys_lifetime

definition master_key_new :: "bytes \<Rightarrow> bytes \<Rightarrow> mki \<Rightarrow> master_key" where
  "master_key_new k salt m =
     \<lparr>mk_key = k, mk_salt = salt, mk_mki = m, mk_lifetime = keys_lifetime_default\<rparr>"

definition mk_set_keys_lifetime ::
    "master_key \<Rightarrow> u64 \<Rightarrow> u64 \<Rightarrow> u32 \<Rightarrow> u32 \<Rightarrow> master_key \<times> unit result" where
  "mk_set_keys_lifetime k rtp rtp_limit rtcp rtcp_limit =
     (if MAX_RTP_SESSION_KEY_LIVES < rtp \<or> MAX_RTCP_SESSION_KEY_LIVES < rtcp then (k, Err InvalidProfile)
      else if rtp < rtp_limit \<or> rtcp < rtcp_limit then (k, Err InvalidProfile)
      else (k\<lparr>mk_lifetime := \<lparr>l_rtp = rtp, l_rtp_limit = rtp_limit, l_rtcp = rtcp, l_rtcp_limit = rtcp_limit\<rparr>\<rparr>,
            Ok ()))"

definition lives_accepted :: "u64 \<Rightarrow> u64 \<Rightarrow> u32 \<Rightarrow> u32 \<Rightarrow> bool" where
  "lives_accepted rtp rtp_limit rtcp rtcp_limit \<longleftrightarrow>
     rtp \<le> MAX_RTP_SESSION_KEY_LIVES \<and> rtcp \<le> MAX_RTCP_SESSION_KEY_LIVES \<and>
     rtp_limit \<le> rtp \<and> rtcp_limit \<le> rtcp"

lemma mk_set_keys_lifetime_eq:
  "mk_set_keys_lifetime k rtp rl rtcp cl =
     (if lives_accepted rtp rl rtcp cl
      then (k\<lparr>mk_lifetime := \<lparr>l_rtp = rtp, l_rtp_limit = rl, l_rtcp = rtcp, l_rtcp_limit = cl\<rparr>\<rparr>, Ok ())
      else (k, Err InvalidProfile))"
  by (auto simp: mk_set_keys_lifetime_def lives_accepted_def not_less)

section \<open>Stream configuration\<close>

record stream_config =
  sc_keys :: "master_key list"
  sc_rtp_profile :: protection_profile
  sc_rtcp_profile :: protection_profile
  sc_replay_window_size :: u16
  sc_allow_send_repeat :: bool

definition stream_config_default :: stream_config where
  "stream_config_default =
     \<lparr>sc_keys = [], sc_rtp_profile = Aes128CmHmacSha180, sc_rtcp_profile = Aes128CmHmacSha180,
      sc_replay_window_size = DEFAULT_REPLAY_WINDOW_SIZE, sc_allow_send_repeat = False\<rparr>"

definition stream_config_new ::
    "master_key list \<Rightarrow> protection_profile \<Rightarrow> protection_profile \<Rightarrow> stream_config" where
  "stream_config_new keys rtp_profile rtcp_profile =
     stream_config_default\<lparr>sc_keys := keys, sc_rtp_profile := rtp_profile, sc_rtcp_profile := rtcp_profile\<rparr>"

definition sc_set_replay_window_size :: "stream_config \<Rightarrow> u16 \<Rightarrow> stream_config" where
  "sc_set_replay_window_size cfg n = cfg\<lparr>sc_replay_window_size := n\<rparr>"

definition sc_get_replay_window_size :: "stream_config \<Rightarrow> u16" where
  "sc_get_replay_window_size cfg = sc_replay_window_size cfg"

definition sc_set_allow_send_repeat :: "stream_config \<Rightarrow> bool \<Rightarrow> stream_config" where
  "sc_set_allow_send_repeat cfg allow = cfg\<lparr>sc_allow_send_repeat := allow\<rparr>"

text \<open>The loop of \<^verbatim>\<open>set_keys_lifetime\<close>: it stops at the first key that refuses.\<close>

fun set_lives_loop :: "master_key list \<Rightarrow> u64 \<Rightarrow> u64 \<Rightarrow> u32 \<Rightarrow> u32 \<Rightarrow> master_key list \<times> unit result" where
  "set_lives_loop [] rtp rl rtcp cl = ([], Ok ())"
| "set_lives_loop (k # ks) rtp rl rtcp cl =
     (case mk_set_keys_lifetime k rtp rl rtcp cl of
        (k', Ok _) \<Rightarrow> let (ks', r) = set_lives_loop ks rtp rl rtcp cl in (k' # ks', r)
      | (k', r) \<Rightarrow> (k' # ks, r))"

definition sc_set_keys_lifetime ::
    "stream_config \<Rightarrow> u64 \<Rightarrow> u64 \<Rightarrow> u32 \<Rightarrow> u32 \<Rightarrow> stream_config \<times> unit result" where
  "sc_set_keys_lifetime cfg rtp rl rtcp cl =
     (let (ks, r) = set_lives_loop (sc_keys cfg) rtp rl rtcp cl in (cfg\<lparr>sc_keys := ks\<rparr>, r))"

text \<open>The loop of \<^verbatim>\<open>set_keys_lifetime_mki\<close>: the first key with the MKI.\<close>

fun set_lives_mki_loop ::
    "master_key list \<Rightarrow> u64 \<Rightarrow> u64 \<Rightarrow> u32 \<Rightarrow> u32 \<Rightarrow> mki \<Rightarrow> master_key list \<times> unit result" where
  "set_lives_mki_loop [] rtp rl rtcp cl m = ([], Err InvalidMki)"
| "set_lives_mki_loop (k # ks) rtp rl rtcp cl m =
     (if mk_mki k = m then
        let (k', r) = mk_set_keys_lifetime k rtp rl rtcp cl in (k' # ks, r)
      else let (ks', r) = set_lives_mki_loop ks rtp rl rtcp cl m in (k # ks', r))"

definition sc_set_keys_lifetime_mki ::
    "stream_config \<Rightarrow> u64 \<Rightarrow> u64 \<Rightarrow> u32 \<Rightarrow> u32 \<Rightarrow> mki \<Rightarrow> stream_config \<times> unit result" where
  "sc_set_keys_lifetime_mki cfg rtp rl rtcp cl m =
     (let (ks, r) = set_lives_mki_loop (sc_keys cfg) rtp rl rtcp cl m in (cfg\<lparr>sc_keys := ks\<rparr>, r))"

text \<open>All keys get the lives, or none does.\<close>

lemma set_lives_loop_eq:
  "set_lives_loop ks rtp rl rtcp cl =
     (if lives_accepted rtp rl rtcp cl
      then (map (\<lambda>k. k\<lparr>mk_lifetime := \<lparr>l_rtp = rtp, l_rtp_limit = rl, l_rtcp = rtcp, l_rtcp_limit = cl\<rparr>\<rparr>) ks,
            Ok ())
      else (ks, if ks = [] then Ok () else Err InvalidProfile))"
  by (induction ks) (auto simp: mk_set_keys_lifetime_eq)

lemma set_lives_mki_loop_zero:
  "set_lives_mki_loop ks 0 0 0 0 m =
     (if m \<in> mk_mki ` set ks
      then (let n = length (takeWhile (\<lambda>k. mk_mki k \<noteq> m) ks) in
            ks[n := (ks ! n)\<lparr>mk_lifetime := \<lparr>l_rtp = 0, l_rtp_limit = 0, l_rtcp = 0, l_rtcp_limit = 0\<rparr>\<rparr>],
            Ok ())
      else (ks, Err InvalidMki))"
  by (induction ks)
    (auto simp: mk_set_keys_lifetime_eq lives_accepted_def MAX_RTP_SESSION_KEY_LIVES_def
      MAX_RTCP_SESSION_KEY_LIVES_def Let_def split: prod.splits if_splits)

section \<open>Validation\<close>

text \<open>
  The loop over several keys, with the state it carries: the MKI size found so far (0 before the
  first) and the set of MKIs seen.
\<close>

fun validate_keys :: "nat \<Rightarrow> nat \<Rightarrow> master_key list \<Rightarrow> nat \<Rightarrow> bytes set \<Rightarrow> unit result" where
  "validate_keys key_size salt_size [] mki_size mki_seen = Ok ()"
| "validate_keys key_size salt_size (k # ks) mki_size mki_seen =
     (case mk_mki k of
        None \<Rightarrow> Err InvalidProfile
      | Some m \<Rightarrow>
          and_then (if mki_size = 0 then Ok (length m)
                    else if mki_size \<noteq> length m then Err InvalidProfile else Ok mki_size) (\<lambda>mki_size.
          if m \<in> mki_seen then Err InvalidProfile
          else if length (mk_key k) \<noteq> key_size \<or> length (mk_salt k) \<noteq> salt_size then Err InvalidProfile
          else validate_keys key_size salt_size ks mki_size (insert m mki_seen)))"

definition validate_sizes :: "protection_profile \<Rightarrow> protection_profile \<Rightarrow> nat \<Rightarrow> nat \<Rightarrow> unit result" where
  "validate_sizes rtp rtcp key_size salt_size =
     (if 0 < key_len rtp \<and> key_len rtp \<noteq> key_size then Err InvalidProfile
      else if 0 < key_len rtcp \<and> key_len rtcp \<noteq> key_size then Err InvalidProfile
      else if key_len rtp = 0 \<and> key_len rtcp = 0 \<and> key_size \<noteq> 16 \<and> key_size \<noteq> 24 \<and> key_size \<noteq> 32
      then Err InvalidProfile
      else if salt_size \<noteq> 0 \<and> 0 < salt_len rtp \<and> salt_len rtp \<noteq> salt_size then Err InvalidProfile
      else if salt_size \<noteq> 0 \<and> 0 < salt_len rtcp \<and> salt_len rtcp \<noteq> salt_size then Err InvalidProfile
      else Ok ())"

definition validate :: "stream_config \<Rightarrow> unit result" where
  "validate cfg =
     (if tag_len (sc_rtcp_profile cfg) < 10 \<and> sc_rtcp_profile cfg \<noteq> AeadAes128Gcm \<and>
         sc_rtcp_profile cfg \<noteq> AeadAes256Gcm then Err InvalidProfile
      else if sc_keys cfg = [] then Err InvalidProfile
      else
        let key_size = length (mk_key (sc_keys cfg ! 0));
            salt_size = length (mk_salt (sc_keys cfg ! 0))
        in and_then (if 1 < length (sc_keys cfg)
                     then validate_keys key_size salt_size (sc_keys cfg) 0 {} else Ok ()) (\<lambda>_.
           validate_sizes (sc_rtp_profile cfg) (sc_rtcp_profile cfg) key_size salt_size))"

subsection \<open>A declarative reading\<close>

definition mki_size :: "master_key \<Rightarrow> nat" where
  "mki_size k = length (mki_bytes (mk_mki k))"

lemma mki_bytes_Some [simp]: "mki_bytes (Some m) = m" "mki_bytes None = []"
  by (simp_all add: mki_bytes_def)

definition same_sizes :: "nat \<Rightarrow> nat \<Rightarrow> master_key list \<Rightarrow> bool" where
  "same_sizes key_size salt_size ks \<longleftrightarrow>
     (\<forall>k \<in> set ks. length (mk_key k) = key_size \<and> length (mk_salt k) = salt_size)"

text \<open>Several keys: each has an MKI, they differ, and have one length (the first may be empty).\<close>

definition mkis_consistent :: "master_key list \<Rightarrow> bool" where
  "mkis_consistent ks \<longleftrightarrow>
     None \<notin> mk_mki ` set ks \<and> distinct (map mk_mki ks) \<and>
     (\<exists>n. (\<forall>k \<in> set (tl ks). mki_size k = n) \<and> mki_size (hd ks) \<in> {0, n})"

definition sizes_fit :: "protection_profile \<Rightarrow> nat \<Rightarrow> nat \<Rightarrow> bool" where
  "sizes_fit p key_size salt_size \<longleftrightarrow>
     key_size \<in> {16, 24, 32} \<and> (0 < key_len p \<longrightarrow> key_len p = key_size) \<and> salt_size \<in> {0, salt_len p}"

definition valid_config :: "stream_config \<Rightarrow> bool" where
  "valid_config cfg \<longleftrightarrow>
     (\<not> tag_len (sc_rtcp_profile cfg) < 10 \<or> is_gcm (sc_rtcp_profile cfg)) \<and>
     sc_keys cfg \<noteq> [] \<and>
     (let k = hd (sc_keys cfg); ks = length (mk_key k); ss = length (mk_salt k) in
        same_sizes ks ss (sc_keys cfg) \<and> sizes_fit (sc_rtp_profile cfg) ks ss \<and>
        sizes_fit (sc_rtcp_profile cfg) ks ss) \<and>
     (1 < length (sc_keys cfg) \<longrightarrow> mkis_consistent (sc_keys cfg))"

lemma validate_keys_step:
  "validate_keys kz sz (k # ks) n seen = Ok () \<longleftrightarrow>
     (\<exists>m. mk_mki k = Some m \<and> n \<in> {0, length m} \<and> m \<notin> seen \<and> length (mk_key k) = kz \<and>
        length (mk_salt k) = sz \<and> validate_keys kz sz ks (length m) (insert m seen) = Ok ())"
  by (cases "mk_mki k") auto

lemma validate_keys_pos:
  "0 < n \<Longrightarrow> validate_keys kz sz ks n seen = Ok () \<longleftrightarrow>
     same_sizes kz sz ks \<and> None \<notin> mk_mki ` set ks \<and> distinct (map mk_mki ks) \<and>
     (\<forall>k \<in> set ks. mki_size k = n) \<and> (\<forall>m \<in> seen. Some m \<notin> mk_mki ` set ks)"
proof (induction ks arbitrary: seen)
  case Nil
  then show ?case by (simp add: same_sizes_def)
next
  case (Cons k ks)
  show ?case
  proof (cases "mk_mki k")
    case None
    then show ?thesis by auto
  next
    case (Some m)
    then have m: "mki_size k = length m"
      by (simp add: mki_size_def)
    have "validate_keys kz sz (k # ks) n seen = Ok () \<longleftrightarrow>
        n = length m \<and> m \<notin> seen \<and> length (mk_key k) = kz \<and> length (mk_salt k) = sz \<and>
        validate_keys kz sz ks n (insert m seen) = Ok ()"
      using Some Cons.prems by (auto simp: validate_keys_step simp del: validate_keys.simps)
    also have "\<dots> \<longleftrightarrow> n = mki_size k \<and> m \<notin> seen \<and> length (mk_key k) = kz \<and> length (mk_salt k) = sz \<and>
        same_sizes kz sz ks \<and> None \<notin> mk_mki ` set ks \<and> distinct (map mk_mki ks) \<and>
        (\<forall>k \<in> set ks. mki_size k = n) \<and> Some m \<notin> mk_mki ` set ks \<and> (\<forall>m \<in> seen. Some m \<notin> mk_mki ` set ks)"
      by (simp add: Cons.IH [OF Cons.prems] m)
    finally show ?thesis
      using Some by (auto simp: same_sizes_def simp del: validate_keys.simps)
  qed
qed

lemma validate_keys_iff:
  assumes "ks \<noteq> []"
  shows "validate_keys kz sz (k # ks) 0 {} = Ok () \<longleftrightarrow> same_sizes kz sz (k # ks) \<and> mkis_consistent (k # ks)"
proof (cases "mk_mki k")
  case None
  then show ?thesis by (simp add: mkis_consistent_def)
next
  case k: (Some m)
  then have m: "mki_size k = length m"
    by (simp add: mki_size_def)
  have step: "validate_keys kz sz (k # ks) 0 {} = Ok () \<longleftrightarrow>
      length (mk_key k) = kz \<and> length (mk_salt k) = sz \<and> validate_keys kz sz ks (length m) {m} = Ok ()"
    using k by (simp add: validate_keys_step del: validate_keys.simps)
  show ?thesis
  proof (cases "0 < length m")
    case n: True
    then have "(\<exists>n. (\<forall>k' \<in> set ks. mki_size k' = n) \<and> mki_size k \<in> {0, n}) \<longleftrightarrow> (\<forall>k' \<in> set ks. mki_size k' = length m)"
      using m by auto
    then have "mkis_consistent (k # ks) \<longleftrightarrow> None \<notin> mk_mki ` set ks \<and> Some m \<notin> mk_mki ` set ks \<and>
        distinct (map mk_mki ks) \<and> (\<forall>k' \<in> set ks. mki_size k' = length m)"
      using k by (auto simp: mkis_consistent_def)
    then show ?thesis
      unfolding step validate_keys_pos [OF n] same_sizes_def by auto
  next
    case False
    from assms obtain k1 r where ks: "ks = k1 # r"
      by (cases ks) auto
    show ?thesis
    proof (cases "mk_mki k1 \<in> {None, Some []}")
      case True
      then have "\<not> validate_keys kz sz ks (length m) {m} = Ok ()" "\<not> mkis_consistent (k # ks)"
        using k False by (auto simp: ks validate_keys_step mkis_consistent_def simp del: validate_keys.simps)
      then show ?thesis
        unfolding step by simp
    next
      case k1: False
      then obtain m1 where m1: "mk_mki k1 = Some m1" and n: "0 < length m1"
        by auto
      then have size: "mki_size k1 = length m1"
        by (simp add: mki_size_def)
      then have "(\<exists>n. (\<forall>k' \<in> set ks. mki_size k' = n) \<and> mki_size k \<in> {0, n}) \<longleftrightarrow>
          (\<forall>k' \<in> set r. mki_size k' = length m1)"
        using m False by (auto simp: ks)
      then have "mkis_consistent (k # ks) \<longleftrightarrow> None \<notin> mk_mki ` set r \<and> Some [] \<notin> mk_mki ` set r \<and>
          Some m1 \<notin> mk_mki ` set r \<and> distinct (map mk_mki r) \<and> (\<forall>k' \<in> set r. mki_size k' = length m1)"
        using k False m1 n by (auto simp: mkis_consistent_def ks)
      moreover have "validate_keys kz sz ks (length m) {m} = Ok () \<longleftrightarrow> length (mk_key k1) = kz \<and>
          length (mk_salt k1) = sz \<and> validate_keys kz sz r (length m1) {m1, []} = Ok ()"
        using False m1 n by (auto simp: ks validate_keys_step simp del: validate_keys.simps)
      moreover have "validate_keys kz sz r (length m1) {m1, []} = Ok () \<longleftrightarrow> same_sizes kz sz r \<and>
          None \<notin> mk_mki ` set r \<and> distinct (map mk_mki r) \<and> (\<forall>k' \<in> set r. mki_size k' = length m1) \<and>
          Some m1 \<notin> mk_mki ` set r \<and> Some [] \<notin> mk_mki ` set r"
        by (simp add: validate_keys_pos [OF n])
      moreover have "same_sizes kz sz (k # ks) \<longleftrightarrow> length (mk_key k) = kz \<and> length (mk_salt k) = sz \<and>
          length (mk_key k1) = kz \<and> length (mk_salt k1) = sz \<and> same_sizes kz sz r"
        by (simp add: same_sizes_def ks)
      ultimately show ?thesis
        unfolding step by argo
    qed
  qed
qed

lemma validate_sizes_iff:
  "validate_sizes rtp rtcp kz sz = Ok () \<longleftrightarrow> sizes_fit rtp kz sz \<and> sizes_fit rtcp kz sz"
  using key_len_cases [of rtp] key_len_cases [of rtcp] salt_len_pos [of rtp] salt_len_pos [of rtcp]
  by (auto simp: validate_sizes_def sizes_fit_def)

lemma validate_iff: "validate cfg = Ok () \<longleftrightarrow> valid_config cfg"
proof (cases "sc_keys cfg")
  case Nil
  then show ?thesis by (simp add: validate_def valid_config_def)
next
  case keys: (Cons k ks)
  show ?thesis
  proof (cases "ks = []")
    case True
    then show ?thesis
      using keys by (auto simp: validate_def valid_config_def validate_sizes_iff same_sizes_def is_gcm_iff Let_def)
  next
    case False
    then have len: "1 < length (sc_keys cfg)"
      using keys by simp
    then show ?thesis
      using keys validate_keys_iff [OF False, of "length (mk_key k)" "length (mk_salt k)" k]
      by (simp add: validate_def valid_config_def validate_sizes_iff is_gcm_iff outcome_simps Let_def
          del: validate_keys.simps) argo
  qed
qed

lemma validate_keys_cases:
  "validate_keys kz sz ks n seen = Ok () \<or> validate_keys kz sz ks n seen = Err InvalidProfile"
  by (induction ks arbitrary: n seen) (auto split: option.split)

lemma validate_cases: "validate cfg = Ok () \<or> validate cfg = Err InvalidProfile"
proof -
  have sizes: "validate_sizes rtp rtcp kz sz = Ok () \<or> validate_sizes rtp rtcp kz sz = Err InvalidProfile"
    for rtp rtcp kz sz
    by (simp add: validate_sizes_def)
  have "and_then r (\<lambda>_. validate_sizes rtp rtcp kz sz) \<in> {Ok (), Err InvalidProfile}"
    if "r = Ok () \<or> r = Err InvalidProfile" for r rtp rtcp kz sz
    using that sizes [of rtp rtcp kz sz] by auto
  then show ?thesis
    using validate_keys_cases by (simp add: validate_def Let_def)
qed

text \<open>The lifetimes do not matter, so killing a key of a template leaves the template valid.\<close>

definition without_lives :: "master_key list \<Rightarrow> master_key list" where
  "without_lives = map (\<lambda>k. k\<lparr>mk_lifetime := keys_lifetime_default\<rparr>)"

lemma valid_config_without_lives:
  "valid_config (cfg\<lparr>sc_keys := without_lives (sc_keys cfg)\<rparr>) \<longleftrightarrow> valid_config cfg"
  by (cases "sc_keys cfg")
    (simp_all add: valid_config_def without_lives_def same_sizes_def mkis_consistent_def mki_size_def
      comp_def image_image)

lemma set_lives_mki_loop_keys:
  "without_lives (fst (set_lives_mki_loop ks rtp rl rtcp cl m)) = without_lives ks"
  by (induction ks) (auto simp: without_lives_def mk_set_keys_lifetime_eq split: prod.splits)

lemma valid_config_kill:
  assumes "valid_config cfg"
  shows "valid_config (fst (sc_set_keys_lifetime_mki cfg rtp rl rtcp cl m))"
proof -
  let ?cfg = "fst (sc_set_keys_lifetime_mki cfg rtp rl rtcp cl m)"
  have "?cfg\<lparr>sc_keys := without_lives (sc_keys ?cfg)\<rparr> = cfg\<lparr>sc_keys := without_lives (sc_keys cfg)\<rparr>"
    by (simp add: sc_set_keys_lifetime_mki_def split_beta set_lives_mki_loop_keys)
  then show ?thesis
    using assms valid_config_without_lives by metis
qed

end
