(* ===== verification/Srtp_External.thy ===== *)
theory Srtp_External
  imports Srtp_Prelude
begin

text \<open>
  The crates the library calls and whose code is not part of the repository: the RustCrypto
  ciphers (\<^verbatim>\<open>aes\<close>, \<^verbatim>\<open>ctr\<close>, \<^verbatim>\<open>aes-gcm\<close>), \<^verbatim>\<open>hmac\<close>/\<^verbatim>\<open>sha1\<close>,
  \<^verbatim>\<open>constant_time_eq\<close> and \<^verbatim>\<open>num-bigint\<close>. They are parameters of the model: a record of
  functions, passed to every definition that calls them. What the library relies on is their
  documented behaviour, collected in the predicates \<open>crypto_laws\<close> and \<open>biguint_laws\<close>; the
  theorems that need it take it as a named hypothesis. The last section gives concrete functions
  that satisfy the hypotheses, for the witnesses.
\<close>

section \<open>Ciphers and authentication codes\<close>

text \<open>The three AES key sizes the code instantiates the generic ciphers with.\<close>

datatype aes_variant = Aes128 | Aes192 | Aes256

fun aes_key_len :: "aes_variant \<Rightarrow> nat" where
  "aes_key_len Aes128 = 16"
| "aes_key_len Aes192 = 24"
| "aes_key_len Aes256 = 32"

text \<open>
  \<^item> \<open>aes_ctr v key iv data\<close>: \<^verbatim>\<open>ctr::Ctr32BE<Aes..>::new(key, iv)\<close> followed by
    \<^verbatim>\<open>apply_keystream\<close> on \<open>data\<close>; \<open>None\<close> when the key stream is exhausted (the call panics).
  \<^item> \<open>hmac_sha1 key msg\<close>: \<^verbatim>\<open>Hmac<Sha1>::new_from_slice(key)\<close>, \<^verbatim>\<open>update\<close>s with the
    concatenation \<open>msg\<close>, \<^verbatim>\<open>finalize\<close>; \<open>None\<close> when the key is refused.
  \<^item> \<open>gcm_encrypt v key nonce ad data\<close>: \<^verbatim>\<open>encrypt_in_place_detached\<close>, the cipher text and the tag.
  \<^item> \<open>gcm_decrypt v key nonce ad data tag\<close>: \<^verbatim>\<open>decrypt_in_place_detached\<close>.
  \<^item> \<open>ct_eq\<close>: \<^verbatim>\<open>constant_time_eq\<close>.
\<close>

record crypto =
  aes_ctr :: "aes_variant \<Rightarrow> bytes \<Rightarrow> bytes \<Rightarrow> bytes \<Rightarrow> bytes option"
  hmac_sha1 :: "bytes \<Rightarrow> bytes \<Rightarrow> bytes option"
  gcm_encrypt :: "aes_variant \<Rightarrow> bytes \<Rightarrow> bytes \<Rightarrow> bytes \<Rightarrow> bytes \<Rightarrow> (bytes \<times> bytes) option"
  gcm_decrypt :: "aes_variant \<Rightarrow> bytes \<Rightarrow> bytes \<Rightarrow> bytes \<Rightarrow> bytes \<Rightarrow> bytes \<Rightarrow> bytes option"
  ct_eq :: "bytes \<Rightarrow> bytes \<Rightarrow> bool"

text \<open>
  The longest message the hypotheses speak of. The documented limit of both cipher modes is about
  \<open>2^36\<close> bytes per initialisation vector; \<open>2^32\<close> is far above any datagram.
\<close>

definition max_message :: nat where
  "max_message = 2 ^ 32"

text \<open>
  The documented behaviour: counter mode is an involution that keeps the length, and does not run
  out of key stream on messages of the length considered; HMAC accepts keys of any length and
  yields 20 bytes; GCM keeps the length, makes a 16-byte tag, decrypts what it encrypted, and refuses only messages
  that are too long;
  the constant-time comparison is equality.
\<close>

definition ctr_laws :: "crypto \<Rightarrow> bool" where
  "ctr_laws C \<longleftrightarrow>
     (\<forall>v k iv d c. aes_ctr C v k iv d = Some c \<longrightarrow>
        length c = length d \<and> aes_ctr C v k iv c = Some d) \<and>
     (\<forall>v k iv d. length d \<le> max_message \<longrightarrow> aes_ctr C v k iv d \<noteq> None)"

definition hmac_laws :: "crypto \<Rightarrow> bool" where
  "hmac_laws C \<longleftrightarrow> (\<forall>k m. \<exists>t. hmac_sha1 C k m = Some t \<and> length t = 20)"

definition gcm_laws :: "crypto \<Rightarrow> bool" where
  "gcm_laws C \<longleftrightarrow>
     (\<forall>v k n ad d c t. gcm_encrypt C v k n ad d = Some (c, t) \<longrightarrow>
        length c = length d \<and> length t = 16 \<and> gcm_decrypt C v k n ad c t = Some d) \<and>
     (\<forall>v k n ad c t d. gcm_decrypt C v k n ad c t = Some d \<longrightarrow> length d = length c) \<and>
     (\<forall>v k n ad d. length ad \<le> max_message \<longrightarrow> length d \<le> max_message \<longrightarrow> gcm_encrypt C v k n ad d \<noteq> None)"

definition crypto_laws :: "crypto \<Rightarrow> bool" where
  "crypto_laws C \<longleftrightarrow>
     ctr_laws C \<and> hmac_laws C \<and> gcm_laws C \<and> (\<forall>a b. ct_eq C a b \<longleftrightarrow> a = b)"

lemma ctr_lawsD:
  assumes "crypto_laws C"
  shows ctr_length: "aes_ctr C v k iv d = Some c \<Longrightarrow> length c = length d"
    and ctr_involution: "aes_ctr C v k iv d = Some c \<Longrightarrow> aes_ctr C v k iv c = Some d"
    and ctr_total: "length d \<le> max_message \<Longrightarrow> aes_ctr C v k iv d \<noteq> None"
proof -
  from assms have laws: "ctr_laws C" by (simp add: crypto_laws_def)
  note c = laws [unfolded ctr_laws_def, THEN conjunct1, rule_format]
    and t = laws [unfolded ctr_laws_def, THEN conjunct2, rule_format]
  show "aes_ctr C v k iv d = Some c \<Longrightarrow> length c = length d"
    by (rule c [THEN conjunct1])
  show "aes_ctr C v k iv d = Some c \<Longrightarrow> aes_ctr C v k iv c = Some d"
    by (rule c [THEN conjunct2])
  show "length d \<le> max_message \<Longrightarrow> aes_ctr C v k iv d \<noteq> None"
    by (rule t)
qed

lemma hmac_lawsD:
  assumes "crypto_laws C"
  shows hmac_total: "\<exists>t. hmac_sha1 C k m = Some t \<and> length t = 20"
    and hmac_length: "hmac_sha1 C k m = Some t \<Longrightarrow> length t = 20"
  using assms unfolding crypto_laws_def hmac_laws_def by (blast, metis option.inject)

lemma gcm_lawsD:
  assumes "crypto_laws C"
  shows gcm_length: "gcm_encrypt C v k n ad d = Some (c, t) \<Longrightarrow> length c = length d \<and> length t = 16"
    and gcm_inverse: "gcm_encrypt C v k n ad d = Some (c, t) \<Longrightarrow> gcm_decrypt C v k n ad c t = Some d"
    and gcm_decrypt_length: "gcm_decrypt C v k n ad c t = Some d \<Longrightarrow> length d = length c"
    and gcm_total: "length ad \<le> max_message \<Longrightarrow> length d \<le> max_message \<Longrightarrow> gcm_encrypt C v k n ad d \<noteq> None"
proof -
  from assms have laws: "gcm_laws C" by (simp add: crypto_laws_def)
  note e = laws [unfolded gcm_laws_def, THEN conjunct1, rule_format]
    and d = laws [unfolded gcm_laws_def, THEN conjunct2, THEN conjunct1, rule_format]
    and t = laws [unfolded gcm_laws_def, THEN conjunct2, THEN conjunct2, rule_format]
  show "gcm_encrypt C v k n ad d = Some (c, t) \<Longrightarrow> length c = length d \<and> length t = 16"
    and "gcm_encrypt C v k n ad d = Some (c, t) \<Longrightarrow> gcm_decrypt C v k n ad c t = Some d"
    using e by blast+
  show "gcm_decrypt C v k n ad c t = Some d \<Longrightarrow> length d = length c" by (rule d)
  show "length ad \<le> max_message \<Longrightarrow> length d \<le> max_message \<Longrightarrow> gcm_encrypt C v k n ad d \<noteq> None" by (rule t)
qed

lemma ct_eq_iff: "crypto_laws C \<Longrightarrow> ct_eq C a b \<longleftrightarrow> a = b"
  unfolding crypto_laws_def by blast

text \<open>
  The calls as the code makes them. \<^verbatim>\<open>GenericArray::from_slice\<close> panics when the slice has not
  the length the cipher type fixes.
\<close>

definition apply_keystream :: "crypto \<Rightarrow> aes_variant \<Rightarrow> bytes \<Rightarrow> bytes \<Rightarrow> bytes \<Rightarrow> bytes result" where
  "apply_keystream C v key iv data =
     and_then (expect (length key = aes_key_len v \<and> length iv = 16)) (\<lambda>_.
     or_panic (aes_ctr C v key iv data))"

definition encrypt_in_place_detached ::
    "crypto \<Rightarrow> aes_variant \<Rightarrow> bytes \<Rightarrow> bytes \<Rightarrow> bytes \<Rightarrow> bytes \<Rightarrow> srtp_error \<Rightarrow> (bytes \<times> bytes) result" where
  "encrypt_in_place_detached C v key nonce ad payload e =
     and_then (expect (length key = aes_key_len v \<and> length nonce = 12)) (\<lambda>_.
     ok_or (gcm_encrypt C v key nonce ad payload) e)"

definition decrypt_in_place_detached ::
    "crypto \<Rightarrow> aes_variant \<Rightarrow> bytes \<Rightarrow> bytes \<Rightarrow> bytes \<Rightarrow> bytes \<Rightarrow> bytes \<Rightarrow> srtp_error \<Rightarrow> bytes result" where
  "decrypt_in_place_detached C v key nonce ad payload tag e =
     and_then (expect (length key = aes_key_len v \<and> length nonce = 12 \<and> length tag = 16)) (\<lambda>_.
     ok_or (gcm_decrypt C v key nonce ad payload tag) e)"

lemma apply_keystream_Ok_iff [outcome_simps]:
  "apply_keystream C v key iv data = Ok c \<longleftrightarrow>
     length key = aes_key_len v \<and> length iv = 16 \<and> aes_ctr C v key iv data = Some c"
  by (auto simp: apply_keystream_def outcome_simps)

lemma apply_keystream_total:
  "crypto_laws C \<Longrightarrow> length key = aes_key_len v \<Longrightarrow> length iv = 16 \<Longrightarrow> length data \<le> max_message \<Longrightarrow>
   \<exists>c. apply_keystream C v key iv data = Ok c \<and> length c = length data"
  using ctr_total ctr_length by (fastforce simp: outcome_simps)

lemma apply_keystream_not_Err [outcome_simps]: "apply_keystream C v key iv data \<noteq> Err e"
  by (auto simp: apply_keystream_def outcome_simps)

section \<open>Arbitrary-size integers\<close>

text \<open>The operations of \<^verbatim>\<open>BigUint\<close> the replay windows use.\<close>

record 'b biguint =
  big_zero :: 'b
  big_one :: 'b
  big_shl :: "'b \<Rightarrow> nat \<Rightarrow> 'b"
  big_sub :: "'b \<Rightarrow> 'b \<Rightarrow> 'b"
  big_and :: "'b \<Rightarrow> 'b \<Rightarrow> 'b"
  big_set_bit :: "'b \<Rightarrow> nat \<Rightarrow> bool \<Rightarrow> 'b"
  big_bit :: "'b \<Rightarrow> nat \<Rightarrow> bool"
  big_bits :: "'b \<Rightarrow> nat"

text \<open>
  Documented behaviour, stated on the bits: \<open>(1 << n) - 1\<close> has the bits below \<open>n\<close> set and
  \<^verbatim>\<open>bits()\<close>, the fewest bits that express the number, is \<open>n\<close> for it.
\<close>

definition biguint_laws :: "'b biguint \<Rightarrow> bool" where
  "biguint_laws B \<longleftrightarrow>
     (\<forall>i. \<not> big_bit B (big_zero B) i) \<and>
     (\<forall>n i. big_bit B (big_sub B (big_shl B (big_one B) n) (big_one B)) i \<longleftrightarrow> i < n) \<and>
     (\<forall>n. big_bits B (big_sub B (big_shl B (big_one B) n) (big_one B)) = n) \<and>
     (\<forall>x n i. big_bit B (big_shl B x n) i \<longleftrightarrow> n \<le> i \<and> big_bit B x (i - n)) \<and>
     (\<forall>x y i. big_bit B (big_and B x y) i \<longleftrightarrow> big_bit B x i \<and> big_bit B y i) \<and>
     (\<forall>x n v i. big_bit B (big_set_bit B x n v) i \<longleftrightarrow> (if i = n then v else big_bit B x i))"

definition big_mask :: "'b biguint \<Rightarrow> nat \<Rightarrow> 'b" where
  "big_mask B n = big_sub B (big_shl B (big_one B) n) (big_one B)"

lemma big_simps:
  assumes "biguint_laws B"
  shows "\<not> big_bit B (big_zero B) i"
    and "big_bit B (big_mask B n) i \<longleftrightarrow> i < n"
    and "big_bits B (big_mask B n) = n"
    and "big_bit B (big_shl B x n) i \<longleftrightarrow> n \<le> i \<and> big_bit B x (i - n)"
    and "big_bit B (big_and B x y) i \<longleftrightarrow> big_bit B x i \<and> big_bit B y i"
    and "big_bit B (big_set_bit B x n v) i \<longleftrightarrow> (if i = n then v else big_bit B x i)"
  using assms unfolding biguint_laws_def big_mask_def by (elim conjE; simp)+

section \<open>Functions that satisfy the hypotheses\<close>

text \<open>
  Natural numbers implement \<^verbatim>\<open>BigUint\<close>. As cipher, an additive one whose pad depends on the
  key and the initialisation vector; as authentication code a checksum. They are no real
  cryptography: they show that the hypotheses can hold, on functions whose results differ when the
  keys or the messages differ.
\<close>

fun nat_bits :: "nat \<Rightarrow> nat" where
  "nat_bits n = (if n = 0 then 0 else Suc (nat_bits (n div 2)))"

declare nat_bits.simps [simp del]

lemma nat_bits_mask: "nat_bits (2 ^ n - 1) = n"
proof (induction n)
  case 0
  then show ?case by (simp add: nat_bits.simps)
next
  case (Suc n)
  have "(2 ^ Suc n - 1 :: nat) \<noteq> 0" and "(2 ^ Suc n - 1) div 2 = (2 ^ n - 1 :: nat)"
    using one_le_power [of "2::nat" n] by (simp_all, presburger)
  then show ?case
    using Suc by (simp only: nat_bits.simps [of "2 ^ Suc n - 1"] if_False)
qed

definition nat_biguint :: "nat biguint" where
  "nat_biguint = \<lparr>big_zero = 0, big_one = 1, big_shl = (\<lambda>x n. push_bit n x), big_sub = (-),
     big_and = (AND), big_set_bit = (\<lambda>x n v. if v then set_bit n x else unset_bit n x),
     big_bit = bit, big_bits = nat_bits\<rparr>"

lemma nat_biguint_laws: "biguint_laws nat_biguint"
proof -
  have mask: "2 ^ n - Suc 0 = (mask n :: nat)" for n
    by (simp add: mask_eq_exp_minus_1)
  show ?thesis
    unfolding biguint_laws_def nat_biguint_def
    by (auto simp: bit_simps mask push_bit_nat_eq)
       (simp_all add: mask [symmetric] nat_bits_mask [unfolded One_nat_def] bit_simps)
qed

definition sample_pad :: "bytes \<Rightarrow> bytes \<Rightarrow> bytes \<Rightarrow> bytes" where
  "sample_pad key iv data =
     map2 (\<lambda>i x. x XOR (sum_list key + sum_list iv + of_nat i)) [0..<length data] data"

definition sample_sum :: "nat \<Rightarrow> bytes \<Rightarrow> bytes" where
  "sample_sum n msg = map (\<lambda>i. sum_list msg + of_nat i) [0..<n]"

definition sample_crypto :: crypto where
  "sample_crypto =
     \<lparr>aes_ctr = (\<lambda>v k iv d. Some (sample_pad k iv d)),
      hmac_sha1 = (\<lambda>k m. Some (sample_sum 20 (k @ m))),
      gcm_encrypt = (\<lambda>v k n ad d. Some (sample_pad k n d, sample_sum 16 (k @ n @ ad @ sample_pad k n d))),
      gcm_decrypt = (\<lambda>v k n ad c t.
        if t = sample_sum 16 (k @ n @ ad @ c) then Some (sample_pad k n c) else None),
      ct_eq = (=)\<rparr>"

lemma length_sample [simp]:
  "length (sample_pad k iv d) = length d" "length (sample_sum n m) = n"
  by (simp_all add: sample_pad_def sample_sum_def)

lemma sample_pad_involution [simp]: "sample_pad k iv (sample_pad k iv d) = d"
  by (rule nth_equalityI) (simp_all add: sample_pad_def xor.assoc)

lemma sample_crypto_laws: "crypto_laws sample_crypto"
  by (auto simp: crypto_laws_def ctr_laws_def hmac_laws_def gcm_laws_def sample_crypto_def split: if_splits)

end
