(* ===== verification/Srtp_Replay_Spec.thy ===== *)
theory Srtp_Replay_Spec
  imports Srtp_Prelude
begin

text \<open>
  What a replay database promises, independently of its bitmap: a window over packet indices
  (RFC 3711, 3.3.2) that remembers every index it was given, reports as seen whatever it was given
  or is older than the window, and so admits no index twice. The locale \<open>replay_window\<close> is the
  contract the two databases of \<^verbatim>\<open>libsrtp/src/replay.rs\<close> are proved to satisfy; its lemmas are
  about the loop every stream runs on it: look the index up, and add it when it is new.
\<close>

section \<open>The abstract window\<close>

record window_spec =
  w_top :: nat
  w_hits :: "nat set"
  w_size :: nat

definition win_empty :: "nat \<Rightarrow> window_spec" where
  "win_empty n = \<lparr>w_top = 0, w_hits = {}, w_size = n\<rparr>"

definition win_seen :: "window_spec \<Rightarrow> nat \<Rightarrow> bool" where
  "win_seen w n \<longleftrightarrow> n \<le> w_top w \<and> (w_size w \<le> w_top w - n \<or> n \<in> w_hits w)"

definition win_add :: "window_spec \<Rightarrow> nat \<Rightarrow> window_spec" where
  "win_add w n = w\<lparr>w_top := max (w_top w) n, w_hits := insert n (w_hits w)\<rparr>"

definition win_ok :: "window_spec \<Rightarrow> bool" where
  "win_ok w \<longleftrightarrow> w_hits w \<subseteq> {..w_top w}"

lemma win_empty_simps [simp]:
  "w_top (win_empty n) = 0" "w_hits (win_empty n) = {}" "w_size (win_empty n) = n"
  by (simp_all add: win_empty_def)

lemma win_add_simps [simp]:
  "w_top (win_add w n) = max (w_top w) n"
  "w_hits (win_add w n) = insert n (w_hits w)"
  "w_size (win_add w n) = w_size w"
  by (simp_all add: win_add_def)

lemma win_ok_empty: "win_ok (win_empty n)"
  by (simp add: win_ok_def)

lemma win_ok_add: "win_ok w \<Longrightarrow> win_ok (win_add w n)"
  by (auto simp: win_ok_def)

lemma win_seen_hit: "win_ok w \<Longrightarrow> n \<in> w_hits w \<Longrightarrow> win_seen w n"
  by (auto simp: win_ok_def win_seen_def)

lemma win_seen_mono: "win_seen w n \<Longrightarrow> win_seen (win_add w m) n"
  by (auto simp: win_seen_def)

lemma win_fresh: "\<not> win_seen w n \<Longrightarrow> n \<notin> w_hits w \<or> w_top w < n"
  by (auto simp: win_seen_def)

section \<open>The admission loop\<close>

text \<open>
  Look every index up and add the new ones: the state after the loop and the indices admitted, in
  the order of their arrival.
\<close>

fun admit :: "('db \<Rightarrow> 'i \<Rightarrow> bool) \<Rightarrow> ('db \<Rightarrow> 'i \<Rightarrow> 'db) \<Rightarrow> 'db \<Rightarrow> 'i list \<Rightarrow> 'db \<times> 'i list" where
  "admit seen add db [] = (db, [])"
| "admit seen add db (i # is) =
     (if seen db i then admit seen add db is
      else let (db', ns) = admit seen add (add db i) is in (db', i # ns))"

lemma admit_win_hits:
  "w_hits (fst (admit win_seen win_add w ns)) = w_hits w \<union> set (snd (admit win_seen win_add w ns))"
  by (induction ns arbitrary: w) (auto simp: split_beta)

lemma admit_win_ok: "win_ok w \<Longrightarrow> win_ok (fst (admit win_seen win_add w ns))"
  by (induction ns arbitrary: w) (auto simp: split_beta win_ok_add)

lemma admit_win_distinct:
  "win_ok w \<Longrightarrow>
   distinct (snd (admit win_seen win_add w ns)) \<and>
   set (snd (admit win_seen win_add w ns)) \<inter> w_hits w = {}"
proof (induction ns arbitrary: w)
  case Nil
  then show ?case by simp
next
  case (Cons n ns)
  have "n \<notin> w_hits w" if "\<not> win_seen w n"
    using win_seen_hit [OF Cons.prems] that by blast
  with Cons.IH [OF Cons.prems] Cons.IH [OF win_ok_add [OF Cons.prems]] show ?case
    by (auto simp: split_beta)
qed

text \<open>Nothing inside the window is turned away unless it came before.\<close>

lemma admit_win_complete:
  "n \<in> set ns \<Longrightarrow>
   n \<in> set (snd (admit win_seen win_add w ns)) \<or> win_seen (fst (admit win_seen win_add w ns)) n"
proof (induction ns arbitrary: w)
  case Nil
  then show ?case by simp
next
  case (Cons m ns)
  have keep: "win_seen w n \<Longrightarrow> win_seen (fst (admit win_seen win_add w ns)) n" for w
    by (induction ns arbitrary: w) (auto simp: split_beta intro: win_seen_mono)
  from Cons keep show ?case
    by (auto simp: split_beta)
qed

section \<open>The contract of a replay database\<close>

text \<open>
  \<open>rel db w\<close>: the database stands for the abstract window \<open>w\<close>. \<open>wire n\<close> is how the index \<open>n\<close> is
  written in the machine type of the database, and \<open>near w n\<close> says for which indices the database
  can tell \<open>n\<close> from its machine representation.
\<close>

locale replay_window =
  fixes seen :: "'db \<Rightarrow> 'i \<Rightarrow> bool"
    and add :: "'db \<Rightarrow> 'i \<Rightarrow> 'db"
    and wire :: "nat \<Rightarrow> 'i"
    and rel :: "'db \<Rightarrow> window_spec \<Rightarrow> bool"
    and near :: "window_spec \<Rightarrow> nat \<Rightarrow> bool"
  assumes rel_ok: "rel db w \<Longrightarrow> win_ok w"
    and seen_refines: "rel db w \<Longrightarrow> near w n \<Longrightarrow> seen db (wire n) \<longleftrightarrow> win_seen w n"
    and add_refines: "rel db w \<Longrightarrow> near w n \<Longrightarrow> rel (add db (wire n)) (win_add w n)"
begin

lemma seen_after_add:
  assumes "rel db w" "near w n" "near (win_add w n) n"
  shows "seen (add db (wire n)) (wire n)"
  using seen_refines [OF add_refines [OF assms(1,2)] assms(3)]
  by (auto simp: win_seen_def)

text \<open>An index once seen stays seen.\<close>

lemma seen_add_mono:
  assumes "rel db w" "near w n" "near w m" "near (win_add w m) n" "seen db (wire n)"
  shows "seen (add db (wire m)) (wire n)"
  using assms seen_refines [OF assms(1,2)] seen_refines [OF add_refines [OF assms(1,3)] assms(4)]
  by (simp add: win_seen_mono)

fun near_run :: "window_spec \<Rightarrow> nat list \<Rightarrow> bool" where
  "near_run w [] \<longleftrightarrow> True"
| "near_run w (n # ns) \<longleftrightarrow> near w n \<and> near_run (if win_seen w n then w else win_add w n) ns"

text \<open>The loop on the database is the loop on the abstract window.\<close>

lemma admit_refines:
  assumes "rel db w" "near_run w ns"
  shows "rel (fst (admit seen add db (map wire ns))) (fst (admit win_seen win_add w ns)) \<and>
    snd (admit seen add db (map wire ns)) = map wire (snd (admit win_seen win_add w ns))"
  using assms
proof (induction ns arbitrary: db w)
  case Nil
  then show ?case by simp
next
  case (Cons n ns)
  then have seen: "seen db (wire n) \<longleftrightarrow> win_seen w n"
    and add: "rel (add db (wire n)) (win_add w n)"
    by (simp_all add: seen_refines add_refines)
  show ?case
    using Cons.IH [OF Cons.prems(1)] Cons.IH [OF add] Cons.prems(2) by (auto simp: split_beta seen)
qed

end

end
