(* ===== verification/Srtp_Replay.thy ===== *)
theory Srtp_Replay
  imports Srtp_External Srtp_Replay_Spec
begin

text \<open>
  The replay databases of \<^verbatim>\<open>libsrtp/src/replay.rs\<close>. \<open>rtp_replay_db\<close> and \<open>rtcp_replay_db\<close> are the two
  structs; their operations carry the \<^verbatim>\<open>BigUint\<close> operations as the parameter \<open>B\<close>. The unsigned
  arithmetic of the code is word arithmetic; the lemmas on the invariants show that no
  subtraction or addition of the code wraps in a state the library can reach.
\<close>

section \<open>RTP: index estimation and replay window\<close>

definition MAX_SEQ_NUM_STEP :: u64 where "MAX_SEQ_NUM_STEP = 0x8000"

record 'b rtp_replay_db =
  r_index :: u64
  pending_roc :: "u32 option"
  r_window :: 'b
  r_mask :: 'b

definition rtp_replay_new :: "'b biguint \<Rightarrow> u16 \<Rightarrow> 'b rtp_replay_db" where
  "rtp_replay_new B window_size =
     \<lparr>r_index = 0, pending_roc = None, r_window = big_zero B,
      r_mask = big_sub B (big_shl B (big_one B) (unat window_size)) (big_one B)\<rparr>"

definition rtp_estimate_index :: "'b rtp_replay_db \<Rightarrow> u16 \<Rightarrow> u64" where
  "rtp_estimate_index db seq =
     (case pending_roc db of
        Some roc \<Rightarrow> push_bit 16 (ucast roc) OR ucast seq
      | None \<Rightarrow>
          let guess_index = (r_index db AND 0x0000FFFFFFFF0000) OR ucast seq in
          if MAX_SEQ_NUM_STEP < r_index db \<and> guess_index < r_index db - MAX_SEQ_NUM_STEP
          then guess_index + 0x10000
          else if r_index db + MAX_SEQ_NUM_STEP < guess_index \<and> 0x10000 \<le> r_index db
          then guess_index - 0x10000
          else guess_index)"

definition rtp_get_roc :: "'b rtp_replay_db \<Rightarrow> u32" where
  "rtp_get_roc db = ucast (drop_bit 16 (r_index db))"

definition rtp_set_roc :: "'b rtp_replay_db \<Rightarrow> u32 \<Rightarrow> 'b rtp_replay_db" where
  "rtp_set_roc db roc = db\<lparr>pending_roc := Some roc\<rparr>"

definition rtp_add_index :: "'b biguint \<Rightarrow> 'b rtp_replay_db \<Rightarrow> u64 \<Rightarrow> 'b rtp_replay_db" where
  "rtp_add_index B db index =
     (let db' =
        (if r_index db < index then
           let diff = index - r_index db;
               window =
                 (if unat diff < big_bits B (r_mask db)
                  then big_and B (big_shl B (r_window db) (unat diff)) (r_mask db)
                  else big_zero B)
           in db\<lparr>r_window := big_set_bit B window 0 True, r_index := index\<rparr>
         else
           let diff = r_index db - index in
           if unat diff < big_bits B (r_mask db)
           then db\<lparr>r_window := big_set_bit B (r_window db) (unat diff) True\<rparr>
           else db)
      in db'\<lparr>pending_roc := None\<rparr>)"

definition rtp_seen_index :: "'b biguint \<Rightarrow> 'b rtp_replay_db \<Rightarrow> u64 \<Rightarrow> bool" where
  "rtp_seen_index B db index =
     (if r_index db < index then False
      else if big_bits B (r_mask db) \<le> unat (r_index db - index) then True
      else big_bit B (r_window db) (unat (r_index db - index)))"

definition rtp_set_window_size :: "'b biguint \<Rightarrow> 'b rtp_replay_db \<Rightarrow> u16 \<Rightarrow> 'b rtp_replay_db" where
  "rtp_set_window_size B db window_size =
     db\<lparr>r_mask := big_sub B (big_shl B (big_one B) (unat window_size)) (big_one B)\<rparr>"

subsection \<open>Index estimation\<close>

lemma unat_shift16_or:
  assumes "unat (x :: u64) < 2 ^ 48"
  shows "unat (push_bit 16 x OR ucast (s :: u16)) = unat x * 2 ^ 16 + unat s"
proof -
  have disj: "push_bit 16 x OR ucast s = push_bit 16 x + (ucast s :: u64)"
    by (rule disjunctive_add [symmetric]) (auto simp: bit_simps dest: bit_imp_le_length)
  have "unat (push_bit 16 x) = unat x * 2 ^ 16"
    using assms by (simp add: unsigned_push_bit_eq push_bit_nat_def take_bit_nat_eq_self)
  then show ?thesis
    using assms unat_bounds(2) [of s] by (simp add: disj unat_plus_if')
qed

lemma guess_index_nat:
  fixes idx :: u64 and seq :: u16
  shows "unat ((idx AND 0x0000FFFFFFFF0000) OR ucast seq) = (unat idx div 2 ^ 16 mod 2 ^ 32) * 2 ^ 16 + unat seq"
proof -
  let ?roc = "take_bit 32 (drop_bit 16 idx)"
  have "(0x0000FFFFFFFF0000 :: u64) = push_bit 16 (mask 32)"
    by (simp add: mask_eq_exp_minus_1 push_bit_eq_mult)
  moreover have "idx AND push_bit 16 (mask 32) = push_bit 16 ?roc"
    by (auto intro!: bit_word_eqI simp: bit_simps)
  ultimately have eq: "idx AND 0x0000FFFFFFFF0000 = push_bit 16 ?roc"
    by (simp only:)
  have "take_bit 64 (unat idx) = unat idx"
    using unat_bounds(4) [of idx] by (simp add: take_bit_nat_eq_self)
  moreover have "unat ?roc = take_bit 32 (drop_bit 16 (take_bit 64 (unat idx)))"
    by (simp add: unsigned_take_bit_eq unsigned_drop_bit_eq)
  ultimately have roc: "unat ?roc = unat idx div 2 ^ 16 mod 2 ^ 32"
    by (simp only: drop_bit_eq_div take_bit_eq_mod)
  then have "unat ?roc < 2 ^ 48"
    by (simp add: less_trans [OF mod_less_divisor])
  then show ?thesis
    using unat_shift16_or [of ?roc seq] by (simp only: eq roc)
qed

lemma pending_index_nat:
  "unat (push_bit 16 (ucast (roc :: u32)) OR ucast (seq :: u16) :: u64) = unat roc * 2 ^ 16 + unat seq"
  using unat_shift16_or [of "ucast roc" seq] unat_bounds(3) [of roc] by simp

text \<open>The estimation over natural numbers, for indices on 48 bits.\<close>

definition estimate_nat :: "nat \<Rightarrow> nat \<Rightarrow> nat" where
  "estimate_nat i s =
     (let g = i div 65536 * 65536 + s in
      if 32768 < i \<and> g < i - 32768 then g + 65536
      else if i + 32768 < g \<and> 65536 \<le> i then g - 65536
      else g)"

lemma unat_estimate_index:
  assumes "pending_roc db = None" and i: "unat (r_index db) < 2 ^ 48"
  shows "unat (rtp_estimate_index db seq) = estimate_nat (unat (r_index db)) (unat seq)"
proof -
  let ?g = "(r_index db AND 0x0000FFFFFFFF0000) OR ucast seq"
  have div: "unat (r_index db) div 65536 < 4294967296"
    using i by (simp add: less_mult_imp_div_less)
  then have g: "unat ?g = unat (r_index db) div 65536 * 65536 + unat seq"
    using guess_index_nat [of "r_index db" seq] by simp
  have gb: "unat ?g < 281474976710656"
    using div unat_bounds(2) [of seq] unfolding g by linarith
  have plus: "unat (?g + 0x10000) = unat ?g + 65536" "unat (r_index db + 0x8000) = unat (r_index db) + 32768"
    using gb i by (simp_all add: unat_plus_if')
  have minus: "32768 < unat (r_index db) \<Longrightarrow> unat (r_index db - 0x8000) = unat (r_index db) - 32768"
    "65536 \<le> unat ?g \<Longrightarrow> unat (?g - 0x10000) = unat ?g - 65536"
    by (simp_all add: unat_sub word_le_nat_alt)
  show ?thesis
    unfolding estimate_nat_def g [symmetric] using plus minus i
    by (cases "32768 < unat (r_index db)")
      (auto simp: rtp_estimate_index_def assms(1) MAX_SEQ_NUM_STEP_def Let_def
        word_less_nat_alt word_le_nat_alt)
qed

lemma estimate_nat_exact:
  assumes "t < i + 32768" and "i < t + 32768"
  shows "estimate_nat i (t mod 65536) = t"
proof -
  define q r where "q = i div 65536" and "r = i mod 65536"
  define q' s where "q' = t div 65536" and "s = t mod 65536"
  have i: "i = q * 65536 + r" "r < 65536" and t: "t = q' * 65536 + s" "s < 65536"
    by (simp_all add: q_def r_def q'_def s_def)
  have "q' \<le> q + 1" "q \<le> q' + 1"
    using assms i t by linarith+
  then have "q' = q \<or> q' = q + 1 \<or> q = q' + 1"
    by linarith
  then show ?thesis
    using assms i t unfolding estimate_nat_def Let_def q_def [symmetric] s_def [symmetric]
    by (elim disjE) auto
qed


lemma estimate_nat_bounds: "i < 2 ^ 48 \<Longrightarrow> s < 65536 \<Longrightarrow> estimate_nat i s < 2 ^ 48 + 65536"
proof -
  assume "i < 2 ^ 48" "s < 65536"
  moreover then have "i div 65536 < 4294967296"
    by (simp add: less_mult_imp_div_less)
  ultimately have "i div 65536 * 65536 + s < 281474976710656"
    by linarith
  then show ?thesis
    unfolding estimate_nat_def Let_def by auto
qed

lemma estimate_nat_mod: "s < 65536 \<Longrightarrow> estimate_nat i s mod 65536 = s"
proof -
  assume s: "s < 65536"
  define q where "q = i div 65536"
  have "(q * 65536 + s) mod 65536 = s" "(q * 65536 + s + 65536) mod 65536 = s"
    using s by simp_all
  moreover have "65536 < q * 65536 + s \<Longrightarrow> (q * 65536 + s - 65536) mod 65536 = s"
    using s by (simp add: le_mod_geq [symmetric])
  ultimately show ?thesis
    unfolding estimate_nat_def Let_def q_def [symmetric] by auto
qed

text \<open>
  The index of a database stays below \<open>2^48 + 2^16\<close>, so that none of the additions and subtractions
  of the code wraps.
\<close>

definition index_in_range :: "nat \<Rightarrow> bool" where
  "index_in_range n \<longleftrightarrow> n < 2 ^ 48 + 65536"

lemma estimate_index_in_range:
  assumes "index_in_range (unat (r_index db))"
  shows "index_in_range (unat (rtp_estimate_index db seq))"
proof (cases "pending_roc db")
  case (Some roc)
  have "unat roc * 65536 + unat seq < 281474976710656"
    using unat_bounds(2) [of seq] unat_bounds(3) [of roc] by linarith
  with Some show ?thesis
    by (simp add: rtp_estimate_index_def pending_index_nat index_in_range_def)
next
  case None
  let ?g = "(r_index db AND 0x0000FFFFFFFF0000) OR ucast seq"
  have "unat (r_index db) div 65536 mod 4294967296 < 4294967296"
    by simp
  then have "(unat (r_index db) div 65536 mod 4294967296) * 65536 + unat seq < 281474976710656"
    using unat_bounds(2) [of seq] by linarith
  then have g: "unat ?g < 281474976710656"
    using guess_index_nat [of "r_index db" seq] by simp
  then have up: "unat (?g + 0x10000) = unat ?g + 65536"
    by (simp add: unat_plus_if')
  have down: "unat (?g - 0x10000) \<le> unat ?g" if "r_index db + 0x8000 < ?g" "0x10000 \<le> r_index db"
  proof -
    have "unat (r_index db + 0x8000) = unat (r_index db) + 32768"
      using assms by (simp add: index_in_range_def unat_plus_if')
    then have "0x10000 \<le> ?g"
      using that by (simp add: word_less_nat_alt word_le_nat_alt)
    then show ?thesis by (simp add: unat_sub)
  qed
  show ?thesis
    using g up down None
    by (auto simp: rtp_estimate_index_def MAX_SEQ_NUM_STEP_def Let_def index_in_range_def)
qed

lemma add_index_in_range:
  "index_in_range (unat (r_index db)) \<Longrightarrow> index_in_range (unat i) \<Longrightarrow>
   index_in_range (unat (r_index (rtp_add_index B db i)))"
  by (simp add: rtp_add_index_def Let_def)

section \<open>The RTP window refines the specification\<close>

definition rtp_rel :: "'b biguint \<Rightarrow> 'b rtp_replay_db \<Rightarrow> window_spec \<Rightarrow> bool" where
  "rtp_rel B db w \<longleftrightarrow> biguint_laws B \<and> win_ok w \<and>
     unat (r_index db) = w_top w \<and> r_mask db = big_mask B (w_size w) \<and>
     (\<forall>d < w_size w. d \<le> w_top w \<longrightarrow> (big_bit B (r_window db) d \<longleftrightarrow> w_top w - d \<in> w_hits w))"

lemma rtp_rel_new:
  "biguint_laws B \<Longrightarrow> rtp_rel B (rtp_replay_new B n) (win_empty (unat n))"
  by (simp add: rtp_rel_def rtp_replay_new_def win_ok_empty big_mask_def big_simps)

lemma rtp_seen_refines:
  assumes "rtp_rel B db w" and "n < 2 ^ 64"
  shows "rtp_seen_index B db (word_of_nat n) \<longleftrightarrow> win_seen w n"
proof -
  have n: "unat (word_of_nat n :: u64) = n"
    using assms(2) by (simp add: unat_of_nat)
  from assms have B: "biguint_laws B" and top: "unat (r_index db) = w_top w"
    and mask: "r_mask db = big_mask B (w_size w)"
    and bits: "\<And>d. d < w_size w \<Longrightarrow> d \<le> w_top w \<Longrightarrow>
      (big_bit B (r_window db) d \<longleftrightarrow> w_top w - d \<in> w_hits w)"
    by (auto simp: rtp_rel_def)
  show ?thesis
  proof (cases "w_top w < n")
    case True
    then show ?thesis by (simp add: rtp_seen_index_def win_seen_def word_less_nat_alt n top)
  next
    case False
    then have "unat (r_index db - word_of_nat n) = w_top w - n" "\<not> r_index db < word_of_nat n"
      by (simp_all add: unat_sub word_le_nat_alt word_less_nat_alt n top)
    with False bits [of "w_top w - n"] show ?thesis
      by (auto simp: rtp_seen_index_def win_seen_def mask big_simps [OF B])
  qed
qed

text \<open>
  The two updates of a bitmap, shared by both databases: advancing the window to a newer index,
  and recording an index behind the newest one.
\<close>

lemma window_advance:
  assumes B: "biguint_laws B" and ok: "win_ok w"
    and bits: "\<And>d. d < w_size w \<Longrightarrow> d \<le> w_top w \<Longrightarrow>
      (big_bit B x d \<longleftrightarrow> w_top w - d \<in> w_hits w)"
    and n: "w_top w < n" and d: "d < w_size w" "d \<le> n" and mask: "m = big_mask B (w_size w)"
  shows "big_bit B (big_set_bit B (if n - w_top w < w_size w
      then big_and B (big_shl B x (n - w_top w)) m else big_zero B) 0 True) d
    \<longleftrightarrow> n - d \<in> insert n (w_hits w)"
proof (cases "d = 0")
  case True
  then show ?thesis by (simp add: big_simps [OF B])
next
  case False
  show ?thesis
  proof (cases "n - w_top w \<le> d")
    case True
    then have "n - d = w_top w - (d - (n - w_top w))" "d - (n - w_top w) < w_size w"
      "d - (n - w_top w) \<le> w_top w" "n - w_top w < w_size w" "n - d \<noteq> n"
      using n d False by auto
    then show ?thesis
      using False True d bits [of "d - (n - w_top w)"] n by (simp add: big_simps [OF B] mask)
  next
    case False
    then have "n - d \<notin> w_hits w"
      using ok by (auto simp: win_ok_def)
    then show ?thesis
      using \<open>d \<noteq> 0\<close> False d n by (simp add: big_simps [OF B])
  qed
qed

lemma window_record:
  assumes B: "biguint_laws B"
    and bits: "\<And>d. d < w_size w \<Longrightarrow> d \<le> w_top w \<Longrightarrow>
      (big_bit B x d \<longleftrightarrow> w_top w - d \<in> w_hits w)"
    and n: "\<not> w_top w < n" and d: "d < w_size w" "d \<le> w_top w"
  shows "big_bit B (if w_top w - n < w_size w then big_set_bit B x (w_top w - n) True else x) d
    \<longleftrightarrow> w_top w - d \<in> insert n (w_hits w)"
proof -
  have "w_top w - d = n \<longleftrightarrow> d = w_top w - n"
    using n d by auto
  then show ?thesis
    using bits [OF d] d by (auto simp: big_simps [OF B])
qed

lemma rtp_add_refines:
  assumes rel: "rtp_rel B db w" and "n < 2 ^ 64"
  shows "rtp_rel B (rtp_add_index B db (word_of_nat n)) (win_add w n)"
proof -
  have n: "unat (word_of_nat n :: u64) = n"
    using assms(2) by (simp add: unat_of_nat)
  from rel have B: "biguint_laws B" and ok: "win_ok w" and top: "unat (r_index db) = w_top w"
    and mask: "r_mask db = big_mask B (w_size w)"
    and bits: "\<And>d. d < w_size w \<Longrightarrow> d \<le> w_top w \<Longrightarrow>
      (big_bit B (r_window db) d \<longleftrightarrow> w_top w - d \<in> w_hits w)"
    by (auto simp: rtp_rel_def)
  show ?thesis
  proof (cases "w_top w < n")
    case True
    let ?win = "if n - w_top w < w_size w
      then big_and B (big_shl B (r_window db) (n - w_top w)) (r_mask db) else big_zero B"
    have lt: "r_index db < word_of_nat n"
      using True by (simp add: word_less_nat_alt n top)
    then have diff: "unat (word_of_nat n - r_index db) = n - w_top w"
      by (simp only: unat_sub [OF less_imp_le] n top)
    have db': "rtp_add_index B db (word_of_nat n) =
        db\<lparr>r_window := big_set_bit B ?win 0 True, r_index := word_of_nat n, pending_roc := None\<rparr>"
      using lt by (simp add: rtp_add_index_def Let_def diff mask big_simps [OF B])
    have "big_bit B (big_set_bit B ?win 0 True) d \<longleftrightarrow> n - d \<in> insert n (w_hits w)"
      if "d < w_size w" "d \<le> n" for d
      using window_advance [OF B ok bits True that mask] .
    then show ?thesis
      using True ok by (simp add: rtp_rel_def db' B win_ok_add mask n)
  next
    case False
    have ge: "\<not> r_index db < word_of_nat n"
      using False by (simp add: word_less_nat_alt n top)
    then have diff: "unat (r_index db - word_of_nat n) = w_top w - n"
      using unat_sub [of "word_of_nat n" "r_index db"] by (simp add: n top not_less)
    have db': "rtp_add_index B db (word_of_nat n) =
        db\<lparr>r_window := if w_top w - n < w_size w
          then big_set_bit B (r_window db) (w_top w - n) True else r_window db, pending_roc := None\<rparr>"
      using ge by (simp add: rtp_add_index_def Let_def diff mask big_simps(3) [OF B])
    have "big_bit B (if w_top w - n < w_size w
        then big_set_bit B (r_window db) (w_top w - n) True else r_window db) d
        \<longleftrightarrow> w_top w - d \<in> insert n (w_hits w)"
      if "d < w_size w" "d \<le> w_top w" for d
      using window_record [OF B bits False that] .
    then show ?thesis
      using False ok by (simp add: rtp_rel_def db' B win_ok_add mask top max_def)
  qed
qed

text \<open>Every index that fits the word is told apart.\<close>

definition rtp_near :: "window_spec \<Rightarrow> nat \<Rightarrow> bool" where
  "rtp_near w n \<longleftrightarrow> n < 2 ^ 64"

interpretation rtp_window: replay_window
    "rtp_seen_index B" "rtp_add_index B" word_of_nat "rtp_rel B" rtp_near for B
  by unfold_locales (simp_all add: rtp_seen_refines rtp_add_refines rtp_near_def, simp add: rtp_rel_def)

lemma rtp_near_run: "\<forall>n \<in> set ns. n < 2 ^ 64 \<Longrightarrow> rtp_window.near_run w ns"
  by (induction ns arbitrary: w) (simp_all add: rtp_window.near_run.simps rtp_near_def)

section \<open>RTCP: a window on circular indices\<close>

definition RTCP_ROLLBACK :: u64 where "RTCP_ROLLBACK = 0x80000000"
definition MAX_RTCP_STEP :: u64 where "MAX_RTCP_STEP = 0x40000000"

record 'b rtcp_replay_db =
  rc_index :: u32
  rc_window :: 'b
  rc_mask :: 'b

definition rtcp_replay_new :: "'b biguint \<Rightarrow> u16 \<Rightarrow> 'b rtcp_replay_db" where
  "rtcp_replay_new B window_size =
     \<lparr>rc_index = 0, rc_window = big_zero B,
      rc_mask = big_sub B (big_shl B (big_one B) (unat window_size)) (big_one B)\<rparr>"

definition rtcp_add_index :: "'b biguint \<Rightarrow> 'b rtcp_replay_db \<Rightarrow> u32 \<Rightarrow> 'b rtcp_replay_db" where
  "rtcp_add_index B db index =
     (if rc_index db < index then
        let diff = ucast (index - rc_index db) :: u64 in
        if MAX_RTCP_STEP \<le> diff then
          (if unat (RTCP_ROLLBACK - diff) < big_bits B (rc_mask db)
           then db\<lparr>rc_window := big_set_bit B (rc_window db) (unat (RTCP_ROLLBACK - diff)) True\<rparr>
           else db)
        else
          let window =
            (if unat diff < big_bits B (rc_mask db)
             then big_and B (big_shl B (rc_window db) (unat diff)) (rc_mask db)
             else big_zero B)
          in db\<lparr>rc_window := big_set_bit B window 0 True, rc_index := index\<rparr>
      else
        let diff = ucast (rc_index db - index) :: u64;
            db =
              (if unat diff < big_bits B (rc_mask db)
               then db\<lparr>rc_window := big_set_bit B (rc_window db) (unat diff) True\<rparr>
               else db)
        in
        if MAX_RTCP_STEP \<le> diff then
          let window =
            (if unat (RTCP_ROLLBACK - diff) < big_bits B (rc_mask db)
             then big_and B (big_shl B (rc_window db) (unat (RTCP_ROLLBACK - diff))) (rc_mask db)
             else big_zero B)
          in db\<lparr>rc_window := big_set_bit B window 0 True, rc_index := index\<rparr>
        else db)"

definition rtcp_seen_index :: "'b biguint \<Rightarrow> 'b rtcp_replay_db \<Rightarrow> u32 \<Rightarrow> bool" where
  "rtcp_seen_index B db index =
     (if rc_index db < index then
        let diff = ucast (index - rc_index db) :: u64 in
        if MAX_RTCP_STEP < diff then
          (if big_bits B (rc_mask db) \<le> unat (RTCP_ROLLBACK - diff) then True
           else big_bit B (rc_window db) (unat (RTCP_ROLLBACK - diff)))
        else False
      else
        let diff = ucast (rc_index db - index) :: u64 in
        if big_bits B (rc_mask db) \<le> unat diff then
          (if MAX_RTCP_STEP \<le> diff then False else True)
        else big_bit B (rc_window db) (unat diff))"

definition rtcp_set_window_size :: "'b biguint \<Rightarrow> 'b rtcp_replay_db \<Rightarrow> u16 \<Rightarrow> 'b rtcp_replay_db" where
  "rtcp_set_window_size B db window_size =
     db\<lparr>rc_mask := big_sub B (big_shl B (big_one B) (unat window_size)) (big_one B)\<rparr>"

subsection \<open>The RTCP window refines the specification\<close>

text \<open>
  The wire carries an index modulo \<open>2^31\<close>. The database stands for a window over the indices a
  sender really counted, as long as the index at hand is less than \<open>2^30\<close> away from the newest one.
\<close>

definition rtcp_wire :: "nat \<Rightarrow> u32" where
  "rtcp_wire n = word_of_nat (n mod 2 ^ 31)"

definition rtcp_near :: "window_spec \<Rightarrow> nat \<Rightarrow> bool" where
  "rtcp_near w n \<longleftrightarrow> n < w_top w + 2 ^ 30 \<and> w_top w < n + 2 ^ 30"

definition rtcp_rel :: "'b biguint \<Rightarrow> 'b rtcp_replay_db \<Rightarrow> window_spec \<Rightarrow> bool" where
  "rtcp_rel B db w \<longleftrightarrow> biguint_laws B \<and> win_ok w \<and> w_size w < 2 ^ 16 \<and>
     rc_index db = rtcp_wire (w_top w) \<and> rc_mask db = big_mask B (w_size w) \<and>
     (\<forall>d < w_size w. d \<le> w_top w \<longrightarrow> (big_bit B (rc_window db) d \<longleftrightarrow> w_top w - d \<in> w_hits w))"

lemma unat_rtcp_wire: "unat (rtcp_wire n) = n mod 2147483648"
proof -
  have "n mod 2147483648 < 4294967296"
    by (rule less_trans [OF mod_less_divisor]) simp_all
  then show ?thesis by (simp add: rtcp_wire_def unat_of_nat)
qed

lemma rtcp_wire_bound: "unat (rtcp_wire n) < 2147483648"
  by (simp add: unat_rtcp_wire)

text \<open>
  An index \<open>d\<close> ahead of another is either numerically larger by \<open>d\<close>, or, past the rollback,
  smaller by \<open>2^31 - d\<close>.
\<close>

lemma wire_ahead:
  assumes "d < 2147483648"
  shows "unat (rtcp_wire m) + d = unat (rtcp_wire (m + d)) \<or>
    unat (rtcp_wire m) + d = unat (rtcp_wire (m + d)) + 2147483648 \<and> unat (rtcp_wire (m + d)) < unat (rtcp_wire m)"
proof -
  define t where "t = m mod 2147483648"
  have "(m + d) mod 2147483648 = (t + d) mod 2147483648"
    by (simp add: t_def mod_add_left_eq)
  moreover have "t < 2147483648"
    by (simp add: t_def)
  ultimately show ?thesis
    using assms by (auto simp: unat_rtcp_wire t_def [symmetric] mod_if [of "t + d"])
qed

lemma unat_rollback_sub:
  assumes "unat (diff :: u64) \<le> 2147483648"
  shows "unat (RTCP_ROLLBACK - diff) = 2147483648 - unat diff"
  using assms by (simp add: RTCP_ROLLBACK_def unat_sub word_le_nat_alt)

lemma step_words:
  "MAX_RTCP_STEP \<le> diff \<longleftrightarrow> 1073741824 \<le> unat diff"
  "MAX_RTCP_STEP < diff \<longleftrightarrow> 1073741824 < unat diff"
  by (simp_all add: MAX_RTCP_STEP_def word_le_nat_alt word_less_nat_alt)

lemma rtcp_rel_new:
  "biguint_laws B \<Longrightarrow> rtcp_rel B (rtcp_replay_new B n) (win_empty (unat n))"
  using unat_bounds(2) [of n]
  by (simp add: rtcp_rel_def rtcp_replay_new_def win_ok_empty big_mask_def big_simps rtcp_wire_def)

text \<open>
  The operations, in terms of how the index lies relative to the newest one: ahead of it by less
  than \<open>2^30\<close>, or behind it by less than \<open>2^30\<close>, counted on the circle.
\<close>

lemma rtcp_ahead:
  assumes B: "biguint_laws B" and mask: "rc_mask db = big_mask B sz" and sz: "sz < 65536"
    and idx: "rc_index db = rtcp_wire t" and d: "0 < d" "d < 1073741824"
  shows "\<not> rtcp_seen_index B db (rtcp_wire (t + d))"
    and "rtcp_add_index B db (rtcp_wire (t + d)) =
      db\<lparr>rc_window := big_set_bit B
           (if d < sz then big_and B (big_shl B (rc_window db) d) (rc_mask db) else big_zero B) 0 True,
         rc_index := rtcp_wire (t + d)\<rparr>"
proof -
  let ?a = "rtcp_wire t" and ?b = "rtcp_wire (t + d)"
  have d': "d < 2147483648" using d by simp
  show "\<not> rtcp_seen_index B db ?b" and "rtcp_add_index B db ?b =
      db\<lparr>rc_window := big_set_bit B
           (if d < sz then big_and B (big_shl B (rc_window db) d) (rc_mask db) else big_zero B) 0 True,
         rc_index := ?b\<rparr>"
    using wire_ahead [OF d', of t]
  proof (atomize(full), elim disjE conjE)
    assume "unat ?a + d = unat ?b"
    then have lt: "?a < ?b"
      using d by (simp add: word_less_nat_alt)
    then have diff: "unat (?b - ?a) = d"
      using \<open>unat ?a + d = unat ?b\<close> by (simp add: unat_sub less_imp_le)
    show "\<not> rtcp_seen_index B db ?b \<and> rtcp_add_index B db ?b =
      db\<lparr>rc_window := big_set_bit B
           (if d < sz then big_and B (big_shl B (rc_window db) d) (rc_mask db) else big_zero B) 0 True,
         rc_index := ?b\<rparr>"
      using lt d by (simp add: rtcp_seen_index_def rtcp_add_index_def Let_def idx mask diff step_words
          big_simps(3) [OF B])
  next
    assume eq: "unat ?a + d = unat ?b + 2147483648" and "unat ?b < unat ?a"
    then have lt: "?b < ?a" by (simp add: word_less_nat_alt)
    then have diff: "unat (?a - ?b) = 2147483648 - d"
      using eq d by (simp add: unat_sub less_imp_le)
    then have rest: "unat (RTCP_ROLLBACK - ucast (?a - ?b)) = d"
      using d by (simp add: unat_rollback_sub)
    have far: "1073741824 \<le> 2147483648 - d" "sz \<le> 2147483648 - d" "\<not> 2147483648 - d < sz"
      using d sz by simp_all
    have nlt: "\<not> ?a < ?b" using lt by simp
    show "\<not> rtcp_seen_index B db ?b \<and> rtcp_add_index B db ?b =
      db\<lparr>rc_window := big_set_bit B
           (if d < sz then big_and B (big_shl B (rc_window db) d) (rc_mask db) else big_zero B) 0 True,
         rc_index := ?b\<rparr>"
      using nlt by (simp add: rtcp_seen_index_def rtcp_add_index_def Let_def idx mask diff step_words
          rest far big_simps(3) [OF B])
  qed
qed

lemma rtcp_behind:
  assumes B: "biguint_laws B" and mask: "rc_mask db = big_mask B sz" and sz: "sz < 65536"
    and idx: "rc_index db = rtcp_wire (n + d)" and d: "d < 1073741824"
  shows "rtcp_seen_index B db (rtcp_wire n) \<longleftrightarrow> sz \<le> d \<or> big_bit B (rc_window db) d"
    and "rtcp_add_index B db (rtcp_wire n) =
      (if d < sz then db\<lparr>rc_window := big_set_bit B (rc_window db) d True\<rparr> else db)"
proof -
  let ?a = "rtcp_wire (n + d)" and ?b = "rtcp_wire n"
  have d': "d < 2147483648" using d by simp
  show "rtcp_seen_index B db ?b \<longleftrightarrow> sz \<le> d \<or> big_bit B (rc_window db) d"
    and "rtcp_add_index B db ?b =
      (if d < sz then db\<lparr>rc_window := big_set_bit B (rc_window db) d True\<rparr> else db)"
    using wire_ahead [OF d', of n]
  proof (atomize(full), elim disjE conjE)
    assume eq: "unat ?b + d = unat ?a"
    then have nlt: "\<not> ?a < ?b"
      by (simp add: word_less_nat_alt)
    then have diff: "unat (?a - ?b) = d"
      using eq by (simp add: unat_sub not_less)
    show "(rtcp_seen_index B db ?b \<longleftrightarrow> sz \<le> d \<or> big_bit B (rc_window db) d) \<and> rtcp_add_index B db ?b =
        (if d < sz then db\<lparr>rc_window := big_set_bit B (rc_window db) d True\<rparr> else db)"
      using nlt d by (simp add: rtcp_seen_index_def rtcp_add_index_def Let_def idx mask diff step_words
          big_simps(3) [OF B])
  next
    assume eq: "unat ?b + d = unat ?a + 2147483648" and "unat ?a < unat ?b"
    then have lt: "?a < ?b" by (simp add: word_less_nat_alt)
    then have diff: "unat (?b - ?a) = 2147483648 - d"
      using eq d by (simp add: unat_sub less_imp_le)
    then have rest: "unat (RTCP_ROLLBACK - ucast (?b - ?a)) = d"
      using d by (simp add: unat_rollback_sub)
    have far: "1073741824 < 2147483648 - d" "1073741824 \<le> 2147483648 - d"
      using d by simp_all
    show "(rtcp_seen_index B db ?b \<longleftrightarrow> sz \<le> d \<or> big_bit B (rc_window db) d) \<and> rtcp_add_index B db ?b =
        (if d < sz then db\<lparr>rc_window := big_set_bit B (rc_window db) d True\<rparr> else db)"
      using lt by (simp add: rtcp_seen_index_def rtcp_add_index_def Let_def idx mask diff step_words
          rest far big_simps(3) [OF B])
  qed
qed

lemma rtcp_refines:
  assumes rel: "rtcp_rel B db w" and near: "rtcp_near w n"
  shows rtcp_seen_refines: "rtcp_seen_index B db (rtcp_wire n) \<longleftrightarrow> win_seen w n"
    and rtcp_add_refines: "rtcp_rel B (rtcp_add_index B db (rtcp_wire n)) (win_add w n)"
proof -
  from rel have B: "biguint_laws B" and ok: "win_ok w" and sz: "w_size w < 65536"
    and idx: "rc_index db = rtcp_wire (w_top w)" and mask: "rc_mask db = big_mask B (w_size w)"
    and bits: "\<And>d. d < w_size w \<Longrightarrow> d \<le> w_top w \<Longrightarrow>
      (big_bit B (rc_window db) d \<longleftrightarrow> w_top w - d \<in> w_hits w)"
    by (auto simp: rtcp_rel_def)
  show "rtcp_seen_index B db (rtcp_wire n) \<longleftrightarrow> win_seen w n"
    and "rtcp_rel B (rtcp_add_index B db (rtcp_wire n)) (win_add w n)"
  proof (atomize(full), cases "w_top w < n")
    case True
    define d where "d = n - w_top w"
    with True near have n: "n = w_top w + d" and d: "0 < d" "d < 1073741824"
      by (simp_all add: rtcp_near_def)
    note ahead = rtcp_ahead [OF B mask sz idx d, folded n]
    have "big_bit B (rc_window (rtcp_add_index B db (rtcp_wire n))) e \<longleftrightarrow> n - e \<in> insert n (w_hits w)"
      if "e < w_size w" "e \<le> n" for e
    proof -
      have "rc_window (rtcp_add_index B db (rtcp_wire n)) = big_set_bit B
          (if d < w_size w then big_and B (big_shl B (rc_window db) d) (rc_mask db) else big_zero B) 0 True"
        by (simp add: ahead(2))
      then show ?thesis
        using window_advance [OF B ok bits True that mask] by (simp only: d_def)
    qed
    with True ahead ok show "(rtcp_seen_index B db (rtcp_wire n) \<longleftrightarrow> win_seen w n) \<and>
        rtcp_rel B (rtcp_add_index B db (rtcp_wire n)) (win_add w n)"
      by (simp add: win_seen_def rtcp_rel_def B win_ok_add mask sz)
  next
    case False
    define d where "d = w_top w - n"
    with False near have t: "w_top w = n + d" and d: "d < 1073741824"
      by (simp_all add: rtcp_near_def)
    note behind = rtcp_behind [OF B mask sz idx [unfolded t] d]
    have "big_bit B (rc_window (rtcp_add_index B db (rtcp_wire n))) e \<longleftrightarrow> w_top w - e \<in> insert n (w_hits w)"
      if "e < w_size w" "e \<le> w_top w" for e
    proof -
      have "rc_window (rtcp_add_index B db (rtcp_wire n)) =
          (if d < w_size w then big_set_bit B (rc_window db) d True else rc_window db)"
        by (simp add: behind(2))
      then show ?thesis
        using window_record [OF B bits False that] by (simp only: d_def)
    qed
    moreover have "rc_index (rtcp_add_index B db (rtcp_wire n)) = rc_index db"
      "rc_mask (rtcp_add_index B db (rtcp_wire n)) = rc_mask db"
      by (simp_all add: behind(2))
    ultimately have "rtcp_rel B (rtcp_add_index B db (rtcp_wire n)) (win_add w n)"
      using False ok by (simp add: rtcp_rel_def B win_ok_add mask sz idx max_def)
    moreover have "rtcp_seen_index B db (rtcp_wire n) \<longleftrightarrow> win_seen w n"
      using bits [of d] t by (cases "d < w_size w") (simp_all add: win_seen_def behind(1) not_less)
    ultimately show "(rtcp_seen_index B db (rtcp_wire n) \<longleftrightarrow> win_seen w n) \<and>
        rtcp_rel B (rtcp_add_index B db (rtcp_wire n)) (win_add w n)"
      by blast
  qed
qed

interpretation rtcp_window: replay_window
    "rtcp_seen_index B" "rtcp_add_index B" rtcp_wire "rtcp_rel B" rtcp_near for B
  by unfold_locales (simp_all add: rtcp_seen_refines rtcp_add_refines, simp add: rtcp_rel_def)

section \<open>Databases without a history\<close>

text \<open>Whatever its bits, a database with a proper mask stands for some window.\<close>

lemma rtp_rel_exists:
  assumes "biguint_laws B" "r_mask db = big_mask B n"
  shows "\<exists>w. rtp_rel B db w"
proof
  let ?top = "unat (r_index db)"
  show "rtp_rel B db \<lparr>w_top = ?top, w_hits = {?top - d | d. d < n \<and> d \<le> ?top \<and> big_bit B (r_window db) d}, w_size = n\<rparr>"
    using assms by (auto simp: rtp_rel_def win_ok_def) (metis diff_diff_cancel)
qed

text \<open>The estimated index carries the sequence number.\<close>

lemma estimate_index_seq: "unat (rtp_estimate_index db seq) mod 65536 = unat seq"
proof -
  let ?g = "(r_index db AND 0x0000FFFFFFFF0000) OR ucast seq"
  have g: "unat ?g mod 65536 = unat seq"
    unfolding guess_index_nat using unat_bounds(2) [of seq] by simp
  have "(- 0x10000 :: u64) = 0xFFFFFFFFFFFF0000" by simp
  then have minus: "x - 0x10000 = x + 0xFFFFFFFFFFFF0000" for x :: u64
    by (simp only: diff_conv_add_uminus)
  have up: "unat (x + 0x10000) = (unat x + 65536) mod 18446744073709551616" for x :: u64
    by (simp add: unat_word_ariths(1))
  have down: "unat (x - 0x10000) = (unat x + 18446744073709486080) mod 18446744073709551616" for x :: u64
    unfolding minus by (simp add: unat_word_ariths(1))
  have low: "(x + 65536) mod 18446744073709551616 mod 65536 = x mod 65536"
    "(x + 18446744073709486080) mod 18446744073709551616 mod 65536 = x mod 65536" for x :: nat
  proof -
    have dvd: "(65536 :: nat) dvd 18446744073709551616" by simp
    show "(x + 65536) mod 18446744073709551616 mod 65536 = x mod 65536"
      by (simp add: mod_mod_cancel [OF dvd])
    have "(x + 65536 * 281474976710655) mod 65536 = x mod 65536"
      by (rule mod_mult_self2)
    then show "(x + 18446744073709486080) mod 18446744073709551616 mod 65536 = x mod 65536"
      by (simp add: mod_mod_cancel [OF dvd])
  qed
  have "unat (?g + 0x10000) mod 65536 = unat seq" "unat (?g - 0x10000) mod 65536 = unat seq"
    unfolding up down low by (rule g)+
  then show ?thesis
    using g unat_bounds(2) [of seq]
    by (auto simp: rtp_estimate_index_def Let_def pending_index_nat split: option.split)
qed

text \<open>The index of a packet is recovered when it is less than \<open>2^15\<close> away from the newest one.\<close>

lemma estimate_index_exact:
  assumes "pending_roc db = None" "unat (r_index db) < 2 ^ 48"
    and "t < unat (r_index db) + 32768" "unat (r_index db) < t + 32768" and seq: "unat seq = t mod 65536"
  shows "unat (rtp_estimate_index db seq) = t"
  using unat_estimate_index [OF assms(1,2), of seq] estimate_nat_exact [OF assms(3,4)] seq by simp

section \<open>Window sizes that change\<close>

text \<open>Shrinking the window keeps the relation to the history.\<close>

lemma rtp_shrink_rel:
  "rtp_rel B db w \<Longrightarrow> unat s \<le> w_size w \<Longrightarrow>
   rtp_rel B (rtp_set_window_size B db s) (w\<lparr>w_size := unat s\<rparr>)"
  by (auto simp: rtp_rel_def rtp_set_window_size_def big_mask_def win_ok_def)

lemma rtcp_shrink_rel:
  "rtcp_rel B db w \<Longrightarrow> unat s \<le> w_size w \<Longrightarrow>
   rtcp_rel B (rtcp_set_window_size B db s) (w\<lparr>w_size := unat s\<rparr>)"
  by (auto simp: rtcp_rel_def rtcp_set_window_size_def big_mask_def win_ok_def)

text \<open>
  Growing it does not: the bits that recorded the indices behind the small window are gone, so every index
  behind it is new again, those that came before among them.
\<close>

definition window_clear :: "'b biguint \<Rightarrow> nat \<Rightarrow> 'b rtp_replay_db \<Rightarrow> bool" where
  "window_clear B n db \<longleftrightarrow> r_mask db = big_mask B n \<and> (\<forall>d. n \<le> d \<longrightarrow> \<not> big_bit B (r_window db) d)"

lemma window_clear_new: "biguint_laws B \<Longrightarrow> window_clear B (unat sz) (rtp_replay_new B sz)"
  by (simp add: window_clear_def rtp_replay_new_def big_simps flip: big_mask_def)

lemma window_clear_add:
  "biguint_laws B \<Longrightarrow> 0 < n \<Longrightarrow> window_clear B n db \<Longrightarrow> window_clear B n (rtp_add_index B db i)"
  by (auto simp: window_clear_def rtp_add_index_def Let_def big_simps)

lemma window_clear_admit:
  "biguint_laws B \<Longrightarrow> 0 < n \<Longrightarrow> window_clear B n db \<Longrightarrow>
   window_clear B n (fst (admit (rtp_seen_index B) (rtp_add_index B) db is))"
  by (induction "is" arbitrary: db) (simp_all add: split_beta Let_def window_clear_add)

lemma rtp_grow_forgets:
  assumes B: "biguint_laws B" and clear: "window_clear B n db"
    and i: "i \<le> r_index db" "n \<le> unat (r_index db - i)" "unat (r_index db - i) < unat sz"
  shows "rtp_seen_index B db i" "\<not> rtp_seen_index B (rtp_set_window_size B db sz) i"
  using clear i
  by (simp_all add: window_clear_def rtp_seen_index_def rtp_set_window_size_def big_simps [OF B] not_less
      flip: big_mask_def)

text \<open>
  The boundary step of the circular window: an index exactly \<open>2^30\<close> ahead is taken for a future one by the
  lookup. When the newest index is below \<open>2^30\<close> the update takes it for one before a rollback, and records
  nothing; otherwise it advances the window.
\<close>

lemma rtcp_boundary:
  assumes B: "biguint_laws B" and mask: "rc_mask db = big_mask B sz" and sz: "0 < sz" "sz < 65536"
    and idx: "unat (rc_index db) < 2147483648" and i: "unat i = (unat (rc_index db) + 1073741824) mod 2147483648"
  shows "\<not> rtcp_seen_index B db i"
    and "rtcp_seen_index B (rtcp_add_index B db i) i \<longleftrightarrow> 1073741824 \<le> unat (rc_index db)"
proof (atomize(full), cases "unat (rc_index db) < 1073741824")
  case True
  then have b: "unat i = unat (rc_index db) + 1073741824"
    using i by simp
  then have lt: "rc_index db < i" by (simp add: word_less_nat_alt)
  then have diff: "unat (i - rc_index db) = 1073741824"
    using b by (simp add: unat_sub less_imp_le)
  have "rtcp_add_index B db i = db" "\<not> rtcp_seen_index B db i"
    using lt sz by (simp_all add: rtcp_seen_index_def rtcp_add_index_def Let_def step_words diff
        unat_rollback_sub mask big_simps(3) [OF B])
  with True show "\<not> rtcp_seen_index B db i \<and>
      (rtcp_seen_index B (rtcp_add_index B db i) i \<longleftrightarrow> 1073741824 \<le> unat (rc_index db))" by simp
next
  case False
  then have b: "unat i + 1073741824 = unat (rc_index db)"
    using i idx by (simp add: le_mod_geq)
  then have lt: "i < rc_index db" by (simp add: word_less_nat_alt)
  then have nlt: "\<not> rc_index db < i" by simp
  have diff: "unat (rc_index db - i) = 1073741824"
    using b lt by (simp add: unat_sub less_imp_le)
  have "\<not> rtcp_seen_index B db i"
    using nlt sz by (simp add: rtcp_seen_index_def Let_def step_words diff mask big_simps(3) [OF B])
  moreover have "rtcp_seen_index B (rtcp_add_index B db i) i"
    using nlt sz by (simp add: rtcp_seen_index_def rtcp_add_index_def Let_def step_words diff
        unat_rollback_sub mask big_simps [OF B])
  ultimately show "\<not> rtcp_seen_index B db i \<and>
      (rtcp_seen_index B (rtcp_add_index B db i) i \<longleftrightarrow> 1073741824 \<le> unat (rc_index db))"
    using False by simp
qed

text \<open>An index that was added is seen, and estimated again from its sequence number.\<close>

lemma rtp_add_seen:
  assumes "biguint_laws B"
  shows "rtp_seen_index B (rtp_add_index B db i) i"
  by (auto simp: rtp_seen_index_def rtp_add_index_def Let_def big_simps [OF assms])

lemma estimate_again:
  assumes "pending_roc db = None" "i = rtp_estimate_index db seq" "unat i < 2 ^ 48"
  shows "rtp_estimate_index (rtp_add_index B db i) seq = i"
proof (cases "r_index db < i")
  case True
  have seq: "unat seq = unat i mod 65536"
    using estimate_index_seq [of db seq] assms(2) by simp
  let ?db = "rtp_add_index B db i"
  have db: "r_index ?db = i" "pending_roc ?db = None"
    using True by (simp_all add: rtp_add_index_def Let_def)
  have "unat (rtp_estimate_index ?db seq) = unat i"
    by (rule estimate_index_exact) (use assms(3) seq db in simp_all)
  then show ?thesis by (rule unsigned_word_eqI)
next
  case False
  then have "r_index (rtp_add_index B db i) = r_index db" "pending_roc (rtp_add_index B db i) = None"
    by (simp_all add: rtp_add_index_def Let_def)
  then have "rtp_estimate_index (rtp_add_index B db i) seq = rtp_estimate_index db seq"
    by (simp only: rtp_estimate_index_def assms(1))
  then show ?thesis by (simp only: assms(2))
qed

end
