(* ===== verification/Srtp_Header.thy ===== *)
theory Srtp_Header
  imports Srtp_Prelude
begin

text \<open>
  The RTP and RTCP header parsers of \<^verbatim>\<open>libsrtp/src/header.rs\<close>, with every check in the order
  of the code. The lemmas show that no input makes a parser panic, what an accepted header says
  about the packet (the length bounds the slices of the transforms rely on), and that the result
  depends only on the bytes of the header, so that protecting the payload does not change it.
\<close>

section \<open>The parsers\<close>

definition FIXED_HEADER_SIZE :: nat where "FIXED_HEADER_SIZE = 12"
definition RTCP_MIN_SIZE :: nat where "RTCP_MIN_SIZE = 8"

record rtp_header =
  seq_num :: u16
  rtp_ssrc :: u32
  header_len :: nat

record rtcp_header =
  rtcp_ssrc :: u32

definition rtcp_header_new :: "bytes \<Rightarrow> rtcp_header result" where
  "rtcp_header_new rtcp =
     (let packet_size = length rtcp in
      if packet_size < RTCP_MIN_SIZE then Err InvalidPacket
      else and_then (slice_at rtcp 0) (\<lambda>b0.
        if b0 AND 0xc0 \<noteq> 0x80 then Err InvalidPacket
        else
          and_then (and_then (slice_range rtcp 4 8) (to_array 4 InvalidPacket)) (\<lambda>ssrc.
          Ok \<lparr>rtcp_ssrc = be32 ssrc\<rparr>)))"

definition rtcp_header_len :: nat where
  "rtcp_header_len = RTCP_MIN_SIZE"

text \<open>
  \<^verbatim>\<open>RtpHeader::new\<close>. The block that checks the extension is \<open>rtp_ext\<close>: it takes the size of
  the header so far and returns the final one.
\<close>

definition rtp_ext :: "bytes \<Rightarrow> u8 \<Rightarrow> nat \<Rightarrow> nat result" where
  "rtp_ext rtp b0 header_size =
     (if b0 AND 0x10 \<noteq> 0 then
        if length rtp < header_size + 4 then Err InvalidPacket
        else
          let header_size = header_size + 4 in
          and_then (and_then (slice_range rtp (header_size - 2) header_size) (to_array 2 InvalidPacket))
            (\<lambda>x. let x_size = unat (be16 x) * 4 in
              if length rtp < header_size + x_size then Err InvalidPacket
              else Ok (header_size + x_size))
      else Ok header_size)"

definition rtp_header_new :: "bytes \<Rightarrow> rtp_header result" where
  "rtp_header_new rtp =
     (let packet_size = length rtp in
      if packet_size < FIXED_HEADER_SIZE then Err InvalidPacket
      else and_then (slice_at rtp 0) (\<lambda>b0.
        if b0 AND 0xc0 \<noteq> 0x80 then Err InvalidPacket
        else
          let header_size = FIXED_HEADER_SIZE;
              cc_size = unat (b0 AND 0x0f) * 4
          in
          if packet_size < FIXED_HEADER_SIZE + cc_size then Err InvalidPacket
          else
            let header_size = header_size + cc_size in
            and_then (rtp_ext rtp b0 header_size) (\<lambda>header_size.
            and_then (and_then (slice_range rtp 8 12) (to_array 4 InvalidPacket)) (\<lambda>ssrc.
            and_then (and_then (slice_range rtp 2 4) (to_array 2 InvalidPacket)) (\<lambda>seq.
            Ok \<lparr>seq_num = be16 seq, rtp_ssrc = be32 ssrc, header_len = header_size\<rparr>)))))"

section \<open>Every outcome of the parsers\<close>

text \<open>An RTP header in terms of the bytes: its size is the fixed part, the CSRCs and the extension.\<close>

definition rtp_fixed_len :: "u8 \<Rightarrow> nat" where
  "rtp_fixed_len b0 = 12 + unat (b0 AND 0x0f) * 4"

definition rtp_ext_len :: "bytes \<Rightarrow> nat" where
  "rtp_ext_len p =
     (if p ! 0 AND 0x10 = 0 then 0
      else 4 + unat (be16 (take 2 (drop (rtp_fixed_len (p ! 0) + 2) p))) * 4)"

lemma slice_array [slice_simps]:
  "a + n \<le> length xs \<Longrightarrow> and_then (slice_range xs a (a + n)) (to_array n e) = Ok (take n (drop a xs))"
  by (simp add: to_array_def)

lemma slice_array_at [slice_simps]:
  "12 \<le> length xs \<Longrightarrow> and_then (slice_range xs 8 12) (to_array 4 e) = Ok (take 4 (drop 8 xs))"
  "4 \<le> length xs \<Longrightarrow> and_then (slice_range xs 2 4) (to_array 2 e) = Ok (take 2 (drop 2 xs))"
  "8 \<le> length xs \<Longrightarrow> and_then (slice_range xs 4 8) (to_array 4 e) = Ok (take 4 (drop 4 xs))"
  by (simp_all add: to_array_def)

lemma rtp_ext_eq:
  assumes "rtp_fixed_len (p ! 0) \<le> length p"
  shows "rtp_ext p (p ! 0) (rtp_fixed_len (p ! 0)) =
    (if rtp_fixed_len (p ! 0) + rtp_ext_len p \<le> length p
     then Ok (rtp_fixed_len (p ! 0) + rtp_ext_len p) else Err InvalidPacket)"
  using assms by (auto simp: rtp_ext_def rtp_ext_len_def to_array_def Let_def add.assoc)

lemma rtp_header_new_eq:
  "rtp_header_new p =
     (if 12 \<le> length p \<and> p ! 0 AND 0xc0 = 0x80 \<and> rtp_fixed_len (p ! 0) \<le> length p \<and>
         rtp_fixed_len (p ! 0) + rtp_ext_len p \<le> length p
      then Ok \<lparr>seq_num = be16 (take 2 (drop 2 p)), rtp_ssrc = be32 (take 4 (drop 8 p)),
               header_len = rtp_fixed_len (p ! 0) + rtp_ext_len p\<rparr>
      else Err InvalidPacket)"
proof (cases "12 \<le> length p \<and> rtp_fixed_len (p ! 0) \<le> length p")
  case True
  then have "p \<noteq> []" by auto
  with True rtp_ext_eq [of p] show ?thesis
    by (auto simp: rtp_header_new_def FIXED_HEADER_SIZE_def Let_def to_array_def rtp_fixed_len_def)
next
  case False
  then show ?thesis
    by (auto simp: rtp_header_new_def FIXED_HEADER_SIZE_def Let_def rtp_fixed_len_def slice_at_def)
qed

lemma rtcp_header_new_eq:
  "rtcp_header_new p =
     (if 8 \<le> length p \<and> p ! 0 AND 0xc0 = 0x80 then Ok \<lparr>rtcp_ssrc = be32 (take 4 (drop 4 p))\<rparr>
      else Err InvalidPacket)"
  by (auto simp: rtcp_header_new_def RTCP_MIN_SIZE_def Let_def to_array_def slice_at_def)

lemma rtp_header_new_outcome:
  "rtp_header_new p \<noteq> Panic" "rtp_header_new p = Err e \<Longrightarrow> e = InvalidPacket"
  by (auto simp: rtp_header_new_eq split: if_splits)

lemma rtcp_header_new_outcome:
  "rtcp_header_new p \<noteq> Panic" "rtcp_header_new p = Err e \<Longrightarrow> e = InvalidPacket"
  by (auto simp: rtcp_header_new_eq split: if_splits)

lemma rtp_header_len_bounds:
  assumes "rtp_header_new p = Ok h"
  shows "12 \<le> header_len h" "header_len h \<le> length p"
  using assms by (auto simp: rtp_header_new_eq rtp_fixed_len_def split: if_splits)

lemma rtcp_header_length: "rtcp_header_new p = Ok h \<Longrightarrow> rtcp_header_len \<le> length p"
  by (auto simp: rtcp_header_new_eq rtcp_header_len_def RTCP_MIN_SIZE_def split: if_splits)

section \<open>The result depends only on the header\<close>

lemma rtp_header_new_cong:
  assumes "rtp_header_new p = Ok h" and "take (header_len h) q = take (header_len h) p"
    and "header_len h \<le> length q"
  shows "rtp_header_new q = Ok h"
proof -
  let ?n = "header_len h"
  note eq = assms(1) [unfolded rtp_header_new_eq]
  have n: "?n = rtp_fixed_len (p ! 0) + rtp_ext_len p" "12 \<le> ?n"
    using eq rtp_header_len_bounds [OF assms(1)] by (auto split: if_splits)
  have nth: "q ! i = p ! i" if "i < ?n" for i
    using assms(2) that by (metis nth_take)
  have sl: "take k (drop i q) = take k (drop i p)" if "i + k \<le> ?n" for i k
    using arg_cong [OF assms(2), of "take (i + k)"] that by (simp add: take_drop add.commute)
  have b0: "q ! 0 = p ! 0"
    using nth n(2) by simp
  have ext: "rtp_ext_len q = rtp_ext_len p"
    using sl [of "rtp_fixed_len (p ! 0) + 2" 2] n(1) by (auto simp: rtp_ext_len_def b0)
  show ?thesis
    using eq assms(3) n sl [of 2 2] sl [of 8 4] by (auto simp: rtp_header_new_eq b0 ext split: if_splits)
qed

lemma rtcp_header_new_cong:
  assumes "rtcp_header_new p = Ok h" and "take rtcp_header_len q = take rtcp_header_len p"
    and "rtcp_header_len \<le> length q"
  shows "rtcp_header_new q = Ok h"
proof -
  have nth: "q ! 0 = p ! 0"
    using assms(2) by (metis nth_take rtcp_header_len_def RTCP_MIN_SIZE_def zero_less_numeral)
  have "take 4 (drop 4 q) = take 4 (drop 4 p)"
    using assms(2) by (simp add: take_drop rtcp_header_len_def RTCP_MIN_SIZE_def)
  then show ?thesis
    using assms nth by (auto simp: rtcp_header_new_eq rtcp_header_len_def RTCP_MIN_SIZE_def split: if_splits)
qed

section \<open>Building a packet\<close>

text \<open>
  Packets with a given payload, laid out as the test helpers do (\<^verbatim>\<open>test_utils/src/lib.rs\<close>).
\<close>

definition plain_rtp :: "bytes \<Rightarrow> u32 \<Rightarrow> u16 \<Rightarrow> bytes" where
  "plain_rtp payload ssrc seqnum =
     [0x80, 0x0f] @ to_be_bytes16 seqnum @ to_be_bytes32 (push_bit 10 (ucast seqnum)) @
     to_be_bytes32 ssrc @ payload"

definition plain_rtcp :: "bytes \<Rightarrow> u32 \<Rightarrow> bytes" where
  "plain_rtcp payload ssrc = [0x80, 200, 0x12, 0x34] @ to_be_bytes32 ssrc @ payload"

lemma length_plain [simp]:
  "length (plain_rtp payload ssrc seqnum) = 12 + length payload"
  "length (plain_rtcp payload ssrc) = 8 + length payload"
  by (simp_all add: plain_rtp_def plain_rtcp_def to_be_bytes16_def to_be_bytes32_def)

lemma rtp_header_of_packet:
  "rtp_header_new (plain_rtp payload ssrc seqnum) =
     Ok \<lparr>seq_num = seqnum, rtp_ssrc = ssrc, header_len = 12\<rparr>"
  using be_to_be_bytes(1) [of seqnum] be_to_be_bytes(2) [of ssrc]
  by (simp add: rtp_header_new_eq plain_rtp_def rtp_fixed_len_def rtp_ext_len_def
      to_be_bytes16_def to_be_bytes32_def)

lemma rtcp_header_of_packet:
  "rtcp_header_new (plain_rtcp payload ssrc) = Ok \<lparr>rtcp_ssrc = ssrc\<rparr>"
  using be_to_be_bytes(2) [of ssrc]
  by (simp add: rtcp_header_new_eq plain_rtcp_def to_be_bytes32_def)

end
