(* ===== verification/Srtp_Kdf.thy ===== *)
theory Srtp_Kdf
  imports Srtp_External
begin

text \<open>
  Key derivation, \<^verbatim>\<open>libsrtp/src/key_derivation.rs\<close>: the AES-CM pseudo-random function of
  RFC 3711, 4.3, with a key derivation rate of zero. The lemmas give its outcome on every input and
  show that two labels never share an input of the pseudo-random function.
\<close>

definition SESSION_SALT_SIZE :: nat where "SESSION_SALT_SIZE = 14"
definition SESSION_AUTH_KEY_SIZE :: nat where "SESSION_AUTH_KEY_SIZE = 20"

datatype kdf_label = RtpEncrypt | RtpAuthTag | RtpSalt | RtcpEncrypt | RtcpAuthTag | RtcpSalt

text \<open>The discriminants of the \<^verbatim>\<open>repr(u8)\<close> enumeration.\<close>

fun label_byte :: "kdf_label \<Rightarrow> u8" where
  "label_byte RtpEncrypt = 0x00"
| "label_byte RtpAuthTag = 0x01"
| "label_byte RtpSalt = 0x02"
| "label_byte RtcpEncrypt = 0x03"
| "label_byte RtcpAuthTag = 0x04"
| "label_byte RtcpSalt = 0x05"

fun output_size :: "kdf_label \<Rightarrow> nat \<Rightarrow> nat" where
  "output_size RtpEncrypt key_size = key_size"
| "output_size RtcpEncrypt key_size = key_size"
| "output_size RtpSalt key_size = SESSION_SALT_SIZE"
| "output_size RtcpSalt key_size = SESSION_SALT_SIZE"
| "output_size RtpAuthTag key_size = SESSION_AUTH_KEY_SIZE"
| "output_size RtcpAuthTag key_size = SESSION_AUTH_KEY_SIZE"

text \<open>
  The 16-byte input: the master salt, padded with zeroes, with the label exclusive-ored at
  position 7. Copying a salt longer than the buffer panics.
\<close>

definition prf_input :: "kdf_label \<Rightarrow> bytes \<Rightarrow> bytes result" where
  "prf_input label master_salt =
     and_then (expect (length master_salt \<le> 16)) (\<lambda>_.
     let buf = master_salt @ replicate (16 - length master_salt) 0 in
     Ok (buf[7 := buf ! 7 XOR label_byte label]))"

definition aes_cm_kdf :: "crypto \<Rightarrow> kdf_label \<Rightarrow> bytes \<Rightarrow> bytes \<Rightarrow> bytes result" where
  "aes_cm_kdf C label master_key master_salt =
     (let out = replicate (output_size label (length master_key)) 0 in
      and_then (prf_input label master_salt) (\<lambda>seed.
        if length master_key = 16 then apply_keystream C Aes128 master_key seed out
        else if length master_key = 24 then apply_keystream C Aes192 master_key seed out
        else if length master_key = 32 then apply_keystream C Aes256 master_key seed out
        else Err InvalidKeySize))"

lemma prf_input_length: "prf_input label salt = Ok seed \<Longrightarrow> length seed = 16"
  by (auto simp: prf_input_def outcome_simps Let_def)

lemma prf_input_total: "length salt \<le> 16 \<Longrightarrow> \<exists>seed. prf_input label salt = Ok seed \<and> length seed = 16"
  by (simp add: prf_input_def Let_def)

lemma xor_cancel_left [simp]: "(x :: 'a :: len word) XOR a = x XOR b \<longleftrightarrow> a = b"
proof
  assume "x XOR a = x XOR b"
  then have "x XOR (x XOR a) = x XOR (x XOR b)" by simp
  then show "a = b" by (simp add: xor.assoc [symmetric])
qed simp

lemma label_byte_inject [simp]: "label_byte l = label_byte l' \<longleftrightarrow> l = l'"
  by (cases l; cases l'; simp)

lemma prf_input_separates:
  assumes "prf_input l salt = Ok seed" and "prf_input l' salt = Ok seed"
  shows "l = l'"
proof -
  let ?buf = "salt @ replicate (16 - length salt) (0 :: u8)"
  from assms have "length salt \<le> 16"
    and "?buf[7 := ?buf ! 7 XOR label_byte l] = ?buf[7 := ?buf ! 7 XOR label_byte l']"
    by (auto simp: prf_input_def outcome_simps Let_def)
  moreover have "7 < length ?buf"
    using \<open>length salt \<le> 16\<close> by simp
  ultimately have "?buf ! 7 XOR label_byte l = ?buf ! 7 XOR label_byte l'"
    by (metis nth_list_update_eq)
  then show ?thesis by simp
qed

text \<open>Every outcome of the derivation.\<close>

lemma output_size_le: "n \<le> 32 \<Longrightarrow> output_size label n \<le> 32"
  by (cases label) (auto simp: SESSION_SALT_SIZE_def SESSION_AUTH_KEY_SIZE_def)

lemma aes_cm_kdf_length:
  assumes "crypto_laws C" and "aes_cm_kdf C label mk salt = Ok out"
  shows "length out = output_size label (length mk)"
  using assms by (auto simp: aes_cm_kdf_def Let_def outcome_simps dest!: ctr_length split: if_splits)

lemma aes_cm_kdf_total:
  assumes C: "crypto_laws C" and mk: "length mk \<in> {16, 24, 32}" and salt: "length salt \<le> 16"
  shows "\<exists>out. aes_cm_kdf C label mk salt = Ok out \<and> length out = output_size label (length mk)"
proof -
  obtain seed where seed: "prf_input label salt = Ok seed" "length seed = 16"
    using prf_input_total [OF salt] by blast
  have "length (replicate (output_size label (length mk)) (0 :: u8)) \<le> max_message"
    using output_size_le [of "length mk" label] mk by (auto simp: max_message_def)
  from apply_keystream_total [OF C _ seed(2) this] mk seed(1) show ?thesis
    by (auto simp: aes_cm_kdf_def Let_def)
qed

lemma aes_cm_kdf_error:
  "aes_cm_kdf C label mk salt = Err e \<Longrightarrow> e = InvalidKeySize \<and> length mk \<notin> {16, 24, 32}"
  by (auto simp: aes_cm_kdf_def Let_def outcome_simps prf_input_def split: if_splits)

lemma aes_cm_kdf_bad_key:
  "length salt \<le> 16 \<Longrightarrow> length mk \<notin> {16, 24, 32} \<Longrightarrow> aes_cm_kdf C label mk salt = Err InvalidKeySize"
  using prf_input_total [of salt label] by (auto simp: aes_cm_kdf_def Let_def)

lemma aes_cm_kdf_panic: "16 < length salt \<Longrightarrow> aes_cm_kdf C label mk salt = Panic"
  by (simp add: aes_cm_kdf_def prf_input_def Let_def expect_def)

text \<open>The same facts for a derived key that the code stores in a fixed-size array.\<close>

lemma kdf_array_total:
  assumes "crypto_laws C" "length mk \<in> {16, 24, 32}" "length salt \<le> 16" "output_size label (length mk) = n"
  shows "\<exists>k. and_then (aes_cm_kdf C label mk salt) (to_array n e) = Ok k \<and> length k = n"
  using aes_cm_kdf_total [OF assms(1-3), of label] assms(4) by (auto simp: to_array_def)

end
