(* ===== verification/Srtp_Aes_Cm.thy ===== *)
theory Srtp_Aes_Cm
  imports Srtp_Header Srtp_Profile Srtp_Kdf
begin

text \<open>
  The transform with AES counter mode (or no cipher) and HMAC-SHA1,
  \<^verbatim>\<open>libsrtp/src/transform/aes_cm_sha1.rs\<close>: derivation of the session keys, the initialisation
  vectors, encryption, authentication tags, and the four operations of the \<^verbatim>\<open>Transform\<close> trait.
\<close>

section \<open>Session keys\<close>

record cm_session_keys =
  ck_key :: "bytes option"
  ck_salt :: "bytes option"
  ck_auth_key :: "bytes option"

record aes_cm_sha1 =
  cm_rtp_profile :: protection_profile
  cm_rtcp_profile :: protection_profile
  cm_rtp_key :: cm_session_keys
  cm_rtcp_key :: cm_session_keys
  cm_mki :: mki

text \<open>The first half of \<^verbatim>\<open>AesCmSha1::new\<close>: the RTP session keys.\<close>

definition cm_rtp_session_keys ::
    "crypto \<Rightarrow> bytes \<Rightarrow> bytes \<Rightarrow> protection_profile \<Rightarrow> cm_session_keys result" where
  "cm_rtp_session_keys C mk salt profile =
     (let full =
        and_then (aes_cm_kdf C RtpEncrypt mk salt) (\<lambda>key.
        and_then (and_then (aes_cm_kdf C RtpSalt mk salt) (to_array 14 KdfDispatch)) (\<lambda>session_salt.
        and_then (and_then (aes_cm_kdf C RtpAuthTag mk salt) (to_array 20 KdfDispatch)) (\<lambda>auth_key.
        Ok \<lparr>ck_key = Some key, ck_salt = Some session_salt, ck_auth_key = Some auth_key\<rparr>)));
      null_auth =
        and_then (aes_cm_kdf C RtpEncrypt mk salt) (\<lambda>key.
        and_then (and_then (aes_cm_kdf C RtpSalt mk salt) (to_array 14 KdfDispatch)) (\<lambda>session_salt.
        Ok \<lparr>ck_key = Some key, ck_salt = Some session_salt, ck_auth_key = None\<rparr>));
      null_cipher =
        and_then (and_then (aes_cm_kdf C RtpAuthTag mk salt) (to_array 20 KdfDispatch)) (\<lambda>auth_key.
        Ok \<lparr>ck_key = None, ck_salt = None, ck_auth_key = Some auth_key\<rparr>)
      in case profile of
        Aes128CmHmacSha180 \<Rightarrow> full
      | Aes128CmHmacSha132 \<Rightarrow> full
      | Aes192CmHmacSha180 \<Rightarrow> full
      | Aes192CmHmacSha132 \<Rightarrow> full
      | Aes256CmHmacSha180 \<Rightarrow> full
      | Aes256CmHmacSha132 \<Rightarrow> full
      | Aes128CmNullAuth \<Rightarrow> null_auth
      | Aes192CmNullAuth \<Rightarrow> null_auth
      | Aes256CmNullAuth \<Rightarrow> null_auth
      | NullCipherHmacSha180 \<Rightarrow> null_cipher
      | _ \<Rightarrow> Err TransformDispatch)"

text \<open>The second half: the RTCP session keys; profiles without a full tag are refused.\<close>

definition cm_rtcp_session_keys ::
    "crypto \<Rightarrow> bytes \<Rightarrow> bytes \<Rightarrow> protection_profile \<Rightarrow> cm_session_keys result" where
  "cm_rtcp_session_keys C mk salt profile =
     (let full =
        and_then (aes_cm_kdf C RtcpEncrypt mk salt) (\<lambda>key.
        and_then (and_then (aes_cm_kdf C RtcpSalt mk salt) (to_array 14 KdfDispatch)) (\<lambda>session_salt.
        and_then (and_then (aes_cm_kdf C RtcpAuthTag mk salt) (to_array 20 KdfDispatch)) (\<lambda>auth_key.
        Ok \<lparr>ck_key = Some key, ck_salt = Some session_salt, ck_auth_key = Some auth_key\<rparr>)));
      null_cipher =
        and_then (and_then (aes_cm_kdf C RtcpAuthTag mk salt) (to_array 20 KdfDispatch)) (\<lambda>auth_key.
        Ok \<lparr>ck_key = None, ck_salt = None, ck_auth_key = Some auth_key\<rparr>)
      in case profile of
        Aes128CmHmacSha180 \<Rightarrow> full
      | Aes192CmHmacSha180 \<Rightarrow> full
      | Aes256CmHmacSha180 \<Rightarrow> full
      | Aes128CmNullAuth \<Rightarrow> Err InvalidProfile
      | Aes192CmNullAuth \<Rightarrow> Err InvalidProfile
      | Aes256CmNullAuth \<Rightarrow> Err InvalidProfile
      | Aes128CmHmacSha132 \<Rightarrow> Err InvalidProfile
      | Aes192CmHmacSha132 \<Rightarrow> Err InvalidProfile
      | Aes256CmHmacSha132 \<Rightarrow> Err InvalidProfile
      | NullCipherHmacSha180 \<Rightarrow> null_cipher
      | _ \<Rightarrow> Err TransformDispatch)"

definition cm_new ::
    "crypto \<Rightarrow> bytes \<Rightarrow> bytes \<Rightarrow> mki \<Rightarrow> protection_profile \<Rightarrow> protection_profile \<Rightarrow> aes_cm_sha1 result" where
  "cm_new C mk salt mki rtp_profile rtcp_profile =
     and_then (cm_rtp_session_keys C mk salt rtp_profile) (\<lambda>rtp_keys.
     and_then (cm_rtcp_session_keys C mk salt rtcp_profile) (\<lambda>rtcp_keys.
     Ok \<lparr>cm_rtp_profile = rtp_profile, cm_rtcp_profile = rtcp_profile,
         cm_rtp_key = rtp_keys, cm_rtcp_key = rtcp_keys, cm_mki = mki\<rparr>))"

section \<open>Encryption\<close>

definition cm_rtp_iv :: "bytes \<Rightarrow> rtp_header \<Rightarrow> u32 \<Rightarrow> bytes" where
  "cm_rtp_iv session_salt header roc =
     (let iv = session_salt @ [0, 0];
          iv = xor_at iv 4 (to_be_bytes32 (rtp_ssrc header));
          iv = xor_at iv 8 (to_be_bytes32 roc)
      in xor_at iv 12 (to_be_bytes16 (seq_num header)))"

definition cm_rtcp_iv :: "bytes \<Rightarrow> rtcp_header \<Rightarrow> u32 \<Rightarrow> bytes" where
  "cm_rtcp_iv session_salt header index =
     (let iv = session_salt @ [0, 0];
          iv = xor_at iv 4 (to_be_bytes32 (rtcp_ssrc header))
      in xor_at iv 10 (to_be_bytes32 index))"

fun cm_rtp_variant :: "protection_profile \<Rightarrow> aes_variant result" where
  "cm_rtp_variant Aes128CmHmacSha180 = Ok Aes128"
| "cm_rtp_variant Aes128CmHmacSha132 = Ok Aes128"
| "cm_rtp_variant Aes128CmNullAuth = Ok Aes128"
| "cm_rtp_variant Aes192CmHmacSha180 = Ok Aes192"
| "cm_rtp_variant Aes192CmHmacSha132 = Ok Aes192"
| "cm_rtp_variant Aes192CmNullAuth = Ok Aes192"
| "cm_rtp_variant Aes256CmHmacSha180 = Ok Aes256"
| "cm_rtp_variant Aes256CmHmacSha132 = Ok Aes256"
| "cm_rtp_variant Aes256CmNullAuth = Ok Aes256"
| "cm_rtp_variant _ = Err TransformDispatch"

fun cm_rtcp_variant :: "protection_profile \<Rightarrow> aes_variant result" where
  "cm_rtcp_variant Aes128CmHmacSha180 = Ok Aes128"
| "cm_rtcp_variant Aes192CmHmacSha180 = Ok Aes192"
| "cm_rtcp_variant Aes256CmHmacSha180 = Ok Aes256"
| "cm_rtcp_variant _ = Err TransformDispatch"

text \<open>Both operations overwrite the packet behind the header; they return the new packet.\<close>

definition cm_rtp_encrypt ::
    "crypto \<Rightarrow> aes_cm_sha1 \<Rightarrow> bytes \<Rightarrow> rtp_header \<Rightarrow> u32 \<Rightarrow> bytes result" where
  "cm_rtp_encrypt C self rtp_packet header roc =
     and_then (ok_or (ck_key (cm_rtp_key self)) ContextNotReady) (\<lambda>session_key.
     and_then (ok_or (ck_salt (cm_rtp_key self)) ContextNotReady) (\<lambda>session_salt.
     let iv = cm_rtp_iv session_salt header roc in
     and_then (cm_rtp_variant (cm_rtp_profile self)) (\<lambda>v.
     and_then (slice_from rtp_packet (header_len header)) (\<lambda>payload.
     and_then (apply_keystream C v session_key iv payload) (\<lambda>payload.
     Ok (take (header_len header) rtp_packet @ payload))))))"

definition cm_rtcp_encrypt ::
    "crypto \<Rightarrow> aes_cm_sha1 \<Rightarrow> bytes \<Rightarrow> rtcp_header \<Rightarrow> u32 \<Rightarrow> bytes result" where
  "cm_rtcp_encrypt C self rtcp_packet header index =
     and_then (ok_or (ck_key (cm_rtcp_key self)) ContextNotReady) (\<lambda>session_key.
     and_then (ok_or (ck_salt (cm_rtcp_key self)) ContextNotReady) (\<lambda>session_salt.
     let iv = cm_rtcp_iv session_salt header index in
     and_then (cm_rtcp_variant (cm_rtcp_profile self)) (\<lambda>v.
     and_then (slice_from rtcp_packet rtcp_header_len) (\<lambda>payload.
     and_then (apply_keystream C v session_key iv payload) (\<lambda>payload.
     Ok (take rtcp_header_len rtcp_packet @ payload))))))"

section \<open>Authentication\<close>

definition cm_rtp_auth_tag :: "crypto \<Rightarrow> aes_cm_sha1 \<Rightarrow> bytes \<Rightarrow> u32 \<Rightarrow> bytes result" where
  "cm_rtp_auth_tag C self authenticated_packet roc =
     and_then (ok_or (ck_auth_key (cm_rtp_key self)) ContextNotReady) (\<lambda>session_auth_key.
     and_then (ok_or (hmac_sha1 C session_auth_key (authenticated_packet @ to_be_bytes32 roc)) Encryption)
       (\<lambda>tag. if length tag < tag_len (cm_rtp_profile self) then Err Encryption
              else slice_to tag (tag_len (cm_rtp_profile self))))"

definition cm_rtcp_auth_tag :: "crypto \<Rightarrow> aes_cm_sha1 \<Rightarrow> bytes \<Rightarrow> bytes result" where
  "cm_rtcp_auth_tag C self authenticated_packet =
     and_then (ok_or (ck_auth_key (cm_rtcp_key self)) ContextNotReady) (\<lambda>session_auth_key.
     and_then (ok_or (hmac_sha1 C session_auth_key authenticated_packet) Encryption)
       (\<lambda>tag. if length tag < tag_len (cm_rtcp_profile self) then Err Encryption
              else slice_to tag (tag_len (cm_rtcp_profile self))))"

section \<open>The operations of the trait\<close>

definition cm_rtp_protect ::
    "crypto \<Rightarrow> aes_cm_sha1 \<Rightarrow> bytes \<Rightarrow> rtp_header \<Rightarrow> u32 \<Rightarrow> bytes result" where
  "cm_rtp_protect C self plain header roc =
     and_then (if 0 < key_len (cm_rtp_profile self) then cm_rtp_encrypt C self plain header roc
               else Ok plain) (\<lambda>plain.
     let mki_len = length (mki_bytes (cm_mki self));
         plain = plain @ mki_bytes (cm_mki self)
     in
     if 0 < tag_len (cm_rtp_profile self) then
       and_then (usize_sub (length plain) mki_len) (\<lambda>n.
       and_then (slice_to plain n) (\<lambda>authenticated.
       and_then (cm_rtp_auth_tag C self authenticated roc) (\<lambda>tag.
       Ok (plain @ tag))))
     else Ok plain)"

definition cm_rtcp_protect ::
    "crypto \<Rightarrow> aes_cm_sha1 \<Rightarrow> bytes \<Rightarrow> rtcp_header \<Rightarrow> u32 \<Rightarrow> bytes result" where
  "cm_rtcp_protect C self plain header index =
     and_then (if 0 < key_len (cm_rtcp_profile self)
               then and_then (cm_rtcp_encrypt C self plain header index) (\<lambda>plain.
                    Ok (plain @ to_be_bytes32 (index OR 0x80000000)))
               else Ok (plain @ to_be_bytes32 (index AND 0x7fffffff))) (\<lambda>plain.
     let mki_len = length (mki_bytes (cm_mki self));
         plain = plain @ mki_bytes (cm_mki self)
     in
     and_then (usize_sub (length plain) mki_len) (\<lambda>n.
     and_then (slice_to plain n) (\<lambda>authenticated.
     and_then (cm_rtcp_auth_tag C self authenticated) (\<lambda>tag.
     Ok (plain @ tag)))))"

definition cm_rtp_unprotect ::
    "crypto \<Rightarrow> aes_cm_sha1 \<Rightarrow> bytes \<Rightarrow> rtp_header \<Rightarrow> u32 \<Rightarrow> bytes result" where
  "cm_rtp_unprotect C self cipher header roc =
     (let tlen = tag_len (cm_rtp_profile self);
          trailer_len = tlen + length (mki_bytes (cm_mki self))
      in
      if length cipher < header_len header + trailer_len then Err InvalidPacket
      else
        and_then (if 0 < tlen then
            and_then (and_then (usize_sub (length cipher) tlen) (slice_from cipher)) (\<lambda>tag.
            and_then (and_then (usize_sub (length cipher) trailer_len) (slice_to cipher)) (\<lambda>authenticated.
            and_then (cm_rtp_auth_tag C self authenticated roc) (\<lambda>expected.
            if \<not> ct_eq C tag expected then Err Authentication else Ok ())))
          else Ok ()) (\<lambda>_.
        and_then (usize_sub (length cipher) trailer_len) (\<lambda>n.
        let cipher = vec_truncate cipher n in
        if 0 < key_len (cm_rtp_profile self) then cm_rtp_encrypt C self cipher header roc
        else Ok cipher)))"

definition cm_rtcp_unprotect ::
    "crypto \<Rightarrow> aes_cm_sha1 \<Rightarrow> bytes \<Rightarrow> rtcp_header \<Rightarrow> u32 \<Rightarrow> nat \<Rightarrow> bytes result" where
  "cm_rtcp_unprotect C self cipher header index trailer_len =
     (let tlen = tag_len (cm_rtcp_profile self) in
      and_then (and_then (usize_sub (length cipher) tlen) (slice_from cipher)) (\<lambda>tag.
      and_then (and_then (usize_sub (length cipher) trailer_len) (\<lambda>n. slice_to cipher (n + 4))) (\<lambda>authenticated.
      and_then (cm_rtcp_auth_tag C self authenticated) (\<lambda>expected.
      if \<not> ct_eq C tag expected then Err Authentication
      else
        and_then (usize_sub (length cipher) trailer_len) (\<lambda>n.
        let cipher = vec_truncate cipher n in
        if 0 < key_len (cm_rtcp_profile self) then cm_rtcp_encrypt C self cipher header index
        else Ok cipher)))))"

section \<open>Construction\<close>

text \<open>
  The shape of the session keys a profile needs; \<^verbatim>\<open>AesCmSha1::new\<close> establishes it when the master
  key and salt fit the profiles.
\<close>

definition cm_keys_ok :: "protection_profile \<Rightarrow> cm_session_keys \<Rightarrow> bool" where
  "cm_keys_ok p k \<longleftrightarrow>
     (0 < key_len p \<longrightarrow> (\<exists>key salt. ck_key k = Some key \<and> length key = key_len p \<and>
        ck_salt k = Some salt \<and> length salt = 14)) \<and>
     (0 < tag_len p \<longrightarrow> (\<exists>auth. ck_auth_key k = Some auth \<and> length auth = 20))"

definition cm_ok :: "aes_cm_sha1 \<Rightarrow> bool" where
  "cm_ok t \<longleftrightarrow> \<not> is_gcm (cm_rtp_profile t) \<and> \<not> tag_len (cm_rtcp_profile t) < 10 \<and>
     cm_keys_ok (cm_rtp_profile t) (cm_rtp_key t) \<and> cm_keys_ok (cm_rtcp_profile t) (cm_rtcp_key t)"

definition master_fits :: "bytes \<Rightarrow> bytes \<Rightarrow> protection_profile \<Rightarrow> bool" where
  "master_fits mk salt p \<longleftrightarrow> length mk \<in> {16, 24, 32} \<and> length salt \<le> 16 \<and>
     (0 < key_len p \<longrightarrow> key_len p = length mk)"

lemma cm_rtp_session_keys_ok:
  assumes "crypto_laws C" "master_fits mk salt p" "\<not> is_gcm p"
  shows "\<exists>k. cm_rtp_session_keys C mk salt p = Ok k \<and> cm_keys_ok p k"
proof -
  from assms(2) have mk: "length mk \<in> {16, 24, 32}" "length salt \<le> 16"
    by (simp_all add: master_fits_def)
  show ?thesis
    using assms(2,3) aes_cm_kdf_total [OF assms(1) mk, of RtpEncrypt]
      aes_cm_kdf_total [OF assms(1) mk, of RtpSalt]
      aes_cm_kdf_total [OF assms(1) mk, of RtpAuthTag]
    by (cases p) (auto simp: cm_rtp_session_keys_def cm_keys_ok_def to_array_def master_fits_def
        SESSION_SALT_SIZE_def SESSION_AUTH_KEY_SIZE_def)
qed

lemma cm_rtcp_session_keys_ok:
  assumes "crypto_laws C" "master_fits mk salt p" "\<not> tag_len p < 10"
  shows "\<exists>k. cm_rtcp_session_keys C mk salt p = Ok k \<and> cm_keys_ok p k"
proof -
  from assms(2) have mk: "length mk \<in> {16, 24, 32}" "length salt \<le> 16"
    by (simp_all add: master_fits_def)
  show ?thesis
    using assms(2,3) aes_cm_kdf_total [OF assms(1) mk, of RtcpEncrypt]
      aes_cm_kdf_total [OF assms(1) mk, of RtcpSalt]
      aes_cm_kdf_total [OF assms(1) mk, of RtcpAuthTag]
    by (cases p) (auto simp: cm_rtcp_session_keys_def cm_keys_ok_def to_array_def master_fits_def
        SESSION_SALT_SIZE_def SESSION_AUTH_KEY_SIZE_def)
qed

lemma cm_new_ok:
  assumes "crypto_laws C" "master_fits mk salt rtp" "master_fits mk salt rtcp"
    "\<not> is_gcm rtp" "\<not> tag_len rtcp < 10"
  shows "\<exists>t. cm_new C mk salt m rtp rtcp = Ok t \<and> cm_ok t \<and> cm_mki t = m \<and>
    cm_rtp_profile t = rtp \<and> cm_rtcp_profile t = rtcp"
  using cm_rtp_session_keys_ok [OF assms(1,2,4)] cm_rtcp_session_keys_ok [OF assms(1,3,5)] assms(4,5)
  by (auto simp: cm_new_def cm_ok_def)

text \<open>The transform refuses every RTCP profile without a full tag, and those of the other family.\<close>

lemma cm_new_rejects:
  assumes "crypto_laws C" "master_fits mk salt rtp" "\<not> is_gcm rtp" "tag_len rtcp < 10"
  shows "cm_new C mk salt m rtp rtcp = Err (if is_gcm rtcp then TransformDispatch else InvalidProfile)"
  using cm_rtp_session_keys_ok [OF assms(1-3)] assms(4)
  by (cases rtcp) (auto simp: cm_new_def cm_rtcp_session_keys_def)

text \<open>
  Without \<open>master_fits\<close>: a profile of the other family is refused before any key is derived, and the key
  derivation decides for the rest.
\<close>

lemma cm_new_gcm: "is_gcm rtp \<Longrightarrow> cm_new C mk salt m rtp rtcp = Err TransformDispatch"
  by (cases rtp) (simp_all add: cm_new_def cm_rtp_session_keys_def)

lemma cm_new_bad_master:
  assumes "\<not> is_gcm rtp"
  shows "16 < length salt \<Longrightarrow> cm_new C mk salt m rtp rtcp = Panic"
    and "length salt \<le> 16 \<Longrightarrow> length mk \<notin> {16, 24, 32} \<Longrightarrow> cm_new C mk salt m rtp rtcp = Err InvalidKeySize"
proof -
  assume "16 < length salt"
  then show "cm_new C mk salt m rtp rtcp = Panic"
    using assms by (cases rtp) (simp_all add: cm_new_def cm_rtp_session_keys_def aes_cm_kdf_panic)
next
  assume "length salt \<le> 16" "length mk \<notin> {16, 24, 32}"
  from aes_cm_kdf_bad_key [OF this] show "cm_new C mk salt m rtp rtcp = Err InvalidKeySize"
    using assms by (cases rtp) (simp_all add: cm_new_def cm_rtp_session_keys_def)
qed

lemma cm_session_keys_made:
  assumes "crypto_laws C" "length mk \<in> {16, 24, 32}" "length salt \<le> 16"
  shows "\<not> is_gcm p \<Longrightarrow> \<exists>k. cm_rtp_session_keys C mk salt p = Ok k"
    and "\<exists>k. cm_rtcp_session_keys C mk salt p = (if tag_len p < 10
      then Err (if is_gcm p then TransformDispatch else InvalidProfile) else Ok k)"
proof -
  note kdf = aes_cm_kdf_total [OF assms]
  show "\<not> is_gcm p \<Longrightarrow> \<exists>k. cm_rtp_session_keys C mk salt p = Ok k"
    using kdf [of RtpEncrypt] kdf [of RtpSalt] kdf [of RtpAuthTag]
    by (cases p) (auto simp: cm_rtp_session_keys_def to_array_def SESSION_SALT_SIZE_def SESSION_AUTH_KEY_SIZE_def)
  show "\<exists>k. cm_rtcp_session_keys C mk salt p = (if tag_len p < 10
      then Err (if is_gcm p then TransformDispatch else InvalidProfile) else Ok k)"
    using kdf [of RtcpEncrypt] kdf [of RtcpSalt] kdf [of RtcpAuthTag]
    by (cases p) (auto simp: cm_rtcp_session_keys_def to_array_def SESSION_SALT_SIZE_def SESSION_AUTH_KEY_SIZE_def)
qed

lemma cm_new_made:
  assumes "crypto_laws C" "length mk \<in> {16, 24, 32}" "length salt \<le> 16" "\<not> is_gcm rtp"
  shows "\<exists>t. cm_new C mk salt m rtp rtcp = (if tag_len rtcp < 10
      then Err (if is_gcm rtcp then TransformDispatch else InvalidProfile) else Ok t) \<and>
    cm_rtp_profile t = rtp \<and> cm_rtcp_profile t = rtcp \<and> cm_mki t = m"
proof -
  obtain k where k: "cm_rtp_session_keys C mk salt rtp = Ok k"
    using cm_session_keys_made(1) [OF assms] by blast
  obtain k' where k': "cm_rtcp_session_keys C mk salt rtcp = (if tag_len rtcp < 10
      then Err (if is_gcm rtcp then TransformDispatch else InvalidProfile) else Ok k')"
    using cm_session_keys_made(2) [OF assms(1-3)] by blast
  let ?t = "\<lparr>cm_rtp_profile = rtp, cm_rtcp_profile = rtcp, cm_rtp_key = k, cm_rtcp_key = k', cm_mki = m\<rparr>"
  show ?thesis
    by (rule exI [of _ ?t]) (simp add: cm_new_def k k')
qed

section \<open>Initialisation vectors\<close>

lemma length14:
  assumes "length xs = 14"
  obtains a b c d e f g h i j k l m n where "xs = [a, b, c, d, e, f, g, h, i, j, k, l, m, n]"
  using assms by (auto simp: length_Suc_conv numeral_eq_Suc)

lemma cm_rtp_iv_inject:
  assumes "length salt = 14" and "cm_rtp_iv salt h roc = cm_rtp_iv salt h' roc'"
  shows "rtp_ssrc h = rtp_ssrc h'" "roc = roc'" "seq_num h = seq_num h'"
proof -
  obtain a b c d e f g hh i j k l m n where "salt = [a, b, c, d, e, f, g, hh, i, j, k, l, m, n]"
    using length14 [OF assms(1)] .
  with assms(2) have "to_be_bytes32 (rtp_ssrc h) = to_be_bytes32 (rtp_ssrc h')"
    "to_be_bytes32 roc = to_be_bytes32 roc'" "to_be_bytes16 (seq_num h) = to_be_bytes16 (seq_num h')"
    by (simp_all add: cm_rtp_iv_def Let_def to_be_bytes32_def to_be_bytes16_def)
  then show "rtp_ssrc h = rtp_ssrc h'" "roc = roc'" "seq_num h = seq_num h'"
    by simp_all
qed

lemma length_cm_rtp_iv: "length salt = 14 \<Longrightarrow> length (cm_rtp_iv salt h roc) = 16"
  by (simp add: cm_rtp_iv_def Let_def)

lemma length_cm_rtcp_iv: "length salt = 14 \<Longrightarrow> length (cm_rtcp_iv salt h index) = 16"
  by (simp add: cm_rtcp_iv_def Let_def)

lemma cm_rtcp_iv_inject:
  assumes "length salt = 14" and "cm_rtcp_iv salt h index = cm_rtcp_iv salt h' index'"
  shows "rtcp_ssrc h = rtcp_ssrc h'" "index = index'"
proof -
  obtain a b c d e f g hh i j k l m n where "salt = [a, b, c, d, e, f, g, hh, i, j, k, l, m, n]"
    using length14 [OF assms(1)] .
  with assms(2) have "to_be_bytes32 (rtcp_ssrc h) = to_be_bytes32 (rtcp_ssrc h')"
    "to_be_bytes32 index = to_be_bytes32 index'"
    by (simp_all add: cm_rtcp_iv_def Let_def to_be_bytes32_def)
  then show "rtcp_ssrc h = rtcp_ssrc h'" "index = index'"
    by simp_all
qed

section \<open>Encryption is an involution behind the header\<close>

text \<open>The step both directions share: the key stream applied from position \<open>n\<close> on.\<close>

definition ctr_tail :: "crypto \<Rightarrow> aes_variant \<Rightarrow> bytes \<Rightarrow> bytes \<Rightarrow> nat \<Rightarrow> bytes \<Rightarrow> bytes result" where
  "ctr_tail C v key iv n pkt =
     and_then (slice_from pkt n) (\<lambda>payload.
     and_then (apply_keystream C v key iv payload) (\<lambda>payload. Ok (take n pkt @ payload)))"

lemma ctr_tail_shape:
  assumes "crypto_laws C" "ctr_tail C v key iv n pkt = Ok q"
  shows "length q = length pkt" "take n q = take n pkt"
  using assms by (auto simp: ctr_tail_def outcome_simps slice_from_def dest!: ctr_length split: if_splits)

lemma ctr_tail_involution:
  assumes "crypto_laws C" "ctr_tail C v key iv n pkt = Ok q"
  shows "ctr_tail C v key iv n q = Ok pkt"
proof -
  from assms(2) obtain c where n: "n \<le> length pkt" and c: "apply_keystream C v key iv (drop n pkt) = Ok c"
    and q: "q = take n pkt @ c"
    by (auto simp: ctr_tail_def outcome_simps slice_from_def split: if_splits)
  have "apply_keystream C v key iv c = Ok (drop n pkt)"
    using c assms(1) by (auto simp: outcome_simps intro: ctr_involution)
  then show ?thesis
    using n by (simp add: ctr_tail_def q)
qed

lemma ctr_tail_total:
  assumes "crypto_laws C" "length key = aes_key_len v" "length iv = 16" "n \<le> length pkt"
    "length pkt \<le> max_message"
  shows "\<exists>q. ctr_tail C v key iv n pkt = Ok q"
proof -
  from assms(5) have "length (drop n pkt) \<le> max_message" by simp
  from apply_keystream_total [OF assms(1-3) this] assms(4) show ?thesis
    by (auto simp: ctr_tail_def)
qed

lemma cm_variants:
  "\<not> is_gcm p \<Longrightarrow> 0 < key_len p \<Longrightarrow> \<exists>v. cm_rtp_variant p = Ok v \<and> aes_key_len v = key_len p"
  "\<not> tag_len p < 10 \<Longrightarrow> 0 < key_len p \<Longrightarrow> \<exists>v. cm_rtcp_variant p = Ok v \<and> aes_key_len v = key_len p"
  by (cases p; simp)+

text \<open>On a well-formed transform, both encryptions are \<open>ctr_tail\<close> under the right key and vector.\<close>

lemma cm_rtp_encrypt_eq:
  assumes "cm_ok t" "0 < key_len (cm_rtp_profile t)"
  obtains v key salt where "length key = aes_key_len v" "length salt = 14"
    "\<And>pkt h roc. cm_rtp_encrypt C t pkt h roc = ctr_tail C v key (cm_rtp_iv salt h roc) (header_len h) pkt"
proof -
  from assms obtain key salt where k: "ck_key (cm_rtp_key t) = Some key" "length key = key_len (cm_rtp_profile t)"
    "ck_salt (cm_rtp_key t) = Some salt" "length salt = 14"
    by (auto simp: cm_ok_def cm_keys_ok_def)
  from assms obtain v where v: "cm_rtp_variant (cm_rtp_profile t) = Ok v" "aes_key_len v = key_len (cm_rtp_profile t)"
    using cm_variants(1) by (auto simp: cm_ok_def)
  show thesis
    by (rule that [of key v salt]) (simp_all add: k v cm_rtp_encrypt_def ctr_tail_def Let_def)
qed

lemma cm_rtcp_encrypt_eq:
  assumes "cm_ok t" "0 < key_len (cm_rtcp_profile t)"
  obtains v key salt where "length key = aes_key_len v" "length salt = 14"
    "\<And>pkt h i. cm_rtcp_encrypt C t pkt h i = ctr_tail C v key (cm_rtcp_iv salt h i) rtcp_header_len pkt"
proof -
  from assms obtain key salt where k: "ck_key (cm_rtcp_key t) = Some key" "length key = key_len (cm_rtcp_profile t)"
    "ck_salt (cm_rtcp_key t) = Some salt" "length salt = 14"
    by (auto simp: cm_ok_def cm_keys_ok_def)
  from assms obtain v where v: "cm_rtcp_variant (cm_rtcp_profile t) = Ok v" "aes_key_len v = key_len (cm_rtcp_profile t)"
    using cm_variants(2) by (auto simp: cm_ok_def)
  show thesis
    by (rule that [of key v salt]) (simp_all add: k v cm_rtcp_encrypt_def ctr_tail_def Let_def)
qed

text \<open>Encryption where the profile asks for it, the identity where it does not.\<close>

definition cm_rtp_crypt :: "crypto \<Rightarrow> aes_cm_sha1 \<Rightarrow> bytes \<Rightarrow> rtp_header \<Rightarrow> u32 \<Rightarrow> bytes result" where
  "cm_rtp_crypt C t pkt h roc =
     (if 0 < key_len (cm_rtp_profile t) then cm_rtp_encrypt C t pkt h roc else Ok pkt)"

definition cm_rtcp_crypt :: "crypto \<Rightarrow> aes_cm_sha1 \<Rightarrow> bytes \<Rightarrow> rtcp_header \<Rightarrow> u32 \<Rightarrow> bytes result" where
  "cm_rtcp_crypt C t pkt h i =
     (if 0 < key_len (cm_rtcp_profile t) then cm_rtcp_encrypt C t pkt h i else Ok pkt)"

lemma cm_rtp_crypt_props:
  assumes C: "crypto_laws C" and t: "cm_ok t" and q: "cm_rtp_crypt C t pkt h roc = Ok q"
  shows "length q = length pkt" "take (header_len h) q = take (header_len h) pkt"
    "cm_rtp_crypt C t q h roc = Ok pkt"
proof (atomize(full), cases "0 < key_len (cm_rtp_profile t)")
  case True
  show "length q = length pkt \<and> take (header_len h) q = take (header_len h) pkt \<and>
      cm_rtp_crypt C t q h roc = Ok pkt"
  proof -
    obtain v key salt where eq:
        "\<And>pkt h roc. cm_rtp_encrypt C t pkt h roc = ctr_tail C v key (cm_rtp_iv salt h roc) (header_len h) pkt"
      using cm_rtp_encrypt_eq [OF t True, of C] by metis
    from q True have "ctr_tail C v key (cm_rtp_iv salt h roc) (header_len h) pkt = Ok q"
      by (simp add: cm_rtp_crypt_def eq)
    from ctr_tail_shape [OF C this] ctr_tail_involution [OF C this] True show ?thesis
      by (simp add: cm_rtp_crypt_def eq)
  qed
next
  case False
  with q show "length q = length pkt \<and> take (header_len h) q = take (header_len h) pkt \<and>
      cm_rtp_crypt C t q h roc = Ok pkt"
    by (simp add: cm_rtp_crypt_def)
qed

lemma cm_rtcp_crypt_props:
  assumes C: "crypto_laws C" and t: "cm_ok t" and q: "cm_rtcp_crypt C t pkt h i = Ok q"
  shows "length q = length pkt" "take rtcp_header_len q = take rtcp_header_len pkt"
    "cm_rtcp_crypt C t q h i = Ok pkt"
proof (atomize(full), cases "0 < key_len (cm_rtcp_profile t)")
  case True
  show "length q = length pkt \<and> take rtcp_header_len q = take rtcp_header_len pkt \<and>
      cm_rtcp_crypt C t q h i = Ok pkt"
  proof -
    obtain v key salt where eq:
        "\<And>pkt h i. cm_rtcp_encrypt C t pkt h i = ctr_tail C v key (cm_rtcp_iv salt h i) rtcp_header_len pkt"
      using cm_rtcp_encrypt_eq [OF t True, of C] by metis
    from q True have "ctr_tail C v key (cm_rtcp_iv salt h i) rtcp_header_len pkt = Ok q"
      by (simp add: cm_rtcp_crypt_def eq)
    from ctr_tail_shape [OF C this] ctr_tail_involution [OF C this] True show ?thesis
      by (simp add: cm_rtcp_crypt_def eq)
  qed
next
  case False
  with q show "length q = length pkt \<and> take rtcp_header_len q = take rtcp_header_len pkt \<and>
      cm_rtcp_crypt C t q h i = Ok pkt"
    by (simp add: cm_rtcp_crypt_def)
qed

lemma cm_rtp_crypt_total:
  assumes C: "crypto_laws C" and t: "cm_ok t" and "header_len h \<le> length pkt" "length pkt \<le> max_message"
  shows "\<exists>q. cm_rtp_crypt C t pkt h roc = Ok q"
proof (cases "0 < key_len (cm_rtp_profile t)")
  case True
  show ?thesis
    by (rule cm_rtp_encrypt_eq [OF t True, of C])
      (simp add: cm_rtp_crypt_def True ctr_tail_total [OF C] length_cm_rtp_iv assms)
qed (simp add: cm_rtp_crypt_def)

lemma cm_rtcp_crypt_total:
  assumes C: "crypto_laws C" and t: "cm_ok t" and "rtcp_header_len \<le> length pkt" "length pkt \<le> max_message"
  shows "\<exists>q. cm_rtcp_crypt C t pkt h i = Ok q"
proof (cases "0 < key_len (cm_rtcp_profile t)")
  case True
  show ?thesis
    by (rule cm_rtcp_encrypt_eq [OF t True, of C])
      (simp add: cm_rtcp_crypt_def True ctr_tail_total [OF C] length_cm_rtcp_iv assms)
qed (simp add: cm_rtcp_crypt_def)

section \<open>Tags\<close>

lemma cm_rtp_auth_tag_total:
  assumes "crypto_laws C" "cm_ok t" "0 < tag_len (cm_rtp_profile t)"
  shows "\<exists>tag. cm_rtp_auth_tag C t p roc = Ok tag \<and> length tag = tag_len (cm_rtp_profile t)"
proof -
  from assms obtain k where k: "ck_auth_key (cm_rtp_key t) = Some k"
    by (auto simp: cm_ok_def cm_keys_ok_def)
  obtain m where "hmac_sha1 C k (p @ to_be_bytes32 roc) = Some m" "length m = 20"
    using hmac_total [OF assms(1)] by blast
  with k tag_len_le [of "cm_rtp_profile t"] show ?thesis
    by (simp add: cm_rtp_auth_tag_def)
qed

lemma cm_rtcp_auth_tag_total:
  assumes "crypto_laws C" "cm_ok t"
  shows "\<exists>tag. cm_rtcp_auth_tag C t p = Ok tag \<and> length tag = tag_len (cm_rtcp_profile t)"
proof -
  from assms obtain k where k: "ck_auth_key (cm_rtcp_key t) = Some k"
    by (auto simp: cm_ok_def cm_keys_ok_def)
  obtain m where "hmac_sha1 C k p = Some m" "length m = 20"
    using hmac_total [OF assms(1)] by blast
  with k tag_len_le [of "cm_rtcp_profile t"] show ?thesis
    by (simp add: cm_rtcp_auth_tag_def)
qed

text \<open>The tag a packet must carry for RTP, the empty list where the profile has none.\<close>

definition cm_rtp_tag :: "crypto \<Rightarrow> aes_cm_sha1 \<Rightarrow> bytes \<Rightarrow> u32 \<Rightarrow> bytes result" where
  "cm_rtp_tag C t p roc =
     (if 0 < tag_len (cm_rtp_profile t) then cm_rtp_auth_tag C t p roc else Ok [])"

lemma cm_rtp_tag_total:
  assumes "crypto_laws C" "cm_ok t"
  shows "\<exists>tag. cm_rtp_tag C t p roc = Ok tag \<and> length tag = tag_len (cm_rtp_profile t)"
  using cm_rtp_auth_tag_total [OF assms] by (simp add: cm_rtp_tag_def)

section \<open>Protecting and unprotecting\<close>

text \<open>Protection is: encrypt behind the header, append the MKI, append the tag of the encrypted packet.\<close>

lemma cm_rtp_protect_eq:
  "cm_rtp_protect C t p h roc =
     and_then (cm_rtp_crypt C t p h roc) (\<lambda>body.
     and_then (cm_rtp_tag C t body roc) (\<lambda>tag. Ok (body @ mki_bytes (cm_mki t) @ tag)))"
  by (cases "cm_rtp_crypt C t p h roc")
    (simp_all add: cm_rtp_protect_def cm_rtp_crypt_def [symmetric] cm_rtp_tag_def)

definition rtcp_trailer_word :: "aes_cm_sha1 \<Rightarrow> u32 \<Rightarrow> u32" where
  "rtcp_trailer_word t index =
     (if 0 < key_len (cm_rtcp_profile t) then index OR 0x80000000 else index AND 0x7fffffff)"

lemma cm_rtcp_protect_eq:
  "cm_rtcp_protect C t p h index =
     and_then (cm_rtcp_crypt C t p h index) (\<lambda>body.
     and_then (cm_rtcp_auth_tag C t (body @ to_be_bytes32 (rtcp_trailer_word t index))) (\<lambda>tag.
     Ok (body @ to_be_bytes32 (rtcp_trailer_word t index) @ mki_bytes (cm_mki t) @ tag)))"
  by (simp add: cm_rtcp_protect_def cm_rtcp_crypt_def rtcp_trailer_word_def and_then_assoc)

lemma cm_rtp_unprotect_eq:
  assumes C: "crypto_laws C"
  shows "cm_rtp_unprotect C t c h roc =
     (let tlen = tag_len (cm_rtp_profile t);
          trailer = tlen + length (mki_bytes (cm_mki t));
          body = take (length c - trailer) c
      in if length c < header_len h + trailer then Err InvalidPacket
         else and_then (cm_rtp_tag C t body roc) (\<lambda>tag.
           if drop (length c - tlen) c = tag then cm_rtp_crypt C t body h roc else Err Authentication))"
  by (cases "cm_rtp_auth_tag C t
        (take (length c - (tag_len (cm_rtp_profile t) + length (mki_bytes (cm_mki t)))) c) roc")
    (auto simp: cm_rtp_unprotect_def Let_def cm_rtp_tag_def cm_rtp_crypt_def vec_truncate_def ct_eq_iff [OF C])

lemma cm_rtcp_unprotect_eq:
  assumes C: "crypto_laws C" and "4 \<le> trailer_len" "trailer_len \<le> length c"
    "tag_len (cm_rtcp_profile t) \<le> length c"
  shows "cm_rtcp_unprotect C t c h index trailer_len =
     and_then (cm_rtcp_auth_tag C t (take (length c - trailer_len + 4) c)) (\<lambda>tag.
       if drop (length c - tag_len (cm_rtcp_profile t)) c = tag
       then cm_rtcp_crypt C t (take (length c - trailer_len) c) h index else Err Authentication)"
  using assms(2-4)
  by (cases "cm_rtcp_auth_tag C t (take (length c - trailer_len + 4) c)")
    (auto simp: cm_rtcp_unprotect_def Let_def cm_rtcp_crypt_def vec_truncate_def ct_eq_iff [OF C])

lemma cm_rtp_protect_Ok:
  assumes C: "crypto_laws C" and t: "cm_ok t" and q: "cm_rtp_protect C t p h roc = Ok q"
  obtains body tag where "q = body @ mki_bytes (cm_mki t) @ tag" "cm_rtp_crypt C t p h roc = Ok body"
    "length body = length p" "take (header_len h) body = take (header_len h) p"
    "cm_rtp_tag C t body roc = Ok tag" "length tag = tag_len (cm_rtp_profile t)"
proof -
  from q obtain body tag where b: "cm_rtp_crypt C t p h roc = Ok body" and tag: "cm_rtp_tag C t body roc = Ok tag"
    and q': "q = body @ mki_bytes (cm_mki t) @ tag"
    by (auto simp: cm_rtp_protect_eq outcome_simps)
  from cm_rtp_tag_total [OF C t, of body roc] tag have "length tag = tag_len (cm_rtp_profile t)"
    by auto
  with b tag q' cm_rtp_crypt_props(1,2) [OF C t b] show thesis
    by (intro that)
qed

lemma cm_rtp_roundtrip:
  assumes C: "crypto_laws C" and t: "cm_ok t" and h: "header_len h \<le> length p"
    and q: "cm_rtp_protect C t p h roc = Ok q"
  shows "cm_rtp_unprotect C t q h roc = Ok p"
proof (rule cm_rtp_protect_Ok [OF C t q])
  fix body tag
  assume "q = body @ mki_bytes (cm_mki t) @ tag" and b: "cm_rtp_crypt C t p h roc = Ok body"
    and "length body = length p" "cm_rtp_tag C t body roc = Ok tag"
    "length tag = tag_len (cm_rtp_profile t)"
  moreover note cm_rtp_crypt_props(3) [OF C t b]
  ultimately show ?thesis
    using h by (simp add: cm_rtp_unprotect_eq [OF C])
qed

lemma cm_rtcp_protect_Ok:
  assumes C: "crypto_laws C" and t: "cm_ok t" and q: "cm_rtcp_protect C t p h i = Ok q"
  obtains body tag where
    "q = body @ to_be_bytes32 (rtcp_trailer_word t i) @ mki_bytes (cm_mki t) @ tag"
    "cm_rtcp_crypt C t p h i = Ok body"
    "length body = length p" "take rtcp_header_len body = take rtcp_header_len p"
    "cm_rtcp_auth_tag C t (body @ to_be_bytes32 (rtcp_trailer_word t i)) = Ok tag"
    "length tag = tag_len (cm_rtcp_profile t)"
proof -
  from q obtain body tag where b: "cm_rtcp_crypt C t p h i = Ok body"
    and tag: "cm_rtcp_auth_tag C t (body @ to_be_bytes32 (rtcp_trailer_word t i)) = Ok tag"
    and q': "q = body @ to_be_bytes32 (rtcp_trailer_word t i) @ mki_bytes (cm_mki t) @ tag"
    by (auto simp: cm_rtcp_protect_eq outcome_simps)
  from cm_rtcp_auth_tag_total [OF C t, of "body @ to_be_bytes32 (rtcp_trailer_word t i)"] tag
  have "length tag = tag_len (cm_rtcp_profile t)"
    by auto
  with b tag q' cm_rtcp_crypt_props(1,2) [OF C t b] show thesis
    by (intro that)
qed

lemma cm_rtcp_roundtrip:
  assumes C: "crypto_laws C" and t: "cm_ok t" and h: "rtcp_header_len \<le> length p"
    and q: "cm_rtcp_protect C t p h i = Ok q"
  shows "cm_rtcp_unprotect C t q h i
    (4 + tag_len (cm_rtcp_profile t) + length (mki_bytes (cm_mki t))) = Ok p"
proof (rule cm_rtcp_protect_Ok [OF C t q])
  fix body tag
  assume "q = body @ to_be_bytes32 (rtcp_trailer_word t i) @ mki_bytes (cm_mki t) @ tag"
    and b: "cm_rtcp_crypt C t p h i = Ok body" and "length body = length p"
    and "cm_rtcp_auth_tag C t (body @ to_be_bytes32 (rtcp_trailer_word t i)) = Ok tag"
    and "length tag = tag_len (cm_rtcp_profile t)"
  moreover note cm_rtcp_crypt_props(3) [OF C t b]
  ultimately show ?thesis
    by (subst cm_rtcp_unprotect_eq [OF C]) simp_all
qed

section \<open>No operation panics\<close>

lemma cm_rtp_protect_total:
  assumes C: "crypto_laws C" and t: "cm_ok t" and "header_len h \<le> length p" "length p \<le> max_message"
  shows "\<exists>q. cm_rtp_protect C t p h roc = Ok q"
proof -
  obtain body where "cm_rtp_crypt C t p h roc = Ok body"
    using cm_rtp_crypt_total [OF assms] by blast
  then show ?thesis
    using cm_rtp_tag_total [OF C t, of body roc] by (auto simp: cm_rtp_protect_eq)
qed

lemma cm_rtcp_protect_total:
  assumes C: "crypto_laws C" and t: "cm_ok t" and "rtcp_header_len \<le> length p" "length p \<le> max_message"
  shows "\<exists>q. cm_rtcp_protect C t p h i = Ok q"
proof -
  obtain body where "cm_rtcp_crypt C t p h i = Ok body"
    using cm_rtcp_crypt_total [OF assms] by blast
  then show ?thesis
    using cm_rtcp_auth_tag_total [OF C t] by (auto simp: cm_rtcp_protect_eq outcome_simps)
qed

lemma cm_rtp_unprotect_no_panic:
  assumes C: "crypto_laws C" and t: "cm_ok t" and len: "length c \<le> max_message"
  shows "cm_rtp_unprotect C t c h roc \<noteq> Panic"
proof (cases "length c < header_len h + (tag_len (cm_rtp_profile t) + length (mki_bytes (cm_mki t)))")
  case True
  then show ?thesis by (simp add: cm_rtp_unprotect_eq [OF C] Let_def)
next
  case False
  let ?body = "take (length c - (tag_len (cm_rtp_profile t) + length (mki_bytes (cm_mki t)))) c"
  obtain tag where "cm_rtp_tag C t ?body roc = Ok tag"
    using cm_rtp_tag_total [OF C t] by blast
  moreover have "header_len h \<le> length ?body" "length ?body \<le> max_message"
    using False len by simp_all
  from cm_rtp_crypt_total [OF C t this] obtain q where "cm_rtp_crypt C t ?body h roc = Ok q"
    by blast
  ultimately show ?thesis
    using False by (simp add: cm_rtp_unprotect_eq [OF C] Let_def)
qed

lemma cm_rtcp_unprotect_no_panic:
  assumes C: "crypto_laws C" and t: "cm_ok t" and len: "length c \<le> max_message"
    and trailer: "4 \<le> n" "rtcp_header_len + n \<le> length c"
  shows "cm_rtcp_unprotect C t c h i n \<noteq> Panic"
proof -
  have bounds: "n \<le> length c" "tag_len (cm_rtcp_profile t) \<le> length c"
    using trailer tag_len_le [of "cm_rtcp_profile t"]
    by (simp_all add: rtcp_header_len_def RTCP_MIN_SIZE_def)
  obtain tag where "cm_rtcp_auth_tag C t (take (length c - n + 4) c) = Ok tag"
    using cm_rtcp_auth_tag_total [OF C t] by blast
  moreover have "rtcp_header_len \<le> length (take (length c - n) c)"
    "length (take (length c - n) c) \<le> max_message"
    using trailer len by simp_all
  from cm_rtcp_crypt_total [OF C t this] obtain q where
    "cm_rtcp_crypt C t (take (length c - n) c) h i = Ok q" by blast
  ultimately show ?thesis
    using trailer bounds by (simp add: cm_rtcp_unprotect_eq [OF C])
qed

text \<open>A packet that is accepted carries the tag of its body: nothing unauthenticated is decrypted.\<close>

lemma cm_rtp_unprotect_authentic:
  assumes C: "crypto_laws C" and ok: "cm_rtp_unprotect C t c h roc = Ok p"
    and tag: "0 < tag_len (cm_rtp_profile t)"
  shows "\<exists>body m tag. c = body @ m @ tag \<and> length m = length (mki_bytes (cm_mki t)) \<and>
    cm_rtp_auth_tag C t body roc = Ok tag \<and> cm_rtp_crypt C t body h roc = Ok p"
proof -
  let ?tlen = "tag_len (cm_rtp_profile t)" and ?mlen = "length (mki_bytes (cm_mki t))"
  let ?body = "take (length c - (?tlen + ?mlen)) c"
  from ok tag have short: "?tlen + ?mlen \<le> length c"
    and t: "cm_rtp_auth_tag C t ?body roc = Ok (drop (length c - ?tlen) c)"
    and p: "cm_rtp_crypt C t ?body h roc = Ok p"
    by (auto simp: cm_rtp_unprotect_eq [OF C] Let_def outcome_simps cm_rtp_tag_def split: if_splits)
  from split_trailer [OF short]
  have "c = ?body @ take ?mlen (drop (length c - (?tlen + ?mlen)) c) @ drop (length c - ?tlen) c" .
  with t p short show ?thesis
    by (intro exI [of _ ?body] exI [of _ "take ?mlen (drop (length c - (?tlen + ?mlen)) c)"]
        exI [of _ "drop (length c - ?tlen) c"]) simp
qed

end
