(* ===== verification/Srtp_Aes_Gcm.thy ===== *)
theory Srtp_Aes_Gcm
  imports Srtp_Aes_Cm
begin

text \<open>
  The transform with AES-GCM, \<^verbatim>\<open>libsrtp/src/transform/aes_gcm.rs\<close>. The 16-byte tag is part of the
  payload; the trailer holds the RTCP index word and the MKI.
\<close>

definition AES_GCM_TAG_LEN :: nat where "AES_GCM_TAG_LEN = 16"

record gcm_session_keys =
  gk_key :: bytes
  gk_salt :: bytes

record aes_gcm =
  gcm_rtp_profile :: protection_profile
  gcm_rtcp_profile :: protection_profile
  gcm_rtp_key :: gcm_session_keys
  gcm_rtcp_key :: gcm_session_keys
  gcm_mki :: mki

section \<open>Construction\<close>

definition gcm_new ::
    "crypto \<Rightarrow> bytes \<Rightarrow> bytes \<Rightarrow> mki \<Rightarrow> protection_profile \<Rightarrow> protection_profile \<Rightarrow> aes_gcm result" where
  "gcm_new C mk master_salt mki rtp_profile rtcp_profile =
     (if \<not> (rtp_profile = AeadAes128Gcm \<or> rtp_profile = AeadAes256Gcm) then Err TransformDispatch
      else
        and_then (aes_cm_kdf C RtpSalt mk master_salt) (\<lambda>salt.
        let salt = vec_truncate salt (salt_len rtp_profile) in
        and_then (aes_cm_kdf C RtpEncrypt mk master_salt) (\<lambda>key.
        and_then (to_array 12 KdfDispatch salt) (\<lambda>salt.
        let rtp_keys = \<lparr>gk_key = key, gk_salt = salt\<rparr> in
        if \<not> (rtcp_profile = AeadAes128Gcm \<or> rtcp_profile = AeadAes256Gcm) then Err TransformDispatch
        else
          and_then (aes_cm_kdf C RtcpSalt mk master_salt) (\<lambda>salt.
          let salt = vec_truncate salt (salt_len rtcp_profile) in
          and_then (aes_cm_kdf C RtcpEncrypt mk master_salt) (\<lambda>key.
          and_then (to_array 12 KdfDispatch salt) (\<lambda>salt.
          let rtcp_keys = \<lparr>gk_key = key, gk_salt = salt\<rparr> in
          Ok \<lparr>gcm_rtp_profile = rtp_profile, gcm_rtcp_profile = rtcp_profile,
              gcm_rtp_key = rtp_keys, gcm_rtcp_key = rtcp_keys, gcm_mki = mki\<rparr>)))))))"

section \<open>Initialisation vectors\<close>

definition gcm_get_rtp_iv :: "aes_gcm \<Rightarrow> rtp_header \<Rightarrow> u32 \<Rightarrow> bytes" where
  "gcm_get_rtp_iv self header roc =
     (let iv = gk_salt (gcm_rtp_key self);
          iv = xor_at iv 2 (to_be_bytes32 (rtp_ssrc header));
          iv = xor_at iv 6 (to_be_bytes32 roc)
      in xor_at iv 10 (to_be_bytes16 (seq_num header)))"

definition gcm_get_rtcp_iv :: "aes_gcm \<Rightarrow> rtcp_header \<Rightarrow> u32 \<Rightarrow> bytes" where
  "gcm_get_rtcp_iv self header index =
     (let iv = gk_salt (gcm_rtcp_key self);
          iv = xor_at iv 2 (to_be_bytes32 (rtcp_ssrc header))
      in xor_at iv 8 (to_be_bytes32 index))"

section \<open>Encryption and decryption\<close>

text \<open>The \<^verbatim>\<open>match\<close> on a profile that selects the cipher.\<close>

fun gcm_variant :: "protection_profile \<Rightarrow> aes_variant result" where
  "gcm_variant AeadAes128Gcm = Ok Aes128"
| "gcm_variant AeadAes256Gcm = Ok Aes256"
| "gcm_variant _ = Err TransformDispatch"

definition gcm_rtp_encrypt ::
    "crypto \<Rightarrow> aes_gcm \<Rightarrow> bytes \<Rightarrow> rtp_header \<Rightarrow> u32 \<Rightarrow> bytes result" where
  "gcm_rtp_encrypt C self rtp_packet header roc =
     (let iv = gcm_get_rtp_iv self header roc in
      and_then (split_at rtp_packet (header_len header)) (\<lambda>(ad, payload).
      and_then (gcm_variant (gcm_rtp_profile self)) (\<lambda>v.
      and_then (encrypt_in_place_detached C v (gk_key (gcm_rtp_key self)) iv ad payload Encryption)
        (\<lambda>(payload, tag). Ok (ad @ payload @ tag)))))"

definition gcm_rtp_decrypt ::
    "crypto \<Rightarrow> aes_gcm \<Rightarrow> bytes \<Rightarrow> rtp_header \<Rightarrow> u32 \<Rightarrow> bytes result" where
  "gcm_rtp_decrypt C self srtp_packet header roc =
     (let iv = gcm_get_rtp_iv self header roc in
      and_then (split_at srtp_packet (header_len header)) (\<lambda>(ad, payload_tag).
      and_then (and_then (usize_sub (length payload_tag) AES_GCM_TAG_LEN) (split_at payload_tag))
        (\<lambda>(payload, tag).
      and_then (gcm_variant (gcm_rtp_profile self)) (\<lambda>v.
      and_then (decrypt_in_place_detached C v (gk_key (gcm_rtp_key self)) iv ad payload tag Authentication)
        (\<lambda>payload. Ok (ad @ payload))))))"

definition gcm_rtcp_encrypt ::
    "crypto \<Rightarrow> aes_gcm \<Rightarrow> bytes \<Rightarrow> rtcp_header \<Rightarrow> u32 \<Rightarrow> bytes \<Rightarrow> bytes result" where
  "gcm_rtcp_encrypt C self rtcp_packet header index esrtcp =
     (let iv = gcm_get_rtcp_iv self header index in
      and_then (split_at rtcp_packet rtcp_header_len) (\<lambda>(hd, payload).
      let ad = hd @ esrtcp in
      and_then (gcm_variant (gcm_rtcp_profile self)) (\<lambda>v.
      and_then (encrypt_in_place_detached C v (gk_key (gcm_rtcp_key self)) iv ad payload Encryption)
        (\<lambda>(payload, tag). Ok (hd @ payload @ tag)))))"

text \<open>The decryption selects the cipher with the RTP profile, as the code does.\<close>

definition gcm_rtcp_decrypt ::
    "crypto \<Rightarrow> aes_gcm \<Rightarrow> bytes \<Rightarrow> rtcp_header \<Rightarrow> u32 \<Rightarrow> bytes result" where
  "gcm_rtcp_decrypt C self srtcp_packet header index =
     (let iv = gcm_get_rtcp_iv self header index in
      and_then (split_at srtcp_packet rtcp_header_len) (\<lambda>(hd, payload_tag).
      and_then (and_then (usize_sub (length payload_tag) AES_GCM_TAG_LEN) (split_at payload_tag))
        (\<lambda>(payload, tag).
      let ad = hd @ to_be_bytes32 (index OR 0x80000000) in
      and_then (gcm_variant (gcm_rtp_profile self)) (\<lambda>v.
      and_then (decrypt_in_place_detached C v (gk_key (gcm_rtcp_key self)) iv ad payload tag Authentication)
        (\<lambda>payload. Ok (hd @ payload))))))"

section \<open>The operations of the trait\<close>

definition gcm_rtp_protect ::
    "crypto \<Rightarrow> aes_gcm \<Rightarrow> bytes \<Rightarrow> rtp_header \<Rightarrow> u32 \<Rightarrow> bytes result" where
  "gcm_rtp_protect C self plain header roc =
     and_then (gcm_rtp_encrypt C self plain header roc) (\<lambda>plain.
     Ok (plain @ mki_bytes (gcm_mki self)))"

definition gcm_rtcp_protect ::
    "crypto \<Rightarrow> aes_gcm \<Rightarrow> bytes \<Rightarrow> rtcp_header \<Rightarrow> u32 \<Rightarrow> bytes result" where
  "gcm_rtcp_protect C self plain header index =
     (let esrtcp = to_be_bytes32 (index OR 0x80000000) in
      and_then (gcm_rtcp_encrypt C self plain header index esrtcp) (\<lambda>plain.
      Ok (plain @ esrtcp @ mki_bytes (gcm_mki self))))"

definition gcm_rtp_unprotect ::
    "crypto \<Rightarrow> aes_gcm \<Rightarrow> bytes \<Rightarrow> rtp_header \<Rightarrow> u32 \<Rightarrow> bytes result" where
  "gcm_rtp_unprotect C self cipher header roc =
     (let trailer_len = length (mki_bytes (gcm_mki self)) in
      if length cipher < header_len header + trailer_len + AES_GCM_TAG_LEN then Err InvalidPacket
      else
        and_then (usize_sub (length cipher) trailer_len) (\<lambda>n.
        gcm_rtp_decrypt C self (vec_truncate cipher n) header roc))"

definition gcm_rtcp_unprotect ::
    "crypto \<Rightarrow> aes_gcm \<Rightarrow> bytes \<Rightarrow> rtcp_header \<Rightarrow> u32 \<Rightarrow> nat \<Rightarrow> bytes result" where
  "gcm_rtcp_unprotect C self cipher header index trailer_len =
     (if length cipher < rtcp_header_len + trailer_len + AES_GCM_TAG_LEN then Err InvalidPacket
      else
        and_then (usize_sub (length cipher) trailer_len) (\<lambda>n.
        gcm_rtcp_decrypt C self (vec_truncate cipher n) header index))"

section \<open>Well-formed transforms\<close>

definition gcm_ok :: "aes_gcm \<Rightarrow> bool" where
  "gcm_ok t \<longleftrightarrow> is_gcm (gcm_rtp_profile t) \<and> gcm_rtcp_profile t = gcm_rtp_profile t \<and>
     length (gk_key (gcm_rtp_key t)) = key_len (gcm_rtp_profile t) \<and> length (gk_salt (gcm_rtp_key t)) = 12 \<and>
     length (gk_key (gcm_rtcp_key t)) = key_len (gcm_rtp_profile t) \<and> length (gk_salt (gcm_rtcp_key t)) = 12"

lemma gcm_new_ok:
  assumes C: "crypto_laws C" and fits: "master_fits mk salt rtp" "master_fits mk salt rtcp"
    and gcm: "is_gcm rtp" "is_gcm rtcp"
  shows "\<exists>t. gcm_new C mk salt m rtp rtcp = Ok t \<and> gcm_ok t \<and> gcm_mki t = m \<and>
    gcm_rtp_profile t = rtp \<and> gcm_rtcp_profile t = rtcp"
proof -
  from fits(1) have mk: "length mk \<in> {16, 24, 32}" "length salt \<le> 16"
    by (simp_all add: master_fits_def)
  have "0 < key_len rtp" "0 < key_len rtcp"
    using gcm by (auto simp: is_gcm_iff)
  with fits have len: "key_len rtp = length mk" "key_len rtcp = length mk"
    by (simp_all add: master_fits_def)
  then have "rtcp = rtp"
    using gcm gcm_key_len_inj by metis
  with len(1) gcm(1) show ?thesis
    using aes_cm_kdf_total [OF C mk, of RtpEncrypt] aes_cm_kdf_total [OF C mk, of RtpSalt]
      aes_cm_kdf_total [OF C mk, of RtcpEncrypt] aes_cm_kdf_total [OF C mk, of RtcpSalt]
    by (auto simp: gcm_new_def gcm_ok_def is_gcm_iff vec_truncate_def to_array_def Let_def
        SESSION_SALT_SIZE_def)
qed

lemma gcm_variant_ok: "is_gcm p \<Longrightarrow> \<exists>v. gcm_variant p = Ok v \<and> aes_key_len v = key_len p"
  by (cases p) auto

lemma length12:
  assumes "length xs = 12"
  obtains a b c d e f g h i j k l where "xs = [a, b, c, d, e, f, g, h, i, j, k, l]"
  using assms by (auto simp: length_Suc_conv numeral_eq_Suc)

lemma length_gcm_iv [simp]:
  "length (gcm_get_rtp_iv t h roc) = length (gk_salt (gcm_rtp_key t))"
  "length (gcm_get_rtcp_iv t h' i) = length (gk_salt (gcm_rtcp_key t))"
  by (simp_all add: gcm_get_rtp_iv_def gcm_get_rtcp_iv_def Let_def)

lemma gcm_rtp_iv_inject:
  assumes "length (gk_salt (gcm_rtp_key t)) = 12" and "gcm_get_rtp_iv t h roc = gcm_get_rtp_iv t h' roc'"
  shows "rtp_ssrc h = rtp_ssrc h'" "roc = roc'" "seq_num h = seq_num h'"
proof -
  obtain a b c d e f g hh i j k l where "gk_salt (gcm_rtp_key t) = [a, b, c, d, e, f, g, hh, i, j, k, l]"
    using length12 [OF assms(1)] .
  with assms(2) have "to_be_bytes32 (rtp_ssrc h) = to_be_bytes32 (rtp_ssrc h')"
    "to_be_bytes32 roc = to_be_bytes32 roc'" "to_be_bytes16 (seq_num h) = to_be_bytes16 (seq_num h')"
    by (simp_all add: gcm_get_rtp_iv_def Let_def to_be_bytes32_def to_be_bytes16_def)
  then show "rtp_ssrc h = rtp_ssrc h'" "roc = roc'" "seq_num h = seq_num h'"
    by simp_all
qed

lemma gcm_rtcp_iv_inject:
  assumes "length (gk_salt (gcm_rtcp_key t)) = 12" and "gcm_get_rtcp_iv t h index = gcm_get_rtcp_iv t h' index'"
  shows "rtcp_ssrc h = rtcp_ssrc h'" "index = index'"
proof -
  obtain a b c d e f g hh i j k l where "gk_salt (gcm_rtcp_key t) = [a, b, c, d, e, f, g, hh, i, j, k, l]"
    using length12 [OF assms(1)] .
  with assms(2) have "to_be_bytes32 (rtcp_ssrc h) = to_be_bytes32 (rtcp_ssrc h')"
    "to_be_bytes32 index = to_be_bytes32 index'"
    by (simp_all add: gcm_get_rtcp_iv_def Let_def to_be_bytes32_def)
  then show "rtcp_ssrc h = rtcp_ssrc h'" "index = index'"
    by simp_all
qed

section \<open>The shape of a protected packet\<close>

text \<open>
  On a well-formed transform the calls to the cipher are \<open>gcm_encrypt\<close> and \<open>gcm_decrypt\<close> with fixed
  key and variant, on both sides.
\<close>

lemma gcm_rtp_eq:
  assumes t: "gcm_ok t"
  obtains v where
    "\<And>p h roc. header_len h \<le> length p \<Longrightarrow> gcm_rtp_encrypt C t p h roc =
       (case gcm_encrypt C v (gk_key (gcm_rtp_key t)) (gcm_get_rtp_iv t h roc)
               (take (header_len h) p) (drop (header_len h) p) of
          None \<Rightarrow> Err Encryption | Some (c, tag) \<Rightarrow> Ok (take (header_len h) p @ c @ tag))"
    "\<And>q h roc. header_len h + 16 \<le> length q \<Longrightarrow> gcm_rtp_decrypt C t q h roc =
       (case gcm_decrypt C v (gk_key (gcm_rtp_key t)) (gcm_get_rtp_iv t h roc) (take (header_len h) q)
               (take (length q - header_len h - 16) (drop (header_len h) q)) (drop (length q - 16) q) of
          None \<Rightarrow> Err Authentication | Some d \<Rightarrow> Ok (take (header_len h) q @ d))"
proof -
  from t obtain v where v: "gcm_variant (gcm_rtp_profile t) = Ok v" "aes_key_len v = key_len (gcm_rtp_profile t)"
    using gcm_variant_ok by (auto simp: gcm_ok_def)
  show thesis
  proof (rule that [of v])
    fix p :: bytes and h :: rtp_header and roc assume "header_len h \<le> length p"
    with t v show "gcm_rtp_encrypt C t p h roc =
       (case gcm_encrypt C v (gk_key (gcm_rtp_key t)) (gcm_get_rtp_iv t h roc)
               (take (header_len h) p) (drop (header_len h) p) of
          None \<Rightarrow> Err Encryption | Some (c, tag) \<Rightarrow> Ok (take (header_len h) p @ c @ tag))"
      by (simp add: gcm_rtp_encrypt_def encrypt_in_place_detached_def gcm_ok_def Let_def split: option.split)
  next
    fix q :: bytes and h :: rtp_header and roc assume len: "header_len h + 16 \<le> length q"
    then have "header_len h + (length q - header_len h - 16) = length q - 16" by simp
    with len t v show "gcm_rtp_decrypt C t q h roc =
       (case gcm_decrypt C v (gk_key (gcm_rtp_key t)) (gcm_get_rtp_iv t h roc) (take (header_len h) q)
               (take (length q - header_len h - 16) (drop (header_len h) q)) (drop (length q - 16) q) of
          None \<Rightarrow> Err Authentication | Some d \<Rightarrow> Ok (take (header_len h) q @ d))"
      by (simp add: gcm_rtp_decrypt_def decrypt_in_place_detached_def gcm_ok_def Let_def AES_GCM_TAG_LEN_def
          add.commute split: option.split)
  qed
qed

lemma gcm_rtcp_eq:
  assumes t: "gcm_ok t"
  obtains v where
    "\<And>p h i e. rtcp_header_len \<le> length p \<Longrightarrow> gcm_rtcp_encrypt C t p h i e =
       (case gcm_encrypt C v (gk_key (gcm_rtcp_key t)) (gcm_get_rtcp_iv t h i)
               (take rtcp_header_len p @ e) (drop rtcp_header_len p) of
          None \<Rightarrow> Err Encryption | Some (c, tag) \<Rightarrow> Ok (take rtcp_header_len p @ c @ tag))"
    "\<And>q h i. rtcp_header_len + 16 \<le> length q \<Longrightarrow> gcm_rtcp_decrypt C t q h i =
       (case gcm_decrypt C v (gk_key (gcm_rtcp_key t)) (gcm_get_rtcp_iv t h i)
               (take rtcp_header_len q @ to_be_bytes32 (i OR 0x80000000))
               (take (length q - rtcp_header_len - 16) (drop rtcp_header_len q)) (drop (length q - 16) q) of
          None \<Rightarrow> Err Authentication | Some d \<Rightarrow> Ok (take rtcp_header_len q @ d))"
proof -
  from t obtain v where v: "gcm_variant (gcm_rtp_profile t) = Ok v" "aes_key_len v = key_len (gcm_rtp_profile t)"
    using gcm_variant_ok by (auto simp: gcm_ok_def)
  show thesis
  proof (rule that [of v])
    fix p e :: bytes and h i assume "rtcp_header_len \<le> length p"
    with t v show "gcm_rtcp_encrypt C t p h i e =
       (case gcm_encrypt C v (gk_key (gcm_rtcp_key t)) (gcm_get_rtcp_iv t h i)
               (take rtcp_header_len p @ e) (drop rtcp_header_len p) of
          None \<Rightarrow> Err Encryption | Some (c, tag) \<Rightarrow> Ok (take rtcp_header_len p @ c @ tag))"
      by (simp add: gcm_rtcp_encrypt_def encrypt_in_place_detached_def gcm_ok_def Let_def split: option.split)
  next
    fix q :: bytes and h i assume len: "rtcp_header_len + 16 \<le> length q"
    then have "rtcp_header_len + (length q - rtcp_header_len - 16) = length q - 16" by simp
    with len t v show "gcm_rtcp_decrypt C t q h i =
       (case gcm_decrypt C v (gk_key (gcm_rtcp_key t)) (gcm_get_rtcp_iv t h i)
               (take rtcp_header_len q @ to_be_bytes32 (i OR 0x80000000))
               (take (length q - rtcp_header_len - 16) (drop rtcp_header_len q)) (drop (length q - 16) q) of
          None \<Rightarrow> Err Authentication | Some d \<Rightarrow> Ok (take rtcp_header_len q @ d))"
      by (simp add: gcm_rtcp_decrypt_def decrypt_in_place_detached_def gcm_ok_def Let_def AES_GCM_TAG_LEN_def
          add.commute split: option.split)
  qed
qed

lemma gcm_rtp_roundtrip:
  assumes C: "crypto_laws C" and t: "gcm_ok t" and h: "header_len h \<le> length p"
    and q: "gcm_rtp_protect C t p h roc = Ok q"
  shows "\<exists>body. q = take (header_len h) p @ body @ mki_bytes (gcm_mki t) \<and>
      length body = length p - header_len h + 16"
    and "gcm_rtp_unprotect C t q h roc = Ok p"
proof -
  obtain v where enc: "gcm_rtp_encrypt C t p h roc =
       (case gcm_encrypt C v (gk_key (gcm_rtp_key t)) (gcm_get_rtp_iv t h roc)
               (take (header_len h) p) (drop (header_len h) p) of
          None \<Rightarrow> Err Encryption | Some (c, tag) \<Rightarrow> Ok (take (header_len h) p @ c @ tag))"
    and dec: "\<And>q. header_len h + 16 \<le> length q \<Longrightarrow> gcm_rtp_decrypt C t q h roc =
       (case gcm_decrypt C v (gk_key (gcm_rtp_key t)) (gcm_get_rtp_iv t h roc) (take (header_len h) q)
               (take (length q - header_len h - 16) (drop (header_len h) q)) (drop (length q - 16) q) of
          None \<Rightarrow> Err Authentication | Some d \<Rightarrow> Ok (take (header_len h) q @ d))"
    using gcm_rtp_eq [OF t, of C] h by metis
  from q enc obtain c tag where
    ct: "gcm_encrypt C v (gk_key (gcm_rtp_key t)) (gcm_get_rtp_iv t h roc)
               (take (header_len h) p) (drop (header_len h) p) = Some (c, tag)"
    and q': "q = take (header_len h) p @ c @ tag @ mki_bytes (gcm_mki t)"
    by (auto simp: gcm_rtp_protect_def outcome_simps split: option.splits)
  note len = gcm_length [OF C ct]
  from len h q' show "\<exists>body. q = take (header_len h) p @ body @ mki_bytes (gcm_mki t) \<and>
      length body = length p - header_len h + 16"
    by (intro exI [of _ "c @ tag"]) simp
  have "gcm_rtp_decrypt C t (take (header_len h) p @ c @ tag) h roc = Ok p"
    using h len gcm_inverse [OF C ct] by (simp add: dec)
  then show "gcm_rtp_unprotect C t q h roc = Ok p"
    using h len by (simp add: gcm_rtp_unprotect_def q' vec_truncate_def AES_GCM_TAG_LEN_def)
qed

lemma gcm_rtcp_roundtrip:
  assumes C: "crypto_laws C" and t: "gcm_ok t" and h: "rtcp_header_len \<le> length p"
    and q: "gcm_rtcp_protect C t p h i = Ok q"
  shows "\<exists>body. q = take rtcp_header_len p @ body @ to_be_bytes32 (i OR 0x80000000) @ mki_bytes (gcm_mki t) \<and>
      length body = length p - rtcp_header_len + 16"
    and "gcm_rtcp_unprotect C t q h i (4 + length (mki_bytes (gcm_mki t))) = Ok p"
proof -
  let ?e = "to_be_bytes32 (i OR 0x80000000)"
  obtain v where enc: "gcm_rtcp_encrypt C t p h i ?e =
       (case gcm_encrypt C v (gk_key (gcm_rtcp_key t)) (gcm_get_rtcp_iv t h i)
               (take rtcp_header_len p @ ?e) (drop rtcp_header_len p) of
          None \<Rightarrow> Err Encryption | Some (c, tag) \<Rightarrow> Ok (take rtcp_header_len p @ c @ tag))"
    and dec: "\<And>q. rtcp_header_len + 16 \<le> length q \<Longrightarrow> gcm_rtcp_decrypt C t q h i =
       (case gcm_decrypt C v (gk_key (gcm_rtcp_key t)) (gcm_get_rtcp_iv t h i) (take rtcp_header_len q @ ?e)
               (take (length q - rtcp_header_len - 16) (drop rtcp_header_len q)) (drop (length q - 16) q) of
          None \<Rightarrow> Err Authentication | Some d \<Rightarrow> Ok (take rtcp_header_len q @ d))"
    using gcm_rtcp_eq [OF t, of C] h by metis
  from q enc obtain c tag where
    ct: "gcm_encrypt C v (gk_key (gcm_rtcp_key t)) (gcm_get_rtcp_iv t h i)
               (take rtcp_header_len p @ ?e) (drop rtcp_header_len p) = Some (c, tag)"
    and q': "q = take rtcp_header_len p @ c @ tag @ ?e @ mki_bytes (gcm_mki t)"
    by (auto simp: gcm_rtcp_protect_def Let_def outcome_simps split: option.splits)
  note len = gcm_length [OF C ct]
  from len h q' show "\<exists>body. q = take rtcp_header_len p @ body @ ?e @ mki_bytes (gcm_mki t) \<and>
      length body = length p - rtcp_header_len + 16"
    by (intro exI [of _ "c @ tag"]) simp
  have "gcm_rtcp_decrypt C t (take rtcp_header_len p @ c @ tag) h i = Ok p"
    using h len gcm_inverse [OF C ct] by (simp add: dec)
  then show "gcm_rtcp_unprotect C t q h i (4 + length (mki_bytes (gcm_mki t))) = Ok p"
    using h len by (simp add: gcm_rtcp_unprotect_def q' vec_truncate_def AES_GCM_TAG_LEN_def)
qed

section \<open>Protecting always succeeds, and no operation panics\<close>

lemma gcm_rtp_protect_total:
  assumes C: "crypto_laws C" and t: "gcm_ok t" and len: "header_len h \<le> length p" "length p \<le> max_message"
  shows "\<exists>q. gcm_rtp_protect C t p h roc = Ok q"
proof (rule gcm_rtp_eq [OF t, of C])
  fix v
  have "gcm_encrypt C v (gk_key (gcm_rtp_key t)) (gcm_get_rtp_iv t h roc) (take (header_len h) p)
      (drop (header_len h) p) \<noteq> None"
    by (rule gcm_total [OF C]) (use len in auto)
  moreover assume "\<And>p h roc. header_len h \<le> length p \<Longrightarrow> gcm_rtp_encrypt C t p h roc =
       (case gcm_encrypt C v (gk_key (gcm_rtp_key t)) (gcm_get_rtp_iv t h roc)
               (take (header_len h) p) (drop (header_len h) p) of
          None \<Rightarrow> Err Encryption | Some (c, tag) \<Rightarrow> Ok (take (header_len h) p @ c @ tag))"
  ultimately show ?thesis
    using len by (auto simp: gcm_rtp_protect_def)
qed

lemma gcm_rtcp_protect_total:
  assumes C: "crypto_laws C" and t: "gcm_ok t" and len: "rtcp_header_len \<le> length p" "length p \<le> max_message"
  shows "\<exists>q. gcm_rtcp_protect C t p h i = Ok q"
proof (rule gcm_rtcp_eq [OF t, of C])
  fix v
  let ?e = "to_be_bytes32 (i OR 0x80000000)"
  have "gcm_encrypt C v (gk_key (gcm_rtcp_key t)) (gcm_get_rtcp_iv t h i) (take rtcp_header_len p @ ?e)
      (drop rtcp_header_len p) \<noteq> None"
    by (rule gcm_total [OF C]) (use len in \<open>auto simp: rtcp_header_len_def RTCP_MIN_SIZE_def max_message_def\<close>)
  moreover assume "\<And>p h i e. rtcp_header_len \<le> length p \<Longrightarrow> gcm_rtcp_encrypt C t p h i e =
       (case gcm_encrypt C v (gk_key (gcm_rtcp_key t)) (gcm_get_rtcp_iv t h i)
               (take rtcp_header_len p @ e) (drop rtcp_header_len p) of
          None \<Rightarrow> Err Encryption | Some (c, tag) \<Rightarrow> Ok (take rtcp_header_len p @ c @ tag))"
  ultimately show ?thesis
    using len by (auto simp: gcm_rtcp_protect_def Let_def)
qed

lemma gcm_rtp_unprotect_no_panic:
  assumes t: "gcm_ok t"
  shows "gcm_rtp_unprotect C t c h roc \<noteq> Panic"
  by (rule gcm_rtp_eq [OF t, of C])
    (simp add: gcm_rtp_unprotect_def Let_def AES_GCM_TAG_LEN_def vec_truncate_def split: option.split)

lemma gcm_rtcp_unprotect_no_panic:
  assumes t: "gcm_ok t"
  shows "gcm_rtcp_unprotect C t c h i n \<noteq> Panic"
  by (rule gcm_rtcp_eq [OF t, of C])
    (simp add: gcm_rtcp_unprotect_def Let_def AES_GCM_TAG_LEN_def vec_truncate_def split: option.split)

end
