(* ===== verification/Srtp_Transform.thy ===== *)
theory Srtp_Transform
  imports Srtp_Aes_Gcm
begin

text \<open>
  The \<^verbatim>\<open>Transform\<close> trait of \<^verbatim>\<open>libsrtp/src/transform/mod.rs\<close>. The locale \<open>transform_contract\<close> is what
  a stream relies on: the layout of a protected packet, the inverse operation, that protecting
  succeeds and that no operation panics on the packets the streams pass. Both transforms are proved to satisfy it, and so
  is the trait object \<^verbatim>\<open>Box<dyn Transform>\<close>, the datatype \<open>transform\<close>. The lemmas of the locale are
  about the receiver's reading of a protected packet.
\<close>

section \<open>The contract\<close>

locale transform_contract =
  fixes ok :: "'t \<Rightarrow> bool"
    and rtp_protect :: "'t \<Rightarrow> bytes \<Rightarrow> rtp_header \<Rightarrow> u32 \<Rightarrow> bytes result"
    and rtcp_protect :: "'t \<Rightarrow> bytes \<Rightarrow> rtcp_header \<Rightarrow> u32 \<Rightarrow> bytes result"
    and rtp_unprotect :: "'t \<Rightarrow> bytes \<Rightarrow> rtp_header \<Rightarrow> u32 \<Rightarrow> bytes result"
    and rtcp_unprotect :: "'t \<Rightarrow> bytes \<Rightarrow> rtcp_header \<Rightarrow> u32 \<Rightarrow> nat \<Rightarrow> bytes result"
    and mki_of :: "'t \<Rightarrow> mki"
    and rtp_tlen :: "'t \<Rightarrow> nat"
    and rtcp_tlen :: "'t \<Rightarrow> nat"
  assumes rtp_shape:
      "ok t \<Longrightarrow> header_len h \<le> length p \<Longrightarrow> rtp_protect t p h roc = Ok q \<Longrightarrow>
       \<exists>body tag. q = take (header_len h) p @ body @ mki_bytes (mki_of t) @ tag \<and> length tag = rtp_tlen t"
    and rtp_roundtrip:
      "ok t \<Longrightarrow> header_len h \<le> length p \<Longrightarrow> rtp_protect t p h roc = Ok q \<Longrightarrow>
       rtp_unprotect t q h roc = Ok p"
    and rtcp_shape:
      "ok t \<Longrightarrow> rtcp_header_len \<le> length p \<Longrightarrow> rtcp_protect t p h' i = Ok q \<Longrightarrow>
       \<exists>body w tag. q = take rtcp_header_len p @ body @ to_be_bytes32 w @ mki_bytes (mki_of t) @ tag \<and>
         length tag = rtcp_tlen t \<and> w AND 0x7fffffff = i AND 0x7fffffff"
    and rtcp_roundtrip:
      "ok t \<Longrightarrow> rtcp_header_len \<le> length p \<Longrightarrow> rtcp_protect t p h' i = Ok q \<Longrightarrow>
       rtcp_unprotect t q h' i (4 + rtcp_tlen t + length (mki_bytes (mki_of t))) = Ok p"
    and rtp_protect_total:
      "ok t \<Longrightarrow> header_len h \<le> length p \<Longrightarrow> length p \<le> max_message \<Longrightarrow> \<exists>q. rtp_protect t p h roc = Ok q"
    and rtcp_protect_total:
      "ok t \<Longrightarrow> rtcp_header_len \<le> length p \<Longrightarrow> length p \<le> max_message \<Longrightarrow> \<exists>q. rtcp_protect t p h' i = Ok q"
    and rtp_unprotect_no_panic:
      "ok t \<Longrightarrow> length q \<le> max_message \<Longrightarrow> rtp_unprotect t q h roc \<noteq> Panic"
    and rtcp_unprotect_no_panic:
      "ok t \<Longrightarrow> length q \<le> max_message \<Longrightarrow> 4 \<le> n \<Longrightarrow> rtcp_header_len + n \<le> length q \<Longrightarrow>
       rtcp_unprotect t q h' i n \<noteq> Panic"
begin

lemma protect_no_panic:
  "ok t \<Longrightarrow> header_len h \<le> length p \<Longrightarrow> length p \<le> max_message \<Longrightarrow> rtp_protect t p h roc \<noteq> Panic"
  "ok t \<Longrightarrow> rtcp_header_len \<le> length p \<Longrightarrow> length p \<le> max_message \<Longrightarrow> rtcp_protect t p h' i \<noteq> Panic"
  using rtp_protect_total [of t h p roc] rtcp_protect_total [of t p h' i] by auto

text \<open>A protected packet has the header of the plain one.\<close>

lemma rtp_header_kept:
  assumes "ok t" "rtp_header_new p = Ok h" "rtp_protect t p h roc = Ok q"
  shows "rtp_header_new q = Ok h"
proof -
  note len = rtp_header_len_bounds(2) [OF assms(2)]
  from rtp_shape [OF assms(1) len assms(3)] obtain rest where "q = take (header_len h) p @ rest"
    by blast
  then show ?thesis
    using rtp_header_new_cong [OF assms(2), of q] len by simp
qed

lemma rtcp_header_kept:
  assumes "ok t" "rtcp_header_new p = Ok h" "rtcp_protect t p h i = Ok q"
  shows "rtcp_header_new q = Ok h"
proof -
  note len = rtcp_header_length [OF assms(2)]
  from rtcp_shape [OF assms(1) len assms(3)] obtain rest where "q = take rtcp_header_len p @ rest"
    by blast
  then show ?thesis
    using rtcp_header_new_cong [OF assms(2), of q] len by simp
qed

text \<open>The MKI is where a receiver with the same tag length looks for it.\<close>

lemma rtp_mki_position:
  assumes "ok t" "header_len h \<le> length p" "rtp_protect t p h roc = Ok q"
  defines "m \<equiv> length (mki_bytes (mki_of t))"
  shows "header_len h + m + rtp_tlen t \<le> length q"
    and "take m (drop (length q - rtp_tlen t - m) q) = mki_bytes (mki_of t)"
  using rtp_shape [OF assms(1-3)] assms(2) by (auto simp: m_def)

lemma rtcp_trailer_position:
  assumes "ok t" "rtcp_header_len \<le> length p" "rtcp_protect t p h i = Ok q"
  defines "m \<equiv> length (mki_bytes (mki_of t))"
  shows "rtcp_header_len + (4 + rtcp_tlen t + m) \<le> length q"
    and "take m (drop (length q - rtcp_tlen t - m) q) = mki_bytes (mki_of t)"
    and "be32 (take 4 (drop (length q - (4 + rtcp_tlen t + m)) q)) AND 0x7fffffff = i AND 0x7fffffff"
proof -
  from rtcp_shape [OF assms(1-3)] obtain body w tag where
    q: "q = take rtcp_header_len p @ body @ to_be_bytes32 w @ mki_bytes (mki_of t) @ tag"
    and tag: "length tag = rtcp_tlen t" and w: "w AND 0x7fffffff = i AND 0x7fffffff"
    by blast
  show "rtcp_header_len + (4 + rtcp_tlen t + m) \<le> length q"
    and "take m (drop (length q - rtcp_tlen t - m) q) = mki_bytes (mki_of t)"
    using assms(2) tag by (simp_all add: q m_def)
  let ?a = "take rtcp_header_len p @ body" and ?b = "mki_bytes (mki_of t) @ tag"
  have n: "length q - (4 + rtcp_tlen t + m) = length ?a"
    using tag by (simp add: q m_def)
  have "drop (length ?a) (?a @ to_be_bytes32 w @ ?b) = to_be_bytes32 w @ ?b"
    by (rule append_eq_conv_conj [THEN iffD1, THEN conjunct2, symmetric]) simp
  then have "drop (length q - (4 + rtcp_tlen t + m)) q = to_be_bytes32 w @ ?b"
    unfolding n by (simp only: q append_assoc)
  then show "be32 (take 4 (drop (length q - (4 + rtcp_tlen t + m)) q)) AND 0x7fffffff = i AND 0x7fffffff"
    by (simp add: w)
qed

end

section \<open>AES counter mode with HMAC-SHA1\<close>

lemma trailer_word_index: "rtcp_trailer_word t i AND 0x7fffffff = i AND 0x7fffffff"
proof -
  have "(0x80000000 :: u32) AND 0x7fffffff = 0" by simp
  then show ?thesis
    by (simp add: rtcp_trailer_word_def bit.conj_disj_distrib2 and.assoc)
qed

lemma esrtcp_index: "(i OR 0x80000000) AND 0x7fffffff = (i :: u32) AND 0x7fffffff"
proof -
  have "(0x80000000 :: u32) AND 0x7fffffff = 0" by simp
  then show ?thesis by (simp add: bit.conj_disj_distrib2)
qed

interpretation cm: transform_contract
    "\<lambda>t. crypto_laws C \<and> cm_ok t" "cm_rtp_protect C" "cm_rtcp_protect C" "cm_rtp_unprotect C"
    "cm_rtcp_unprotect C" cm_mki "\<lambda>t. tag_len (cm_rtp_profile t)" "\<lambda>t. tag_len (cm_rtcp_profile t)" for C
proof (unfold_locales, goal_cases)
  case (1 t h p roc q)
  then have "crypto_laws C" "cm_ok t" by simp_all
  then show ?case
    using 1(3)
  proof (rule cm_rtp_protect_Ok)
    fix body tag
    assume "q = body @ mki_bytes (cm_mki t) @ tag" "take (header_len h) body = take (header_len h) p"
      "length tag = tag_len (cm_rtp_profile t)"
    moreover have "body = take (header_len h) body @ drop (header_len h) body" by simp
    ultimately have "q = take (header_len h) p @ drop (header_len h) body @ mki_bytes (cm_mki t) @ tag"
      by (metis append_assoc)
    with \<open>length tag = _\<close> show ?thesis by blast
  qed
next
  case (3 t p h i q)
  then have "crypto_laws C" "cm_ok t" by simp_all
  then show ?case
    using 3(3)
  proof (rule cm_rtcp_protect_Ok)
    fix body tag
    assume "q = body @ to_be_bytes32 (rtcp_trailer_word t i) @ mki_bytes (cm_mki t) @ tag"
      "take rtcp_header_len body = take rtcp_header_len p" "length tag = tag_len (cm_rtcp_profile t)"
    moreover have "body = take rtcp_header_len body @ drop rtcp_header_len body" by simp
    ultimately have "q = take rtcp_header_len p @ drop rtcp_header_len body @
        to_be_bytes32 (rtcp_trailer_word t i) @ mki_bytes (cm_mki t) @ tag"
      by (metis append_assoc)
    with \<open>length tag = _\<close> trailer_word_index [of t i] show ?thesis by blast
  qed
next
  case 2 then show ?case by (auto intro: cm_rtp_roundtrip)
next
  case 4 then show ?case by (auto intro: cm_rtcp_roundtrip)
next
  case (5 t h p roc) then show ?case using cm_rtp_protect_total [of C t h p roc] by auto
next
  case (6 t p h i) then show ?case using cm_rtcp_protect_total [of C t p h i] by auto
next
  case 7 then show ?case by (simp add: cm_rtp_unprotect_no_panic)
next
  case 8 then show ?case by (simp add: cm_rtcp_unprotect_no_panic)
qed

section \<open>AES-GCM\<close>

interpretation gcm: transform_contract
    "\<lambda>t. crypto_laws C \<and> gcm_ok t" "gcm_rtp_protect C" "gcm_rtcp_protect C" "gcm_rtp_unprotect C"
    "gcm_rtcp_unprotect C" gcm_mki "\<lambda>t. 0" "\<lambda>t. 0" for C
proof (unfold_locales, goal_cases)
  case (1 t h p roc q)
  then show ?case using gcm_rtp_roundtrip(1) [of C t h p roc q] by auto
next
  case (2 t h p roc q)
  then show ?case using gcm_rtp_roundtrip(2) [of C t h p roc q] by auto
next
  case (3 t p h i q)
  then show ?case using gcm_rtcp_roundtrip(1) [of C t p h i q] esrtcp_index [of i] by auto
next
  case (4 t p h i q)
  then show ?case using gcm_rtcp_roundtrip(2) [of C t p h i q] by auto
next
  case (5 t h p roc)
  then show ?case by (auto intro: gcm_rtp_protect_total)
next
  case (6 t p h i)
  then show ?case by (auto intro: gcm_rtcp_protect_total)
qed (simp_all add: gcm_rtp_unprotect_no_panic gcm_rtcp_unprotect_no_panic)

section \<open>The trait object\<close>

datatype transform = CmSha1 aes_cm_sha1 | Gcm aes_gcm

fun transform_rtp_protect :: "crypto \<Rightarrow> transform \<Rightarrow> bytes \<Rightarrow> rtp_header \<Rightarrow> u32 \<Rightarrow> bytes result" where
  "transform_rtp_protect C (CmSha1 t) = cm_rtp_protect C t"
| "transform_rtp_protect C (Gcm t) = gcm_rtp_protect C t"

fun transform_rtcp_protect :: "crypto \<Rightarrow> transform \<Rightarrow> bytes \<Rightarrow> rtcp_header \<Rightarrow> u32 \<Rightarrow> bytes result" where
  "transform_rtcp_protect C (CmSha1 t) = cm_rtcp_protect C t"
| "transform_rtcp_protect C (Gcm t) = gcm_rtcp_protect C t"

fun transform_rtp_unprotect :: "crypto \<Rightarrow> transform \<Rightarrow> bytes \<Rightarrow> rtp_header \<Rightarrow> u32 \<Rightarrow> bytes result" where
  "transform_rtp_unprotect C (CmSha1 t) = cm_rtp_unprotect C t"
| "transform_rtp_unprotect C (Gcm t) = gcm_rtp_unprotect C t"

fun transform_rtcp_unprotect ::
    "crypto \<Rightarrow> transform \<Rightarrow> bytes \<Rightarrow> rtcp_header \<Rightarrow> u32 \<Rightarrow> nat \<Rightarrow> bytes result" where
  "transform_rtcp_unprotect C (CmSha1 t) = cm_rtcp_unprotect C t"
| "transform_rtcp_unprotect C (Gcm t) = gcm_rtcp_unprotect C t"

text \<open>\<^verbatim>\<open>equals\<close>: a downcast to the own type, then the derived equality.\<close>

fun transform_equals :: "transform \<Rightarrow> transform \<Rightarrow> bool" where
  "transform_equals (CmSha1 a) (CmSha1 b) \<longleftrightarrow> a = b"
| "transform_equals (Gcm a) (Gcm b) \<longleftrightarrow> a = b"
| "transform_equals _ _ \<longleftrightarrow> False"

lemma transform_equals_iff: "transform_equals a b \<longleftrightarrow> a = b"
  by (cases a; cases b) auto

fun transform_mki :: "transform \<Rightarrow> mki" where
  "transform_mki (CmSha1 t) = cm_mki t"
| "transform_mki (Gcm t) = gcm_mki t"

fun transform_profiles :: "transform \<Rightarrow> protection_profile \<times> protection_profile" where
  "transform_profiles (CmSha1 t) = (cm_rtp_profile t, cm_rtcp_profile t)"
| "transform_profiles (Gcm t) = (gcm_rtp_profile t, gcm_rtcp_profile t)"

definition transform_rtp_tlen :: "transform \<Rightarrow> nat" where
  "transform_rtp_tlen t = tag_len (fst (transform_profiles t))"

definition transform_rtcp_tlen :: "transform \<Rightarrow> nat" where
  "transform_rtcp_tlen t = tag_len (snd (transform_profiles t))"

fun transform_ok :: "transform \<Rightarrow> bool" where
  "transform_ok (CmSha1 t) \<longleftrightarrow> cm_ok t"
| "transform_ok (Gcm t) \<longleftrightarrow> gcm_ok t"

lemma tlen_simps [simp]:
  "transform_rtp_tlen (CmSha1 t) = tag_len (cm_rtp_profile t)"
  "transform_rtcp_tlen (CmSha1 t) = tag_len (cm_rtcp_profile t)"
  by (simp_all add: transform_rtp_tlen_def transform_rtcp_tlen_def)

lemma gcm_tlen:
  "gcm_ok t \<Longrightarrow> transform_rtp_tlen (Gcm t) = 0"
  "gcm_ok t \<Longrightarrow> transform_rtcp_tlen (Gcm t) = 0"
  by (auto simp: transform_rtp_tlen_def transform_rtcp_tlen_def gcm_ok_def is_gcm_iff)

interpretation dyn: transform_contract
    "\<lambda>t. crypto_laws C \<and> transform_ok t" "transform_rtp_protect C" "transform_rtcp_protect C"
    "transform_rtp_unprotect C" "transform_rtcp_unprotect C" transform_mki transform_rtp_tlen
    transform_rtcp_tlen for C
proof (unfold_locales, goal_cases)
  case (1 t h p roc q)
  then show ?case
    using cm.rtp_shape [of C _ h p roc q] gcm.rtp_shape [of C _ h p roc q]
    by (cases t) (auto simp: gcm_tlen)
next
  case (2 t h p roc q)
  then show ?case by (cases t) (auto intro: cm.rtp_roundtrip gcm.rtp_roundtrip)
next
  case (3 t p h i q)
  then show ?case
    using cm.rtcp_shape [of C _ p h i q] gcm.rtcp_shape [of C _ p h i q]
    by (cases t) (auto simp: gcm_tlen)
next
  case (4 t p h i q)
  then show ?case
    using cm.rtcp_roundtrip [of C _ p h i q] gcm.rtcp_roundtrip [of C _ p h i q]
    by (cases t) (auto simp: gcm_tlen)
next
  case (5 t h p roc)
  then show ?case by (cases t) (simp_all add: cm.rtp_protect_total gcm.rtp_protect_total)
next
  case (6 t p h i)
  then show ?case by (cases t) (simp_all add: cm.rtcp_protect_total gcm.rtcp_protect_total)
next
  case (7 t q h roc)
  then show ?case by (cases t) (simp_all add: cm.rtp_unprotect_no_panic gcm.rtp_unprotect_no_panic)
next
  case (8 t q n h i)
  then show ?case by (cases t) (simp_all add: cm.rtcp_unprotect_no_panic gcm.rtcp_unprotect_no_panic)
qed

end
