(* ===== verification/Srtp_Stream.thy ===== *)
theory Srtp_Stream
  imports Srtp_Config Srtp_Replay Srtp_Transform
begin

text \<open>
  The streams of \<^verbatim>\<open>libsrtp/src/stream.rs\<close>: \<^verbatim>\<open>BaseStream\<close>, \<^verbatim>\<open>SendStream\<close> and
  \<^verbatim>\<open>RecvStream\<close>, translated operation by operation. A method on \<^verbatim>\<open>&mut self\<close> returns the new
  stream, the calls of the key limit handler in their order, and its outcome. \<open>B\<close> and \<open>C\<close> are the
  external operations. The iteration order of a \<^verbatim>\<open>HashMap\<close> is an argument of the operation that
  iterates.
\<close>

section \<open>Transforms of a configuration\<close>

type_synonym transforms = "mki \<rightharpoonup> transform \<times> keys_lifetime"

text \<open>The loop of \<^verbatim>\<open>get_transforms\<close> over the keys; \<open>new\<close> is the constructor of the family.\<close>

fun insert_transforms ::
    "(master_key \<Rightarrow> transform result) \<Rightarrow> master_key list \<Rightarrow> transforms \<Rightarrow> transforms result" where
  "insert_transforms new [] ts = Ok ts"
| "insert_transforms new (k # ks) ts =
     and_then (new k) (\<lambda>t. insert_transforms new ks (ts(mk_mki k \<mapsto> (t, mk_lifetime k))))"

definition new_transform :: "crypto \<Rightarrow> stream_config \<Rightarrow> master_key \<Rightarrow> transform result" where
  "new_transform C cfg k =
     (if is_gcm (sc_rtp_profile cfg)
      then and_then (gcm_new C (mk_key k) (mk_salt k) (mk_mki k) (sc_rtp_profile cfg) (sc_rtcp_profile cfg))
             (\<lambda>t. Ok (Gcm t))
      else and_then (cm_new C (mk_key k) (mk_salt k) (mk_mki k) (sc_rtp_profile cfg) (sc_rtcp_profile cfg))
             (\<lambda>t. Ok (CmSha1 t)))"

definition get_transforms :: "crypto \<Rightarrow> stream_config \<Rightarrow> transforms result" where
  "get_transforms C cfg = insert_transforms (new_transform C cfg) (sc_keys cfg) Map.empty"

section \<open>The base stream\<close>

record 'b base_stream =
  b_ssrc :: u32
  b_transforms :: transforms
  b_mki_len :: nat
  b_rtp_index :: "'b rtp_replay_db"
  b_key_limit_handler :: bool
  b_allow_send_repeat :: bool

definition base_new :: "'b biguint \<Rightarrow> crypto \<Rightarrow> u32 \<Rightarrow> stream_config \<Rightarrow> bool \<Rightarrow> 'b base_stream result" where
  "base_new B C ssrc cfg handler =
     and_then (get_transforms C cfg) (\<lambda>ts.
     and_then (slice_at (sc_keys cfg) 0) (\<lambda>k.
     Ok \<lparr>b_ssrc = ssrc, b_transforms = ts,
         b_mki_len = (case mk_mki k of None \<Rightarrow> 0 | Some m \<Rightarrow> length m),
         b_rtp_index = rtp_replay_new B (sc_replay_window_size cfg),
         b_key_limit_handler = handler, b_allow_send_repeat = sc_allow_send_repeat cfg\<rparr>))"

text \<open>
  The merge loop of \<^verbatim>\<open>update\<close>, over the new transforms in the order \<open>ms\<close> of their map: an
  unequal transform under a known MKI stops it, with the entries before it already merged.
\<close>

fun merge_transforms :: "transforms \<Rightarrow> mki list \<Rightarrow> transforms \<Rightarrow> transforms \<times> unit result" where
  "merge_transforms new [] ts = (ts, Ok ())"
| "merge_transforms new (m # ms) ts =
     (case new m of
        None \<Rightarrow> merge_transforms new ms ts
      | Some (t, lives) \<Rightarrow>
          (case ts m of
             None \<Rightarrow> merge_transforms new ms (ts(m \<mapsto> (t, lives)))
           | Some (t', _) \<Rightarrow>
               if \<not> transform_equals t t' then (ts, Err InvalidProfile)
               else merge_transforms new ms ts))"

definition mki_policy :: "nat \<Rightarrow> mki \<Rightarrow> unit result" where
  "mki_policy mki_len m =
     (case m of
        None \<Rightarrow> if 0 < mki_len then Err InvalidProfile else Ok ()
      | Some i \<Rightarrow> if length i \<noteq> mki_len then Err InvalidProfile else Ok ())"

definition base_update ::
    "'b biguint \<Rightarrow> crypto \<Rightarrow> mki list \<Rightarrow> stream_config \<Rightarrow> 'b base_stream \<Rightarrow> 'b base_stream \<times> unit result" where
  "base_update B C order cfg s =
     (case and_then (slice_at (sc_keys cfg) 0) (\<lambda>k.
           and_then (mki_policy (b_mki_len s) (mk_mki k)) (\<lambda>_.
           get_transforms C cfg)) of
        Err e \<Rightarrow> (s, Err e)
      | Panic \<Rightarrow> (s, Panic)
      | Ok new_transforms \<Rightarrow>
          (case merge_transforms new_transforms order (b_transforms s) of
             (ts, Ok _) \<Rightarrow>
               (s\<lparr>b_transforms := ts,
                  b_rtp_index := rtp_set_window_size B (b_rtp_index s) (sc_replay_window_size cfg),
                  b_allow_send_repeat := sc_allow_send_repeat cfg\<rparr>, Ok ())
           | (ts, r) \<Rightarrow> (s\<lparr>b_transforms := ts\<rparr>, r)))"

definition base_get_mki_len :: "'b base_stream \<Rightarrow> nat" where
  "base_get_mki_len s = b_mki_len s"

definition base_get_roc :: "'b base_stream \<Rightarrow> u32" where
  "base_get_roc s = rtp_get_roc (b_rtp_index s)"

definition check_key_limit :: "'b base_stream \<Rightarrow> bool \<Rightarrow> mki \<Rightarrow> srtp_error list \<times> unit result" where
  "check_key_limit s is_rtp m =
     (case b_transforms s m of
        None \<Rightarrow> ([], Err InvalidMki)
      | Some (_, l) \<Rightarrow>
          let (lifetime, limit) =
                (if is_rtp then (l_rtp l, l_rtp_limit l)
                 else (ucast (l_rtcp l) :: u64, ucast (l_rtcp_limit l) :: u64));
              calls = (if lifetime \<le> limit \<and> b_key_limit_handler s
                       then [KeyLimit is_rtp (lifetime = 0) m (b_ssrc s)] else [])
          in (calls, if lifetime = 0 then Err (KeyLimit is_rtp True m (b_ssrc s)) else Ok ()))"

definition base_kill_session_keys :: "mki \<Rightarrow> 'b base_stream \<Rightarrow> 'b base_stream \<times> unit result" where
  "base_kill_session_keys m s =
     (case b_transforms s m of
        None \<Rightarrow> (s, Err InvalidMki)
      | Some (t, l) \<Rightarrow>
          (s\<lparr>b_transforms := (b_transforms s)(m \<mapsto> (t, l\<lparr>l_rtp := 0, l_rtcp := 0\<rparr>))\<rparr>, Ok ()))"

section \<open>The sending stream\<close>

record 'b send_stream =
  s_base :: "'b base_stream"
  s_rtcp_index :: u32

definition send_new :: "'b biguint \<Rightarrow> crypto \<Rightarrow> u32 \<Rightarrow> stream_config \<Rightarrow> bool \<Rightarrow> 'b send_stream result" where
  "send_new B C ssrc cfg handler =
     and_then (base_new B C ssrc cfg handler) (\<lambda>b. Ok \<lparr>s_base = b, s_rtcp_index = 0\<rparr>)"

definition send_update ::
    "'b biguint \<Rightarrow> crypto \<Rightarrow> mki list \<Rightarrow> stream_config \<Rightarrow> 'b send_stream \<Rightarrow> 'b send_stream \<times> unit result" where
  "send_update B C order cfg s =
     (let (b, r) = base_update B C order cfg (s_base s) in (s\<lparr>s_base := b\<rparr>, r))"

definition send_get_roc :: "'b send_stream \<Rightarrow> u32" where
  "send_get_roc s = base_get_roc (s_base s)"

definition send_kill_session_keys :: "mki \<Rightarrow> 'b send_stream \<Rightarrow> 'b send_stream \<times> unit result" where
  "send_kill_session_keys m s =
     (let (b, r) = base_kill_session_keys m (s_base s) in (s\<lparr>s_base := b\<rparr>, r))"

definition send_rtp_protect ::
    "'b biguint \<Rightarrow> crypto \<Rightarrow> rtp_header \<Rightarrow> bytes \<Rightarrow> mki \<Rightarrow> 'b send_stream \<Rightarrow>
     'b send_stream \<times> srtp_error list \<times> bytes result" where
  "send_rtp_protect B C header plain m s =
     (let b = s_base s; index = rtp_estimate_index (b_rtp_index b) (seq_num header) in
      if \<not> b_allow_send_repeat b \<and> rtp_seen_index B (b_rtp_index b) index
      then (s, [], Err InvalidPacketIndex)
      else
        let (calls, limit) = check_key_limit b True m in
        try_in s calls limit (\<lambda>_.
        try_in s calls (ok_or (b_transforms b m) InvalidMki) (\<lambda>(transform, lives).
        try_in s calls (transform_rtp_protect C transform plain header (ucast (drop_bit 16 index))) (\<lambda>cipher.
        try_in s calls (decrease_rtp lives) (\<lambda>lives.
        let b = b\<lparr>b_transforms := (b_transforms b)(m \<mapsto> (transform, lives))\<rparr>;
            b = b\<lparr>b_rtp_index := rtp_add_index B (b_rtp_index b) index\<rparr>
        in (s\<lparr>s_base := b\<rparr>, calls, Ok cipher))))))"

definition send_rtcp_protect ::
    "crypto \<Rightarrow> rtcp_header \<Rightarrow> bytes \<Rightarrow> mki \<Rightarrow> 'b send_stream \<Rightarrow>
     'b send_stream \<times> srtp_error list \<times> bytes result" where
  "send_rtcp_protect C header plain m s =
     (let b = s_base s; (calls, limit) = check_key_limit b False m in
      try_in s calls limit (\<lambda>_.
      try_in s calls (ok_or (b_transforms b m) InvalidMki) (\<lambda>(transform, lives).
      try_in s calls (transform_rtcp_protect C transform plain header (s_rtcp_index s)) (\<lambda>res.
      try_in s calls (decrease_rtcp lives) (\<lambda>lives.
      let b = b\<lparr>b_transforms := (b_transforms b)(m \<mapsto> (transform, lives))\<rparr>
      in (s\<lparr>s_base := b, s_rtcp_index := (s_rtcp_index s + 1) AND 0x7fffffff\<rparr>, calls, Ok res))))))"

section \<open>The receiving stream\<close>

record 'b recv_stream =
  v_base :: "'b base_stream"
  v_rtcp_index :: "'b rtcp_replay_db"
  v_rtp_tag_len :: nat
  v_rtcp_tag_len :: nat

definition recv_new :: "'b biguint \<Rightarrow> crypto \<Rightarrow> u32 \<Rightarrow> stream_config \<Rightarrow> bool \<Rightarrow> 'b recv_stream result" where
  "recv_new B C ssrc cfg handler =
     and_then (base_new B C ssrc cfg handler) (\<lambda>b.
     Ok \<lparr>v_base = b, v_rtcp_index = rtcp_replay_new B (sc_replay_window_size cfg),
         v_rtp_tag_len = tag_len (sc_rtp_profile cfg), v_rtcp_tag_len = tag_len (sc_rtcp_profile cfg)\<rparr>)"

definition recv_update ::
    "'b biguint \<Rightarrow> crypto \<Rightarrow> mki list \<Rightarrow> stream_config \<Rightarrow> 'b recv_stream \<Rightarrow> 'b recv_stream \<times> unit result" where
  "recv_update B C order cfg s =
     (case base_update B C order cfg (v_base s) of
        (b, Ok _) \<Rightarrow>
          (s\<lparr>v_base := b,
             v_rtcp_index := rtcp_set_window_size B (v_rtcp_index s) (sc_replay_window_size cfg)\<rparr>, Ok ())
      | (b, r) \<Rightarrow> (s\<lparr>v_base := b\<rparr>, r))"

definition recv_get_roc :: "'b recv_stream \<Rightarrow> u32" where
  "recv_get_roc s = base_get_roc (v_base s)"

definition recv_kill_session_keys :: "mki \<Rightarrow> 'b recv_stream \<Rightarrow> 'b recv_stream \<times> unit result" where
  "recv_kill_session_keys m s =
     (let (b, r) = base_kill_session_keys m (v_base s) in (s\<lparr>v_base := b\<rparr>, r))"

definition recv_get_mki :: "'b recv_stream \<Rightarrow> bytes \<Rightarrow> nat \<Rightarrow> bool \<Rightarrow> mki result" where
  "recv_get_mki s cipher hlen is_rtp =
     (let mki_len = base_get_mki_len (v_base s) in
      if mki_len = 0 then Ok None
      else
        let tag_len = (if is_rtp then v_rtp_tag_len s else v_rtcp_tag_len s) in
        if length cipher < hlen + mki_len + tag_len then Err InvalidPacket
        else
          and_then (usize_sub (length cipher) tag_len) (\<lambda>hi.
          and_then (usize_sub hi mki_len) (\<lambda>lo.
          and_then (slice_range cipher lo hi) (\<lambda>m. Ok (Some m)))))"

definition recv_set_roc :: "u32 \<Rightarrow> 'b recv_stream \<Rightarrow> 'b recv_stream \<times> unit result" where
  "recv_set_roc roc s =
     (if roc < recv_get_roc s then (s, Err InvalidPacketIndex)
      else (s\<lparr>v_base := (v_base s)\<lparr>b_rtp_index := rtp_set_roc (b_rtp_index (v_base s)) roc\<rparr>\<rparr>, Ok ()))"

definition recv_rtp_unprotect ::
    "'b biguint \<Rightarrow> crypto \<Rightarrow> rtp_header \<Rightarrow> bytes \<Rightarrow> 'b recv_stream \<Rightarrow>
     'b recv_stream \<times> srtp_error list \<times> bytes result" where
  "recv_rtp_unprotect B C header cipher s =
     (let b = v_base s; index = rtp_estimate_index (b_rtp_index b) (seq_num header) in
      if rtp_seen_index B (b_rtp_index b) index then (s, [], Err InvalidPacketIndex)
      else
        try_in s [] (recv_get_mki s cipher (header_len header) True) (\<lambda>m.
        let (calls, limit) = check_key_limit b True m in
        try_in s calls limit (\<lambda>_.
        try_in s calls (ok_or (b_transforms b m) InvalidMki) (\<lambda>(transform, lives).
        try_in s calls (transform_rtp_unprotect C transform cipher header (ucast (drop_bit 16 index))) (\<lambda>res.
        try_in s calls (decrease_rtp lives) (\<lambda>lives.
        let b = b\<lparr>b_transforms := (b_transforms b)(m \<mapsto> (transform, lives))\<rparr>;
            b = b\<lparr>b_rtp_index := rtp_add_index B (b_rtp_index b) index\<rparr>
        in (s\<lparr>v_base := b\<rparr>, calls, Ok res)))))))"

definition recv_rtcp_unprotect ::
    "'b biguint \<Rightarrow> crypto \<Rightarrow> rtcp_header \<Rightarrow> bytes \<Rightarrow> 'b recv_stream \<Rightarrow>
     'b recv_stream \<times> srtp_error list \<times> bytes result" where
  "recv_rtcp_unprotect B C header cipher s =
     (let b = v_base s; trailer_len = 4 + v_rtcp_tag_len s + base_get_mki_len b in
      if length cipher < rtcp_header_len + trailer_len then (s, [], Err InvalidPacket)
      else
        try_in s [] (usize_sub (length cipher) trailer_len) (\<lambda>pos.
        try_in s [] (and_then (slice_at cipher pos) (\<lambda>b0.
                     and_then (slice_at cipher (pos + 1)) (\<lambda>b1.
                     and_then (slice_at cipher (pos + 2)) (\<lambda>b2.
                     and_then (slice_at cipher (pos + 3)) (\<lambda>b3.
                     Ok (from_be_bytes32 b0 b1 b2 b3 AND 0x7fffffff)))))) (\<lambda>index.
        if rtcp_seen_index B (v_rtcp_index s) index then (s, [], Err InvalidPacketIndex)
        else
          try_in s [] (recv_get_mki s cipher rtcp_header_len False) (\<lambda>m.
          let (calls, limit) = check_key_limit b False m in
          try_in s calls limit (\<lambda>_.
          try_in s calls (ok_or (b_transforms b m) InvalidMki) (\<lambda>(transform, lives).
          try_in s calls (transform_rtcp_unprotect C transform cipher header index trailer_len) (\<lambda>res.
          try_in s calls (decrease_rtcp lives) (\<lambda>lives.
          let b = b\<lparr>b_transforms := (b_transforms b)(m \<mapsto> (transform, lives))\<rparr>
          in (s\<lparr>v_base := b, v_rtcp_index := rtcp_add_index B (v_rtcp_index s) index\<rparr>, calls, Ok res)))))))))"

section \<open>What a configuration yields\<close>

lemma insert_transforms_total:
  "(\<And>k. k \<in> set ks \<Longrightarrow> \<exists>t. new k = Ok t) \<Longrightarrow> \<exists>ts'. insert_transforms new ks ts = Ok ts'"
  by (induction ks arbitrary: ts) fastforce+

lemma insert_transforms_dom:
  "insert_transforms new ks ts = Ok ts' \<Longrightarrow> dom ts' = dom ts \<union> mk_mki ` set ks"
proof (induction ks arbitrary: ts)
  case Nil
  then show ?case by simp
next
  case (Cons k ks)
  then obtain t where "insert_transforms new ks (ts(mk_mki k \<mapsto> (t, mk_lifetime k))) = Ok ts'"
    by (auto simp: outcome_simps)
  from Cons.IH [OF this] show ?case by auto
qed

lemma insert_transforms_entry:
  "insert_transforms new ks ts = Ok ts' \<Longrightarrow> ts' m = Some (t, l) \<Longrightarrow>
   ts m = Some (t, l) \<or> (\<exists>k \<in> set ks. mk_mki k = m \<and> new k = Ok t \<and> mk_lifetime k = l)"
  by (induction ks arbitrary: ts) (fastforce simp: outcome_simps split: if_splits)+

lemma get_transforms_dom: "get_transforms C cfg = Ok ts \<Longrightarrow> dom ts = mk_mki ` set (sc_keys cfg)"
  unfolding get_transforms_def by (drule insert_transforms_dom) simp

lemma get_transforms_entry:
  "get_transforms C cfg = Ok ts \<Longrightarrow> ts m = Some (t, l) \<Longrightarrow>
   \<exists>k \<in> set (sc_keys cfg). mk_mki k = m \<and> new_transform C cfg k = Ok t \<and> mk_lifetime k = l"
  unfolding get_transforms_def by (drule (1) insert_transforms_entry) simp

definition config_ok :: "stream_config \<Rightarrow> bool" where
  "config_ok cfg \<longleftrightarrow> valid_config cfg \<and> (\<forall>k \<in> set (sc_keys cfg). lifetime_ok (mk_lifetime k))"

lemma sizes_fit_master:
  "sizes_fit p (length mk) (length salt) \<Longrightarrow> master_fits mk salt p"
  using salt_len_eq [of p] by (auto simp: sizes_fit_def master_fits_def split: if_splits)

lemma valid_config_fits:
  assumes "valid_config cfg" "k \<in> set (sc_keys cfg)"
  shows "master_fits (mk_key k) (mk_salt k) (sc_rtp_profile cfg)"
    and "master_fits (mk_key k) (mk_salt k) (sc_rtcp_profile cfg)"
  using assms by (auto simp: valid_config_def Let_def same_sizes_def intro!: sizes_fit_master)

text \<open>Profiles of one family make a transform for each key; mixed families are refused.\<close>

lemma new_transform_ok:
  assumes C: "crypto_laws C" and cfg: "valid_config cfg" and k: "k \<in> set (sc_keys cfg)"
    and family: "is_gcm (sc_rtp_profile cfg) = is_gcm (sc_rtcp_profile cfg)"
  shows "\<exists>t. new_transform C cfg k = Ok t \<and> transform_ok t \<and> transform_mki t = mk_mki k \<and>
    transform_profiles t = (sc_rtp_profile cfg, sc_rtcp_profile cfg)"
proof (cases "is_gcm (sc_rtp_profile cfg)")
  case True
  then show ?thesis
    using gcm_new_ok [OF C valid_config_fits [OF cfg k] True, of "mk_mki k"] family
    by (auto simp: new_transform_def)
next
  case False
  then have "\<not> tag_len (sc_rtcp_profile cfg) < 10"
    using cfg family by (simp add: valid_config_def)
  then show ?thesis
    using cm_new_ok [OF C valid_config_fits [OF cfg k] False, of "mk_mki k"] False
    by (auto simp: new_transform_def)
qed

lemma gcm_new_mixed:
  assumes C: "crypto_laws C" and "master_fits mk salt rtp" "is_gcm rtp" "\<not> is_gcm rtcp"
  shows "gcm_new C mk salt m rtp rtcp = Err TransformDispatch"
proof -
  from assms(2) have mk: "length mk \<in> {16, 24, 32}" "length salt \<le> 16"
    by (simp_all add: master_fits_def)
  show ?thesis
    using assms(3,4) aes_cm_kdf_total [OF C mk, of RtpSalt] aes_cm_kdf_total [OF C mk, of RtpEncrypt]
    by (auto simp: gcm_new_def is_gcm_iff to_array_def vec_truncate_def Let_def SESSION_SALT_SIZE_def)
qed

lemma new_transform_mixed:
  assumes C: "crypto_laws C" and cfg: "valid_config cfg" and k: "k \<in> set (sc_keys cfg)"
    and family: "is_gcm (sc_rtp_profile cfg) \<noteq> is_gcm (sc_rtcp_profile cfg)"
  shows "new_transform C cfg k = Err TransformDispatch"
proof (cases "is_gcm (sc_rtp_profile cfg)")
  case True
  then show ?thesis
    using gcm_new_mixed [OF C valid_config_fits(1) [OF cfg k] True] family
    by (simp add: new_transform_def)
next
  case False
  then have "is_gcm (sc_rtcp_profile cfg)" using family by simp
  then have "tag_len (sc_rtcp_profile cfg) < 10" by (auto simp: is_gcm_iff)
  with False show ?thesis
    using cm_new_rejects [OF C valid_config_fits(1) [OF cfg k] False] family
    by (simp add: new_transform_def)
qed

lemma get_transforms_outcome:
  assumes C: "crypto_laws C" and cfg: "valid_config cfg"
  shows "if is_gcm (sc_rtp_profile cfg) = is_gcm (sc_rtcp_profile cfg)
    then \<exists>ts. get_transforms C cfg = Ok ts else get_transforms C cfg = Err TransformDispatch"
proof (cases "is_gcm (sc_rtp_profile cfg) = is_gcm (sc_rtcp_profile cfg)")
  case True
  have "\<exists>ts. get_transforms C cfg = Ok ts"
    unfolding get_transforms_def
    by (rule insert_transforms_total) (use new_transform_ok [OF C cfg _ True] in blast)
  with True show ?thesis by simp
next
  case False
  obtain k ks where "sc_keys cfg = k # ks"
    using cfg by (cases "sc_keys cfg") (auto simp: valid_config_def)
  then show ?thesis
    using False new_transform_mixed [OF C cfg _ False, of k] by (simp add: get_transforms_def)
qed

text \<open>Every transform of a validated configuration is in order.\<close>

lemma get_transforms_ok:
  assumes C: "crypto_laws C" and cfg: "config_ok cfg" and ts: "get_transforms C cfg = Ok ts" "ts m = Some (t, l)"
  shows "transform_ok t \<and> transform_mki t = m \<and> lifetime_ok l \<and>
    transform_profiles t = (sc_rtp_profile cfg, sc_rtcp_profile cfg)"
proof -
  have valid: "valid_config cfg" using cfg by (simp add: config_ok_def)
  obtain k where k: "k \<in> set (sc_keys cfg)" "mk_mki k = m" "new_transform C cfg k = Ok t" "mk_lifetime k = l"
    using get_transforms_entry [OF ts] by blast
  have "is_gcm (sc_rtp_profile cfg) = is_gcm (sc_rtcp_profile cfg)"
    using new_transform_mixed [OF C valid k(1)] k(3) by auto
  from new_transform_ok [OF C valid k(1) this] k cfg show ?thesis
    by (auto simp: config_ok_def)
qed

section \<open>The merge\<close>

lemma merge_keeps: "ts m = Some x \<Longrightarrow> fst (merge_transforms new ms ts) m = Some x"
proof (induction ms arbitrary: ts)
  case Nil
  then show ?case by simp
next
  case (Cons m' ms)
  then show ?case
    by (cases "m = m'") (auto split: option.splits prod.splits)
qed

lemma merge_sources: "fst (merge_transforms new ms ts) m = Some x \<Longrightarrow> ts m = Some x \<or> new m = Some x"
proof (induction ms arbitrary: ts)
  case Nil
  then show ?case by simp
next
  case (Cons m' ms)
  show ?case
  proof (cases "new m'")
    case None
    with Cons show ?thesis by simp
  next
    case (Some y)
    then obtain t l where y: "new m' = Some (t, l)"
      by (cases y) simp
    show ?thesis
    proof (cases "ts m'")
      case None
      with Cons.prems y have "fst (merge_transforms new ms (ts(m' \<mapsto> (t, l)))) m = Some x"
        by simp
      from Cons.IH [OF this] y show ?thesis by (auto split: if_splits)
    next
      case (Some z)
      with Cons y show ?thesis by (cases z) (auto split: if_splits)
    qed
  qed
qed

lemma merge_not_Panic: "snd (merge_transforms new ms ts) \<noteq> Panic"
  by (induction ms arbitrary: ts) (auto split: option.split)

text \<open>
  The merge succeeds exactly when both maps have the same transform under every common MKI; the
  result does not depend on the order and keeps every lifetime already counted down.
\<close>

definition mergeable :: "transforms \<Rightarrow> transforms \<Rightarrow> bool" where
  "mergeable new ts \<longleftrightarrow> (\<forall>m. case (new m, ts m) of (Some (t, _), Some (t', _)) \<Rightarrow> t = t' | _ \<Rightarrow> True)"

lemma merge_Ok_iff:
  assumes "distinct ms"
  shows "snd (merge_transforms new ms ts) = Ok () \<longleftrightarrow> mergeable (new |` set ms) ts"
  using assms
proof (induction ms arbitrary: ts)
  case Nil
  then show ?case by (simp add: mergeable_def)
next
  case (Cons m ms)
  then have m: "m \<notin> set ms" by simp
  have other: "mergeable (new |` set ms) (ts(m \<mapsto> x)) \<longleftrightarrow> mergeable (new |` set ms) ts" for x
    using m by (auto simp: mergeable_def restrict_map_def split: option.splits if_splits)
  have split: "mergeable (new |` set (m # ms)) ts \<longleftrightarrow>
      (case (new m, ts m) of (Some (t, _), Some (t', _)) \<Rightarrow> t = t' | _ \<Rightarrow> True) \<and> mergeable (new |` set ms) ts"
    using m by (auto simp: mergeable_def restrict_map_def split: option.splits if_splits)
  show ?case
    unfolding split using Cons
    by (auto simp: other transform_equals_iff split: option.split prod.split)
qed

lemma merge_Ok_result:
  assumes "snd (merge_transforms new ms ts) = Ok ()"
  shows "fst (merge_transforms new ms ts) = (new |` set ms) ++ ts"
  using assms
proof (induction ms arbitrary: ts)
  case Nil
  then show ?case by (simp add: restrict_map_def map_add_def)
next
  case (Cons m ms)
  have upd: "(new |` set ms) ++ ts(m \<mapsto> x) = (new |` set (m # ms)) ++ ts" if "new m = Some x" "ts m = None" for x
    using that by (auto simp: fun_eq_iff map_add_def restrict_map_def split: option.split)
  have same: "(new |` set ms) ++ ts = (new |` set (m # ms)) ++ ts" if "new m = None \<or> ts m \<noteq> None"
    using that by (auto simp: fun_eq_iff map_add_def restrict_map_def split: option.split)
  show ?case
    using Cons upd same by (cases "new m"; cases "ts m") (auto split: if_splits)
qed

text \<open>The outcome of \<^verbatim>\<open>update\<close>, in any iteration order of the map.\<close>

lemma base_update_merges:
  assumes new: "get_transforms C cfg = Ok new" and keys: "sc_keys cfg \<noteq> []"
    and policy: "mki_policy (b_mki_len s) (mk_mki (hd (sc_keys cfg))) = Ok ()"
    and order: "distinct order" "set order = dom new"
  shows "snd (base_update B C order cfg s) = Ok () \<longleftrightarrow> mergeable new (b_transforms s)"
    and "mergeable new (b_transforms s) \<Longrightarrow> fst (base_update B C order cfg s) =
      s\<lparr>b_transforms := new ++ b_transforms s,
        b_rtp_index := rtp_set_window_size B (b_rtp_index s) (sc_replay_window_size cfg),
        b_allow_send_repeat := sc_allow_send_repeat cfg\<rparr>"
proof -
  obtain ts x where m: "merge_transforms new order (b_transforms s) = (ts, x)"
    by (cases "merge_transforms new order (b_transforms s)")
  have all: "new |` set order = new"
  proof
    fix m show "(new |` set order) m = new m"
      by (cases "new m") (simp_all add: restrict_map_def order(2) dom_def)
  qed
  have u: "base_update B C order cfg s =
      (case (ts, x) of (ts, Ok _) \<Rightarrow>
           (s\<lparr>b_transforms := ts,
              b_rtp_index := rtp_set_window_size B (b_rtp_index s) (sc_replay_window_size cfg),
              b_allow_send_repeat := sc_allow_send_repeat cfg\<rparr>, Ok ())
         | (ts, r) \<Rightarrow> (s\<lparr>b_transforms := ts\<rparr>, r))"
    using new keys policy by (simp add: base_update_def hd_conv_nth m)
  have ok: "x = Ok () \<longleftrightarrow> mergeable new (b_transforms s)"
    using merge_Ok_iff [OF order(1), of new "b_transforms s"] by (simp add: m all)
  show "snd (base_update B C order cfg s) = Ok () \<longleftrightarrow> mergeable new (b_transforms s)"
    unfolding u ok [symmetric] by (cases x) auto
  show "fst (base_update B C order cfg s) =
      s\<lparr>b_transforms := new ++ b_transforms s,
        b_rtp_index := rtp_set_window_size B (b_rtp_index s) (sc_replay_window_size cfg),
        b_allow_send_repeat := sc_allow_send_repeat cfg\<rparr>" if "mergeable new (b_transforms s)"
    using that ok merge_Ok_result [of new order "b_transforms s"] by (simp add: u m all)
qed

end
