(* ===== verification/Srtp_Stream_Safety.thy ===== *)
theory Srtp_Stream_Safety
  imports Srtp_Stream
begin

text \<open>
  What the operations of a stream do, outcome by outcome: the well-formedness of a stream
  (\<open>base_ok\<close>, \<open>send_ok\<close>, \<open>recv_ok\<close>) and that every operation keeps it, inversion rules for the
  successful calls, that a failing call leaves the stream as it was, and that no call panics.
\<close>

section \<open>Well-formed streams\<close>

definition entry_ok :: "mki \<Rightarrow> transform \<times> keys_lifetime \<Rightarrow> bool" where
  "entry_ok m e \<longleftrightarrow> transform_ok (fst e) \<and> transform_mki (fst e) = m \<and> lifetime_ok (snd e)"

definition mask_ok :: "'b biguint \<Rightarrow> 'b \<Rightarrow> bool" where
  "mask_ok B b \<longleftrightarrow> (\<exists>n. b = big_mask B n \<and> n < 65536)"

definition base_ok :: "'b biguint \<Rightarrow> 'b base_stream \<Rightarrow> bool" where
  "base_ok B s \<longleftrightarrow>
     (\<forall>m e. b_transforms s m = Some e \<longrightarrow> entry_ok m e) \<and>
     index_in_range (unat (r_index (b_rtp_index s))) \<and> mask_ok B (r_mask (b_rtp_index s))"

definition send_ok :: "'b biguint \<Rightarrow> 'b send_stream \<Rightarrow> bool" where
  "send_ok B s \<longleftrightarrow> base_ok B (s_base s) \<and> s_rtcp_index s < 0x80000000"

definition recv_ok :: "'b biguint \<Rightarrow> 'b recv_stream \<Rightarrow> bool" where
  "recv_ok B s \<longleftrightarrow> base_ok B (v_base s) \<and> rc_index (v_rtcp_index s) < 0x80000000 \<and>
     mask_ok B (rc_mask (v_rtcp_index s))"

lemma base_ok_entry: "base_ok B s \<Longrightarrow> b_transforms s m = Some (t, l) \<Longrightarrow>
    transform_ok t \<and> transform_mki t = m \<and> lifetime_ok l"
  by (fastforce simp: base_ok_def entry_ok_def)

lemma mask_ok_new [simp]:
  "mask_ok B (big_sub B (big_shl B (big_one B) (unat (n :: u16))) (big_one B))"
  using unat_bounds(2) [of n] by (auto simp: mask_ok_def big_mask_def)

section \<open>Construction and update\<close>

lemma get_transforms_entry_ok:
  "crypto_laws C \<Longrightarrow> config_ok cfg \<Longrightarrow> get_transforms C cfg = Ok ts \<Longrightarrow> ts m = Some e \<Longrightarrow> entry_ok m e"
  using get_transforms_ok [of C cfg ts m "fst e" "snd e"] by (simp add: entry_ok_def)

lemma base_new_outcome:
  assumes C: "crypto_laws C" and cfg: "config_ok cfg"
  shows "if is_gcm (sc_rtp_profile cfg) = is_gcm (sc_rtcp_profile cfg)
    then \<exists>s. base_new B C ssrc cfg h = Ok s \<and> base_ok B s
    else base_new B C ssrc cfg h = Err TransformDispatch"
proof -
  have valid: "valid_config cfg" using cfg by (simp add: config_ok_def)
  then have "0 < length (sc_keys cfg)" by (simp add: valid_config_def)
  then show ?thesis
    using get_transforms_outcome [OF C valid] get_transforms_entry_ok [OF C cfg]
    by (auto simp: base_new_def base_ok_def rtp_replay_new_def index_in_range_def)
qed

lemma base_new_Ok:
  assumes "base_new B C ssrc cfg h = Ok s"
  obtains ts where "get_transforms C cfg = Ok ts" "sc_keys cfg \<noteq> []"
    "s = \<lparr>b_ssrc = ssrc, b_transforms = ts, b_mki_len = length (mki_bytes (mk_mki (hd (sc_keys cfg)))),
       b_rtp_index = rtp_replay_new B (sc_replay_window_size cfg),
       b_key_limit_handler = h, b_allow_send_repeat = sc_allow_send_repeat cfg\<rparr>"
  using assms
  by (auto simp: base_new_def outcome_simps slice_at_def mki_bytes_def hd_conv_nth split: if_splits option.splits)

lemma new_ok:
  assumes C: "crypto_laws C" and cfg: "config_ok cfg"
  shows "send_new B C ssrc cfg h = Ok s \<Longrightarrow> send_ok B s" "recv_new B C ssrc cfg h = Ok v \<Longrightarrow> recv_ok B v"
    "send_new B C ssrc cfg h \<noteq> Panic" "recv_new B C ssrc cfg h \<noteq> Panic"
  using base_new_outcome [OF C cfg, of B ssrc h]
  by (auto simp: send_new_def recv_new_def send_ok_def recv_ok_def rtcp_replay_new_def outcome_simps
      split: if_splits)

lemma mki_policy_not_Panic: "mki_policy n m \<noteq> Panic"
  by (simp add: mki_policy_def split: option.split)

lemma base_update_ok:
  assumes C: "crypto_laws C" and cfg: "config_ok cfg" and s: "base_ok B s"
    and u: "base_update B C ms cfg s = (s', r)"
  shows "base_ok B s'" "r \<noteq> Panic"
proof -
  have valid: "valid_config cfg" using cfg by (simp add: config_ok_def)
  then have keys: "0 < length (sc_keys cfg)" by (simp add: valid_config_def)
  have entries: "entry_ok m e" if "get_transforms C cfg = Ok new"
    "fst (merge_transforms new ms (b_transforms s)) m = Some e" for new m e
    using merge_sources [OF that(2)] s get_transforms_entry_ok [OF C cfg that(1)]
    unfolding base_ok_def by blast
  show "base_ok B s'" "r \<noteq> Panic"
  proof -
    consider (fail) e where "base_update B C ms cfg s = (s, Err e)"
      | (merge) new where "get_transforms C cfg = Ok new" "base_update B C ms cfg s =
          (case merge_transforms new ms (b_transforms s) of
             (ts, Ok _) \<Rightarrow>
               (s\<lparr>b_transforms := ts,
                  b_rtp_index := rtp_set_window_size B (b_rtp_index s) (sc_replay_window_size cfg),
                  b_allow_send_repeat := sc_allow_send_repeat cfg\<rparr>, Ok ())
           | (ts, r) \<Rightarrow> (s\<lparr>b_transforms := ts\<rparr>, r))"
      using get_transforms_outcome [OF C valid] keys mki_policy_not_Panic
      by (cases "mki_policy (b_mki_len s) (mk_mki (sc_keys cfg ! 0))")
        (auto simp: base_update_def split: if_splits)
    then have "base_ok B s' \<and> r \<noteq> Panic"
    proof cases
      case fail
      with u s show ?thesis by auto
    next
      case merge
      obtain ts x where mt: "merge_transforms new ms (b_transforms s) = (ts, x)"
        by (cases "merge_transforms new ms (b_transforms s)") simp
      with merge_not_Panic [of new ms "b_transforms s"] have "x \<noteq> Panic" by simp
      with mt merge u s entries [OF merge(1)] show ?thesis
        by (cases x) (auto simp: base_ok_def rtp_set_window_size_def)
    qed
    then show "base_ok B s'" "r \<noteq> Panic" by simp_all
  qed
qed

lemma update_ok:
  assumes C: "crypto_laws C" and cfg: "config_ok cfg"
  shows "send_ok B s \<Longrightarrow> send_update B C ms cfg s = (s', r) \<Longrightarrow> send_ok B s' \<and> r \<noteq> Panic"
    and "recv_ok B v \<Longrightarrow> recv_update B C ms cfg v = (v', r) \<Longrightarrow> recv_ok B v' \<and> r \<noteq> Panic"
  using base_update_ok [OF C cfg]
  by (fastforce simp: send_update_def recv_update_def send_ok_def recv_ok_def rtcp_set_window_size_def
      split: prod.splits result.splits)+

lemma base_kill_ok:
  "base_ok B s \<Longrightarrow> base_kill_session_keys m s = (s', r) \<Longrightarrow> base_ok B s' \<and> r \<noteq> Panic"
  by (auto simp: base_kill_session_keys_def base_ok_def entry_ok_def lifetime_ok_def
      split: option.splits prod.splits if_splits)

lemma kill_ok:
  "send_ok B s \<Longrightarrow> send_kill_session_keys m s = (s', r) \<Longrightarrow> send_ok B s' \<and> r \<noteq> Panic"
  "recv_ok B v \<Longrightarrow> recv_kill_session_keys m v = (v', r) \<Longrightarrow> recv_ok B v' \<and> r \<noteq> Panic"
  using base_kill_ok
  by (fastforce simp: send_kill_session_keys_def recv_kill_session_keys_def send_ok_def recv_ok_def
      split: prod.splits)+

lemma set_roc_ok:
  "recv_ok B v \<Longrightarrow> recv_set_roc roc v = (v', r) \<Longrightarrow> recv_ok B v' \<and> r \<noteq> Panic"
  by (auto simp: recv_set_roc_def recv_ok_def base_ok_def rtp_set_roc_def split: if_splits)

section \<open>Key limits\<close>

text \<open>The lives a stream has left under an MKI, for RTP or for RTCP; 0 when there is no such key.\<close>

definition lives_left :: "'b base_stream \<Rightarrow> bool \<Rightarrow> mki \<Rightarrow> nat" where
  "lives_left s is_rtp m =
     (case b_transforms s m of None \<Rightarrow> 0
      | Some (_, l) \<Rightarrow> if is_rtp then unat (l_rtp l) else unat (l_rtcp l))"

lemma ucast_u64_zero_iff [simp]: "(ucast (x :: u32) :: u64) = 0 \<longleftrightarrow> x = 0"
  by (metis unat_widen(2) unsigned_0 unsigned_word_eqI)

lemma check_key_limit_Ok_iff:
  "snd (check_key_limit s is_rtp m) = Ok () \<longleftrightarrow> 0 < lives_left s is_rtp m"
  by (auto simp: check_key_limit_def lives_left_def unat_gt_0 Let_def split: option.split)

lemma check_key_limit_result:
  "snd (check_key_limit s is_rtp m) =
     (if 0 < lives_left s is_rtp m then Ok ()
      else if b_transforms s m = None then Err InvalidMki
      else Err (KeyLimit is_rtp True m (b_ssrc s)))"
  by (auto simp: check_key_limit_def lives_left_def unat_gt_0 Let_def split: option.split)

lemma check_key_limit_Ok:
  assumes "check_key_limit s is_rtp m = (calls, Ok u)"
  shows "\<exists>t l. b_transforms s m = Some (t, l) \<and> (if is_rtp then l_rtp l \<noteq> 0 else l_rtcp l \<noteq> 0)"
  using assms by (auto simp: check_key_limit_def Let_def split: option.splits if_splits)

lemma check_key_limit_not_Panic: "check_key_limit s is_rtp m \<noteq> (calls, Panic)"
  by (auto simp: check_key_limit_def Let_def split: option.splits)

section \<open>What a successful call does\<close>

text \<open>The stream after a transform under \<open>m\<close> that leaves the lifetime \<open>l\<close>.\<close>

definition with_lives :: "'b base_stream \<Rightarrow> mki \<Rightarrow> transform \<Rightarrow> keys_lifetime \<Rightarrow> 'b base_stream" where
  "with_lives s m t l = s\<lparr>b_transforms := (b_transforms s)(m \<mapsto> (t, l))\<rparr>"

definition with_index :: "'b biguint \<Rightarrow> 'b base_stream \<Rightarrow> u64 \<Rightarrow> 'b base_stream" where
  "with_index B s i = s\<lparr>b_rtp_index := rtp_add_index B (b_rtp_index s) i\<rparr>"

lemma send_rtp_protect_Ok:
  assumes "send_rtp_protect B C h p m s = (s', calls, Ok q)"
  obtains t l l' i where "b_transforms (s_base s) m = Some (t, l)"
    "i = rtp_estimate_index (b_rtp_index (s_base s)) (seq_num h)"
    "b_allow_send_repeat (s_base s) \<or> \<not> rtp_seen_index B (b_rtp_index (s_base s)) i"
    "transform_rtp_protect C t p h (ucast (drop_bit 16 i)) = Ok q" "decrease_rtp l = Ok l'"
    "s' = s\<lparr>s_base := with_index B (with_lives (s_base s) m t l') i\<rparr>"
  using assms
  by (auto simp: send_rtp_protect_def Let_def outcome_simps with_index_def with_lives_def
      split: if_splits prod.splits)

lemma send_rtcp_protect_Ok:
  assumes "send_rtcp_protect C h p m s = (s', calls, Ok q)"
  obtains t l l' where "b_transforms (s_base s) m = Some (t, l)"
    "transform_rtcp_protect C t p h (s_rtcp_index s) = Ok q" "decrease_rtcp l = Ok l'"
    "s' = s\<lparr>s_base := with_lives (s_base s) m t l', s_rtcp_index := (s_rtcp_index s + 1) AND 0x7fffffff\<rparr>"
  using assms
  by (auto simp: send_rtcp_protect_def Let_def outcome_simps with_lives_def split: if_splits prod.splits)

lemma recv_rtp_unprotect_Ok:
  assumes "recv_rtp_unprotect B C h c v = (v', calls, Ok p)"
  obtains m t l l' i where "recv_get_mki v c (header_len h) True = Ok m"
    "b_transforms (v_base v) m = Some (t, l)"
    "i = rtp_estimate_index (b_rtp_index (v_base v)) (seq_num h)"
    "\<not> rtp_seen_index B (b_rtp_index (v_base v)) i"
    "transform_rtp_unprotect C t c h (ucast (drop_bit 16 i)) = Ok p" "decrease_rtp l = Ok l'"
    "v' = v\<lparr>v_base := with_index B (with_lives (v_base v) m t l') i\<rparr>"
  using assms
  by (auto simp: recv_rtp_unprotect_def Let_def outcome_simps with_index_def with_lives_def
      split_beta split: if_splits)

text \<open>The index in the trailer of an SRTCP packet, where the receiver reads it.\<close>

definition rtcp_trailer_index :: "'b recv_stream \<Rightarrow> bytes \<Rightarrow> u32" where
  "rtcp_trailer_index v c =
     be32 (take 4 (drop (length c - (4 + v_rtcp_tag_len v + b_mki_len (v_base v))) c)) AND 0x7fffffff"

lemma read_trailer:
  assumes "pos + 4 \<le> length c"
  shows "and_then (slice_at c pos) (\<lambda>b0. and_then (slice_at c (pos + 1)) (\<lambda>b1.
      and_then (slice_at c (pos + 2)) (\<lambda>b2. and_then (slice_at c (pos + 3)) (\<lambda>b3.
      Ok (from_be_bytes32 b0 b1 b2 b3 AND x))))) = Ok (be32 (take 4 (drop pos c)) AND x)"
  using assms by (simp add: be32_def add.commute)

text \<open>\<open>recv_rtcp_unprotect\<close> with the index read.\<close>

lemma recv_rtcp_unprotect_eq:
  "recv_rtcp_unprotect B C h c v =
     (let b = v_base v; trailer_len = 4 + v_rtcp_tag_len v + b_mki_len b; i = rtcp_trailer_index v c in
      if length c < rtcp_header_len + trailer_len then (v, [], Err InvalidPacket)
      else if rtcp_seen_index B (v_rtcp_index v) i then (v, [], Err InvalidPacketIndex)
      else
        try_in v [] (recv_get_mki v c rtcp_header_len False) (\<lambda>m.
        let (calls, limit) = check_key_limit b False m in
        try_in v calls limit (\<lambda>_.
        try_in v calls (ok_or (b_transforms b m) InvalidMki) (\<lambda>(t, l).
        try_in v calls (transform_rtcp_unprotect C t c h i trailer_len) (\<lambda>res.
        try_in v calls (decrease_rtcp l) (\<lambda>l.
        (v\<lparr>v_base := with_lives b m t l, v_rtcp_index := rtcp_add_index B (v_rtcp_index v) i\<rparr>, calls, Ok res)))))))"
proof (cases "length c < rtcp_header_len + (4 + v_rtcp_tag_len v + b_mki_len (v_base v))")
  case True
  then show ?thesis
    by (simp add: recv_rtcp_unprotect_def Let_def base_get_mki_len_def)
next
  case False
  define n where "n = 4 + v_rtcp_tag_len v + b_mki_len (v_base v)"
  have n: "n \<le> length c" "(length c - n) + 4 \<le> length c"
    using False by (simp_all add: n_def)
  show ?thesis
    using False
    unfolding recv_rtcp_unprotect_def Let_def base_get_mki_len_def rtcp_trailer_index_def
      n_def [symmetric] usize_sub_Ok [OF n(1)] try_in.simps read_trailer [OF n(2)] with_lives_def
    by simp
qed

lemma recv_rtcp_unprotect_Ok:
  assumes "recv_rtcp_unprotect B C h c v = (v', calls, Ok p)"
  obtains m t l l' i where "recv_get_mki v c rtcp_header_len False = Ok m"
    "b_transforms (v_base v) m = Some (t, l)" "i = rtcp_trailer_index v c"
    "rtcp_header_len + (4 + v_rtcp_tag_len v + b_mki_len (v_base v)) \<le> length c"
    "\<not> rtcp_seen_index B (v_rtcp_index v) i"
    "transform_rtcp_unprotect C t c h i (4 + v_rtcp_tag_len v + b_mki_len (v_base v)) = Ok p"
    "decrease_rtcp l = Ok l'"
    "v' = v\<lparr>v_base := with_lives (v_base v) m t l', v_rtcp_index := rtcp_add_index B (v_rtcp_index v) i\<rparr>"
  using assms
  by (auto simp: recv_rtcp_unprotect_eq Let_def outcome_simps split_beta split: if_splits)

section \<open>A failing call changes nothing\<close>

lemma send_fails_unchanged:
  "fails_unchanged s (send_rtp_protect B C h p m s)"
  "fails_unchanged s (send_rtcp_protect C h' p m s)"
  by (auto simp: send_rtp_protect_def send_rtcp_protect_def Let_def intro!: fails_unchanged_try split: prod.split)

lemma recv_fails_unchanged:
  "fails_unchanged v (recv_rtp_unprotect B C h c v)"
  "fails_unchanged v (recv_rtcp_unprotect B C h' c v)"
  by (auto simp: recv_rtp_unprotect_def recv_rtcp_unprotect_eq Let_def intro!: fails_unchanged_try
      split: prod.split)

section \<open>No call panics\<close>

lemma check_key_limit_lives:
  "snd (check_key_limit s True m) = Ok u \<Longrightarrow> b_transforms s m = Some (t, l) \<Longrightarrow> l_rtp l \<noteq> 0"
  "snd (check_key_limit s False m) = Ok u \<Longrightarrow> b_transforms s m = Some (t, l) \<Longrightarrow> l_rtcp l \<noteq> 0"
  by (auto simp: check_key_limit_def Let_def split: if_splits)

lemma check_key_limit_total [simp]: "snd (check_key_limit s is_rtp m) \<noteq> Panic"
  by (simp add: check_key_limit_result)

lemma recv_get_mki_not_Panic: "recv_get_mki v c n is_rtp \<noteq> Panic"
  by (auto simp: recv_get_mki_def Let_def outcome_simps)

lemma send_rtp_protect_no_panic:
  assumes "crypto_laws C" "send_ok B s" "header_len h \<le> length p" "length p \<le> max_message"
  shows "snd (snd (send_rtp_protect B C h p m s)) \<noteq> Panic"
proof
  assume "snd (snd (send_rtp_protect B C h p m s)) = Panic"
  then obtain s' calls where "send_rtp_protect B C h p m s = (s', calls, Panic)"
    by (cases "send_rtp_protect B C h p m s") auto
  then show False
    using assms dyn.protect_no_panic(1) [of C _ h p] base_ok_entry [of B "s_base s" m]
    by (auto simp: send_rtp_protect_def send_ok_def Let_def split_beta outcome_simps
        dest: check_key_limit_lives split: if_splits)
qed

lemma send_rtcp_protect_no_panic:
  assumes "crypto_laws C" "send_ok B s" "rtcp_header_len \<le> length p" "length p \<le> max_message"
  shows "snd (snd (send_rtcp_protect C h p m s)) \<noteq> Panic"
proof
  assume "snd (snd (send_rtcp_protect C h p m s)) = Panic"
  then obtain s' calls where "send_rtcp_protect C h p m s = (s', calls, Panic)"
    by (cases "send_rtcp_protect C h p m s") auto
  then show False
    using assms dyn.protect_no_panic(2) [of C _ p h] base_ok_entry [of B "s_base s" m]
    by (auto simp: send_rtcp_protect_def send_ok_def Let_def split_beta outcome_simps
        dest: check_key_limit_lives)
qed

lemma recv_rtp_unprotect_no_panic:
  assumes "crypto_laws C" "recv_ok B v" "length c \<le> max_message"
  shows "snd (snd (recv_rtp_unprotect B C h c v)) \<noteq> Panic"
proof
  assume "snd (snd (recv_rtp_unprotect B C h c v)) = Panic"
  then obtain v' calls where "recv_rtp_unprotect B C h c v = (v', calls, Panic)"
    by (cases "recv_rtp_unprotect B C h c v") auto
  then show False
    using assms dyn.rtp_unprotect_no_panic [of C _ c h] base_ok_entry [of B "v_base v"]
    by (auto simp: recv_rtp_unprotect_def recv_ok_def Let_def split_beta outcome_simps
        recv_get_mki_not_Panic dest: check_key_limit_lives split: if_splits)
qed

lemma recv_rtcp_unprotect_no_panic:
  assumes "crypto_laws C" "recv_ok B v" "length c \<le> max_message"
  shows "snd (snd (recv_rtcp_unprotect B C h c v)) \<noteq> Panic"
proof
  assume "snd (snd (recv_rtcp_unprotect B C h c v)) = Panic"
  then obtain v' calls where "recv_rtcp_unprotect B C h c v = (v', calls, Panic)"
    by (cases "recv_rtcp_unprotect B C h c v") auto
  then show False
    using assms dyn.rtcp_unprotect_no_panic [of C _ c "4 + v_rtcp_tag_len v + b_mki_len (v_base v)" h]
      base_ok_entry [of B "v_base v"]
    by (auto simp: recv_rtcp_unprotect_eq recv_ok_def Let_def split_beta outcome_simps
        recv_get_mki_not_Panic dest: check_key_limit_lives split: if_splits)
qed

section \<open>The calls keep a stream well-formed\<close>

lemma base_ok_lives:
  "base_ok B s \<Longrightarrow> b_transforms s m = Some (t, l) \<Longrightarrow> lifetime_ok l' \<Longrightarrow> base_ok B (with_lives s m t l')"
  by (auto simp: base_ok_def with_lives_def entry_ok_def)

lemma rtp_add_index_mask [simp]: "r_mask (rtp_add_index B db i) = r_mask db"
  by (simp add: rtp_add_index_def Let_def)

lemma rtcp_add_index_mask [simp]: "rc_mask (rtcp_add_index B db i) = rc_mask db"
  by (simp add: rtcp_add_index_def Let_def)

lemma rtcp_add_index_index: "rc_index (rtcp_add_index B db i) \<in> {rc_index db, i}"
  by (simp add: rtcp_add_index_def Let_def)

lemma base_ok_index:
  "base_ok B s \<Longrightarrow> i = rtp_estimate_index (b_rtp_index s) seq \<Longrightarrow> base_ok B (with_index B s i)"
  using estimate_index_in_range [of "b_rtp_index s" seq] add_index_in_range [of "b_rtp_index s" i B]
  by (auto simp: base_ok_def with_index_def)

lemma with_simps [simp]:
  "b_rtp_index (with_lives s m t l) = b_rtp_index s"
  "b_transforms (with_lives s m t l) = (b_transforms s)(m \<mapsto> (t, l))"
  "b_mki_len (with_lives s m t l) = b_mki_len s"
  "b_ssrc (with_lives s m t l) = b_ssrc s"
  "b_allow_send_repeat (with_lives s m t l) = b_allow_send_repeat s"
  "b_rtp_index (with_index B s i) = rtp_add_index B (b_rtp_index s) i"
  "b_transforms (with_index B s i) = b_transforms s"
  "b_mki_len (with_index B s i) = b_mki_len s"
  "b_ssrc (with_index B s i) = b_ssrc s"
  "b_allow_send_repeat (with_index B s i) = b_allow_send_repeat s"
  by (simp_all add: with_lives_def with_index_def)

lemma base_step_ok:
  assumes s: "base_ok B s" and "b_transforms s m = Some (t, l)" "decrease_rtp l = Ok l' \<or> decrease_rtcp l = Ok l'"
  shows "base_ok B (with_lives s m t l')"
  using base_ok_lives [OF s assms(2)] decrease_lifetime_ok [OF _ assms(3)] base_ok_entry [OF s assms(2)]
  by blast

lemma send_ok_step:
  assumes s: "send_ok B s"
  shows "send_rtp_protect B C h p m s = (s', calls, r) \<Longrightarrow> send_ok B s'"
    and "send_rtcp_protect C h' p m s = (s', calls, r) \<Longrightarrow> send_ok B s'"
proof -
  have base: "base_ok B (s_base s)" using s by (simp add: send_ok_def)
  show "send_ok B s'" if run: "send_rtp_protect B C h p m s = (s', calls, r)"
  proof (cases "is_ok r")
    case True
    then obtain q where "r = Ok q" by (auto simp: is_ok_iff)
    with run have "send_rtp_protect B C h p m s = (s', calls, Ok q)" by simp
    then show ?thesis
    proof (rule send_rtp_protect_Ok)
      fix t l l' i
      assume "b_transforms (s_base s) m = Some (t, l)" "decrease_rtp l = Ok l'"
        "i = rtp_estimate_index (b_rtp_index (s_base s)) (seq_num h)"
        "s' = s\<lparr>s_base := with_index B (with_lives (s_base s) m t l') i\<rparr>"
      then show ?thesis
        using s base_step_ok [OF base, of m t l l']
          base_ok_index [of B "with_lives (s_base s) m t l'" i "seq_num h"]
        by (simp add: send_ok_def)
    qed
  next
    case False
    then show ?thesis using send_fails_unchanged(1) [of s B C h p m] run s by (auto dest: fails_unchangedD)
  qed
  show "send_ok B s'" if run: "send_rtcp_protect C h' p m s = (s', calls, r)"
  proof (cases "is_ok r")
    case True
    then obtain q where "r = Ok q" by (auto simp: is_ok_iff)
    with run have "send_rtcp_protect C h' p m s = (s', calls, Ok q)" by simp
    then show ?thesis
    proof (rule send_rtcp_protect_Ok)
      fix t l l'
      assume "b_transforms (s_base s) m = Some (t, l)" "decrease_rtcp l = Ok l'"
        "s' = s\<lparr>s_base := with_lives (s_base s) m t l', s_rtcp_index := (s_rtcp_index s + 1) AND 0x7fffffff\<rparr>"
      then show ?thesis
        using s base_step_ok [OF base, of m t l l'] by (simp add: send_ok_def and_31_less)
    qed
  next
    case False
    then show ?thesis using send_fails_unchanged(2) [of s C h' p m] run s by (auto dest: fails_unchangedD)
  qed
qed

lemma recv_ok_step:
  assumes v: "recv_ok B v"
  shows "recv_rtp_unprotect B C h c v = (v', calls, r) \<Longrightarrow> recv_ok B v'"
    and "recv_rtcp_unprotect B C h' c v = (v', calls, r) \<Longrightarrow> recv_ok B v'"
proof -
  have base: "base_ok B (v_base v)" using v by (simp add: recv_ok_def)
  show "recv_ok B v'" if run: "recv_rtp_unprotect B C h c v = (v', calls, r)"
  proof (cases "is_ok r")
    case True
    then obtain p where "r = Ok p" by (auto simp: is_ok_iff)
    with run have "recv_rtp_unprotect B C h c v = (v', calls, Ok p)" by simp
    then show ?thesis
    proof (rule recv_rtp_unprotect_Ok)
      fix m t l l' i
      assume "b_transforms (v_base v) m = Some (t, l)" "decrease_rtp l = Ok l'"
        "i = rtp_estimate_index (b_rtp_index (v_base v)) (seq_num h)"
        "v' = v\<lparr>v_base := with_index B (with_lives (v_base v) m t l') i\<rparr>"
      then show ?thesis
        using v base_step_ok [OF base, of m t l l']
          base_ok_index [of B "with_lives (v_base v) m t l'" i "seq_num h"]
        by (simp add: recv_ok_def)
    qed
  next
    case False
    then show ?thesis using recv_fails_unchanged(1) [of v B C h c] run v by (auto dest: fails_unchangedD)
  qed
  show "recv_ok B v'" if run: "recv_rtcp_unprotect B C h' c v = (v', calls, r)"
  proof (cases "is_ok r")
    case True
    then obtain p where "r = Ok p" by (auto simp: is_ok_iff)
    with run have "recv_rtcp_unprotect B C h' c v = (v', calls, Ok p)" by simp
    then show ?thesis
    proof (rule recv_rtcp_unprotect_Ok)
      fix m t l l' i
      assume "b_transforms (v_base v) m = Some (t, l)" "decrease_rtcp l = Ok l'"
        and i: "i = rtcp_trailer_index v c"
        and "v' = v\<lparr>v_base := with_lives (v_base v) m t l',
            v_rtcp_index := rtcp_add_index B (v_rtcp_index v) i\<rparr>"
      moreover have "i < 0x80000000"
        by (simp add: i rtcp_trailer_index_def and_31_less)
      ultimately show ?thesis
        using v base_step_ok [OF base, of m t l l'] rtcp_add_index_index [of B "v_rtcp_index v" i]
        by (auto simp: recv_ok_def)
    qed
  next
    case False
    then show ?thesis using recv_fails_unchanged(2) [of v B C h' c] run v by (auto dest: fails_unchangedD)
  qed
qed

section \<open>When a call succeeds\<close>

text \<open>Every packet is protected whose index is fresh and whose key is alive.\<close>

lemma send_rtp_total:
  assumes C: "crypto_laws C" and s: "send_ok B s" and entry: "b_transforms (s_base s) m = Some (t, l)"
    and alive: "0 < lives_left (s_base s) True m" and len: "header_len h \<le> length p" "length p \<le> max_message"
    and fresh: "b_allow_send_repeat (s_base s) \<or>
      \<not> rtp_seen_index B (b_rtp_index (s_base s)) (rtp_estimate_index (b_rtp_index (s_base s)) (seq_num h))"
  shows "\<exists>s' calls q. send_rtp_protect B C h p m s = (s', calls, Ok q)"
proof -
  have "transform_ok t"
    using s base_ok_entry [OF _ entry] by (auto simp: send_ok_def)
  then obtain q where q: "transform_rtp_protect C t p h
      (ucast (drop_bit 16 (rtp_estimate_index (b_rtp_index (s_base s)) (seq_num h)))) = Ok q"
    using dyn.rtp_protect_total [OF _ len] C by blast
  have limit: "snd (check_key_limit (s_base s) True m) = Ok ()"
    using alive by (simp add: check_key_limit_Ok_iff)
  have "l_rtp l \<noteq> 0"
    using alive entry by (auto simp: lives_left_def)
  then obtain l' where "decrease_rtp l = Ok l'"
    by (cases "decrease_rtp l") auto
  with q limit entry fresh show ?thesis
    by (auto simp: send_rtp_protect_def Let_def split_beta)
qed

lemma send_rtcp_total:
  assumes C: "crypto_laws C" and s: "send_ok B s" and entry: "b_transforms (s_base s) m = Some (t, l)"
    and alive: "0 < lives_left (s_base s) False m" and len: "rtcp_header_len \<le> length p" "length p \<le> max_message"
  shows "\<exists>s' calls q. send_rtcp_protect C h p m s = (s', calls, Ok q)"
proof -
  have "transform_ok t"
    using s base_ok_entry [OF _ entry] by (auto simp: send_ok_def)
  then obtain q where q: "transform_rtcp_protect C t p h (s_rtcp_index s) = Ok q"
    using dyn.rtcp_protect_total [OF _ len] C by blast
  have limit: "snd (check_key_limit (s_base s) False m) = Ok ()"
    using alive by (simp add: check_key_limit_Ok_iff)
  have "l_rtcp l \<noteq> 0"
    using alive entry by (auto simp: lives_left_def)
  then obtain l' where "decrease_rtcp l = Ok l'"
    by (cases "decrease_rtcp l") auto
  with q limit entry show ?thesis
    by (auto simp: send_rtcp_protect_def Let_def split_beta)
qed

text \<open>The use that exhausts a key for one kind of packet exhausts it for the other.\<close>

lemma send_exhausts_both:
  "send_rtp_protect B C h p m s = (s', calls, Ok q) \<Longrightarrow> lives_left (s_base s') True m = 0 \<Longrightarrow>
   lives_left (s_base s') False m = 0"
  "send_rtcp_protect C h' p m s = (s', calls, Ok q) \<Longrightarrow> lives_left (s_base s') False m = 0 \<Longrightarrow>
   lives_left (s_base s') True m = 0"
  using decrease_rtp_Ok(3) decrease_rtcp_Ok(3)
  by (auto elim!: send_rtp_protect_Ok send_rtcp_protect_Ok simp: lives_left_def unat_eq_zero with_index_def)

text \<open>The reports of the key limit handler.\<close>

lemma key_limit_calls:
  assumes "b_transforms s m = Some (t, l)"
  shows "fst (check_key_limit s is_rtp m) =
    (if b_key_limit_handler s \<and>
        lives_left s is_rtp m \<le> (if is_rtp then unat (l_rtp_limit l) else unat (l_rtcp_limit l))
     then [KeyLimit is_rtp (lives_left s is_rtp m = 0) m (b_ssrc s)] else [])"
  using assms by (auto simp: check_key_limit_def lives_left_def Let_def word_le_nat_alt unat_eq_zero)

lemma send_rtp_calls:
  "send_rtp_protect B C h p m s = (s', calls, r) \<Longrightarrow> r \<noteq> Err InvalidPacketIndex \<Longrightarrow>
   calls = fst (check_key_limit (s_base s) True m)"
proof -
  have *: "fst (snd (try_in s c r k)) = c" if "\<And>x. r = Ok x \<Longrightarrow> fst (snd (k x)) = c" for c r k
    using that by (cases r) auto
  assume run: "send_rtp_protect B C h p m s = (s', calls, r)" "r \<noteq> Err InvalidPacketIndex"
  let ?seen = "\<not> b_allow_send_repeat (s_base s) \<and>
    rtp_seen_index B (b_rtp_index (s_base s)) (rtp_estimate_index (b_rtp_index (s_base s)) (seq_num h))"
  have "\<not> ?seen"
  proof
    assume ?seen
    then have "send_rtp_protect B C h p m s = (s, [], Err InvalidPacketIndex)"
      by (simp add: send_rtp_protect_def Let_def)
    with run show False by simp
  qed
  then have "fst (snd (send_rtp_protect B C h p m s)) = fst (check_key_limit (s_base s) True m)"
    unfolding send_rtp_protect_def Let_def split_beta by (simp only: if_False) (intro *, simp)
  with run(1) show ?thesis by simp
qed

text \<open>A dead key is refused, whatever the packet, and reported to the handler once.\<close>

definition dead_reports :: "'b base_stream \<Rightarrow> bool \<Rightarrow> mki \<Rightarrow> srtp_error list" where
  "dead_reports b is_rtp m = (if b_key_limit_handler b then [KeyLimit is_rtp True m (b_ssrc b)] else [])"

lemma check_dead_key:
  assumes "b_transforms b m \<noteq> None" "lives_left b is_rtp m = 0"
  shows "check_key_limit b is_rtp m = (dead_reports b is_rtp m, Err (KeyLimit is_rtp True m (b_ssrc b)))"
  using assms
  by (cases is_rtp) (auto simp: check_key_limit_def dead_reports_def lives_left_def Let_def unat_eq_zero)

lemma send_dead_key:
  assumes "b_transforms (s_base s) m \<noteq> None"
  shows "lives_left (s_base s) True m = 0 \<Longrightarrow> b_allow_send_repeat (s_base s) \<or>
      \<not> rtp_seen_index B (b_rtp_index (s_base s)) (rtp_estimate_index (b_rtp_index (s_base s)) (seq_num h)) \<Longrightarrow>
    send_rtp_protect B C h p m s = (s, dead_reports (s_base s) True m, Err (KeyLimit True True m (b_ssrc (s_base s))))"
  and "lives_left (s_base s) False m = 0 \<Longrightarrow>
    send_rtcp_protect C h' p m s = (s, dead_reports (s_base s) False m, Err (KeyLimit False True m (b_ssrc (s_base s))))"
  using check_dead_key [OF assms] by (auto simp: send_rtp_protect_def send_rtcp_protect_def Let_def)

lemma recv_dead_key:
  assumes "b_transforms (v_base v) m \<noteq> None"
  shows "lives_left (v_base v) True m = 0 \<Longrightarrow>
    \<not> rtp_seen_index B (b_rtp_index (v_base v)) (rtp_estimate_index (b_rtp_index (v_base v)) (seq_num h)) \<Longrightarrow>
    recv_get_mki v c (header_len h) True = Ok m \<Longrightarrow>
    recv_rtp_unprotect B C h c v = (v, dead_reports (v_base v) True m, Err (KeyLimit True True m (b_ssrc (v_base v))))"
  and "lives_left (v_base v) False m = 0 \<Longrightarrow>
    rtcp_header_len + (4 + v_rtcp_tag_len v + b_mki_len (v_base v)) \<le> length c \<Longrightarrow>
    \<not> rtcp_seen_index B (v_rtcp_index v) (rtcp_trailer_index v c) \<Longrightarrow>
    recv_get_mki v c rtcp_header_len False = Ok m \<Longrightarrow>
    recv_rtcp_unprotect B C h' c v = (v, dead_reports (v_base v) False m, Err (KeyLimit False True m (b_ssrc (v_base v))))"
  using check_dead_key [OF assms] by (auto simp: recv_rtp_unprotect_def recv_rtcp_unprotect_eq Let_def)

end
