(* ===== verification/Srtp_Stream_Delivery.thy ===== *)
theory Srtp_Stream_Delivery
  imports Srtp_Stream_Safety
begin

text \<open>
  From the sending stream to the receiving one: a packet the sender protects is given back by a
  receiver that has the same transform under the same MKI, estimates the same index and has not
  seen it. Loss and reordering are covered, since nothing is asked of the packets in between. Then
  two streams of one configuration in lockstep: every packet sent in order is delivered.
\<close>

section \<open>The receiver's reading of a packet\<close>

text \<open>The receiver looks for the MKI where the transform puts it.\<close>

definition mki_aligned :: "'b recv_stream \<Rightarrow> transform \<Rightarrow> mki \<Rightarrow> bool" where
  "mki_aligned v t m \<longleftrightarrow> v_rtp_tag_len v = transform_rtp_tlen t \<and> v_rtcp_tag_len v = transform_rtcp_tlen t \<and>
     b_mki_len (v_base v) = length (mki_bytes m) \<and> m \<noteq> Some [] \<and> transform_mki t = m"

lemma recv_get_mki_rtp:
  assumes C: "crypto_laws C" and t: "transform_ok t" and al: "mki_aligned v t m"
    and h: "header_len h \<le> length p" and q: "transform_rtp_protect C t p h roc = Ok q"
  shows "recv_get_mki v q (header_len h) True = Ok m"
proof -
  have ok: "crypto_laws C \<and> transform_ok t" using C t by simp
  note pos = dyn.rtp_mki_position [OF ok h q]
  show ?thesis
    using pos al
    by (cases m) (auto simp: recv_get_mki_def mki_aligned_def base_get_mki_len_def Let_def)
qed

lemma recv_get_mki_rtcp:
  assumes C: "crypto_laws C" and t: "transform_ok t" and al: "mki_aligned v t m"
    and p: "rtcp_header_len \<le> length p" and q: "transform_rtcp_protect C t p h i = Ok q"
  shows "recv_get_mki v q rtcp_header_len False = Ok m"
proof -
  have ok: "crypto_laws C \<and> transform_ok t" using C t by simp
  note pos = dyn.rtcp_trailer_position [OF ok p q]
  show ?thesis
    using pos al
    by (cases m) (auto simp: recv_get_mki_def mki_aligned_def base_get_mki_len_def Let_def)
qed

section \<open>One packet\<close>

lemma rtp_delivery:
  assumes C: "crypto_laws C" and t: "transform_ok t" and al: "mki_aligned v t m"
    and entry: "b_transforms (v_base v) m = Some (t, l)" "l_rtp l \<noteq> 0"
    and h: "rtp_header_new p = Ok h"
    and q: "transform_rtp_protect C t p h (ucast (drop_bit 16 i)) = Ok q"
    and i: "rtp_estimate_index (b_rtp_index (v_base v)) (seq_num h) = i"
    and fresh: "\<not> rtp_seen_index B (b_rtp_index (v_base v)) i"
  shows "rtp_header_new q = Ok h"
    and "\<exists>l' calls. decrease_rtp l = Ok l' \<and>
      recv_rtp_unprotect B C h q v = (v\<lparr>v_base := with_index B (with_lives (v_base v) m t l') i\<rparr>, calls, Ok p)"
proof -
  have ok: "crypto_laws C \<and> transform_ok t" using C t by simp
  note len = rtp_header_len_bounds(2) [OF h]
  show "rtp_header_new q = Ok h" by (rule dyn.rtp_header_kept [OF ok h q])
  obtain l' where l': "decrease_rtp l = Ok l'"
    using entry(2) by (cases "decrease_rtp l") auto
  have limit: "snd (check_key_limit (v_base v) True m) = Ok ()"
    using entry by (simp add: check_key_limit_Ok_iff lives_left_def unat_gt_0)
  have plain: "transform_rtp_unprotect C t q h (ucast (drop_bit 16 i)) = Ok p"
    by (rule dyn.rtp_roundtrip [OF ok len q])
  show "\<exists>l' calls. decrease_rtp l = Ok l' \<and>
      recv_rtp_unprotect B C h q v = (v\<lparr>v_base := with_index B (with_lives (v_base v) m t l') i\<rparr>, calls, Ok p)"
    using recv_get_mki_rtp [OF C t al len q] limit plain l' entry i fresh
    by (auto simp: recv_rtp_unprotect_def Let_def split_beta with_index_def with_lives_def)
qed

lemma rtcp_delivery:
  assumes C: "crypto_laws C" and t: "transform_ok t" and al: "mki_aligned v t m"
    and entry: "b_transforms (v_base v) m = Some (t, l)" "l_rtcp l \<noteq> 0"
    and h: "rtcp_header_new p = Ok h" and i: "i < 0x80000000"
    and q: "transform_rtcp_protect C t p h i = Ok q"
    and fresh: "\<not> rtcp_seen_index B (v_rtcp_index v) i"
  shows "rtcp_header_new q = Ok h"
    and "\<exists>l' calls. decrease_rtcp l = Ok l' \<and>
      recv_rtcp_unprotect B C h q v =
        (v\<lparr>v_base := with_lives (v_base v) m t l', v_rtcp_index := rtcp_add_index B (v_rtcp_index v) i\<rparr>,
         calls, Ok p)"
proof -
  have ok: "crypto_laws C \<and> transform_ok t" using C t by simp
  note len = rtcp_header_length [OF h]
  note pos = dyn.rtcp_trailer_position [OF ok len q]
  show "rtcp_header_new q = Ok h" by (rule dyn.rtcp_header_kept [OF ok h q])
  obtain l' where l': "decrease_rtcp l = Ok l'"
    using entry(2) by (cases "decrease_rtcp l") auto
  have limit: "snd (check_key_limit (v_base v) False m) = Ok ()"
    using entry by (simp add: check_key_limit_Ok_iff lives_left_def unat_gt_0)
  have mask: "i AND 0x7fffffff = i"
    using i by (rule and_31_id)
  have tlen: "v_rtcp_tag_len v = transform_rtcp_tlen t" "b_mki_len (v_base v) = length (mki_bytes (transform_mki t))"
    using al by (auto simp: mki_aligned_def)
  have index: "rtcp_trailer_index v q = i"
    using pos(3) mask by (simp add: rtcp_trailer_index_def tlen)
  have plain: "transform_rtcp_unprotect C t q h i (4 + v_rtcp_tag_len v + b_mki_len (v_base v)) = Ok p"
    unfolding tlen by (rule dyn.rtcp_roundtrip [OF ok len q])
  show "\<exists>l' calls. decrease_rtcp l = Ok l' \<and>
      recv_rtcp_unprotect B C h q v =
        (v\<lparr>v_base := with_lives (v_base v) m t l', v_rtcp_index := rtcp_add_index B (v_rtcp_index v) i\<rparr>,
         calls, Ok p)"
    using recv_get_mki_rtcp [OF C t al len q] limit plain l' entry fresh pos(1)
    by (auto simp: recv_rtcp_unprotect_eq Let_def split_beta index tlen)
qed

section \<open>Lockstep\<close>

text \<open>
  The receiver has processed exactly what the sender sent: same transforms and lives, same RTP
  database, and the RTCP window stands for the \<open>k\<close> indices sent so far.
\<close>

definition rtcp_in_step :: "'b biguint \<Rightarrow> u32 \<Rightarrow> 'b rtcp_replay_db \<Rightarrow> bool" where
  "rtcp_in_step B i db \<longleftrightarrow>
     (\<exists>w k. rtcp_rel B db w \<and> i = rtcp_wire k \<and>
        (if k = 0 then w_top w = 0 \<and> w_hits w = {} \<and> 0 < w_size w else k = Suc (w_top w)))"

definition in_step :: "'b biguint \<Rightarrow> 'b send_stream \<Rightarrow> 'b recv_stream \<Rightarrow> bool" where
  "in_step B s v \<longleftrightarrow>
     send_ok B s \<and> recv_ok B v \<and>
     b_transforms (v_base v) = b_transforms (s_base s) \<and>
     (\<forall>m t l. b_transforms (s_base s) m = Some (t, l) \<longrightarrow> mki_aligned v t m) \<and>
     b_rtp_index (v_base v) = b_rtp_index (s_base s) \<and> \<not> b_allow_send_repeat (s_base s) \<and>
     rtcp_in_step B (s_rtcp_index s) (v_rtcp_index v)"

lemma rtcp_wire_Suc: "rtcp_wire (Suc k) = (rtcp_wire k + 1) AND 0x7fffffff"
proof (rule unsigned_word_eqI [where 'a = nat])
  have "unat (rtcp_wire k + 1) = unat (rtcp_wire k) + 1"
    using rtcp_wire_bound [of k] by (simp add: unat_plus_if')
  then show "unat (rtcp_wire (Suc k)) = unat ((rtcp_wire k + 1) AND 0x7fffffff)"
    by (simp add: and_31_nat unat_rtcp_wire mod_Suc_eq)
qed

lemma rtcp_in_step_next:
  assumes "rtcp_in_step B i db"
  shows "\<not> rtcp_seen_index B db i" "rtcp_in_step B ((i + 1) AND 0x7fffffff) (rtcp_add_index B db i)"
proof -
  from assms obtain w k where rel: "rtcp_rel B db w" and i: "i = rtcp_wire k"
    and k: "if k = 0 then w_top w = 0 \<and> w_hits w = {} \<and> 0 < w_size w else k = Suc (w_top w)"
    unfolding rtcp_in_step_def by blast
  have near: "rtcp_near w k" and unseen: "\<not> win_seen w k" and top: "w_top (win_add w k) = k"
    using k by (simp_all add: rtcp_near_def win_seen_def split: if_splits)
  show "\<not> rtcp_seen_index B db i"
    unfolding i using rtcp_window.seen_refines [OF rel near] unseen by simp
  have "rtcp_rel B (rtcp_add_index B db i) (win_add w k)"
    unfolding i by (rule rtcp_window.add_refines [OF rel near])
  moreover have "(i + 1) AND 0x7fffffff = rtcp_wire (Suc k)"
    by (simp add: i rtcp_wire_Suc)
  ultimately show "rtcp_in_step B ((i + 1) AND 0x7fffffff) (rtcp_add_index B db i)"
    unfolding rtcp_in_step_def using top by (metis nat.discI)
qed

lemma rtp_lockstep:
  assumes C: "crypto_laws C" and st: "in_step B s v" and h: "rtp_header_new p = Ok h"
    and run: "send_rtp_protect B C h p m s = (s', calls, Ok q)"
  shows "rtp_header_new q = Ok h \<and>
    (\<exists>v' calls'. recv_rtp_unprotect B C h q v = (v', calls', Ok p) \<and> in_step B s' v')"
  using run
proof (rule send_rtp_protect_Ok)
  fix t l l' i
  assume entry: "b_transforms (s_base s) m = Some (t, l)"
    and i: "i = rtp_estimate_index (b_rtp_index (s_base s)) (seq_num h)"
    and fresh: "b_allow_send_repeat (s_base s) \<or> \<not> rtp_seen_index B (b_rtp_index (s_base s)) i"
    and q: "transform_rtp_protect C t p h (ucast (drop_bit 16 i)) = Ok q"
    and l': "decrease_rtp l = Ok l'"
    and s': "s' = s\<lparr>s_base := with_index B (with_lives (s_base s) m t l') i\<rparr>"
  have entry': "b_transforms (v_base v) m = Some (t, l)" and al: "mki_aligned v t m"
    and i': "rtp_estimate_index (b_rtp_index (v_base v)) (seq_num h) = i"
    and fresh': "\<not> rtp_seen_index B (b_rtp_index (v_base v)) i"
    using st entry i fresh by (simp_all add: in_step_def)
  have t: "transform_ok t"
    using st base_ok_entry [OF _ entry] by (auto simp: in_step_def send_ok_def)
  have alive: "l_rtp l \<noteq> 0"
    using l' by (metis decrease_Panic_iff(1) result.distinct(3))
  note del = rtp_delivery [OF C t al entry' alive h q i' fresh']
  let ?v' = "v\<lparr>v_base := with_index B (with_lives (v_base v) m t l') i\<rparr>"
  from del(2) l' obtain calls' where recv: "recv_rtp_unprotect B C h q v = (?v', calls', Ok p)"
    by auto
  have "in_step B s' ?v'"
    using st send_ok_step(1) [OF _ run] recv_ok_step(1) [OF _ recv] al
    by (auto simp: in_step_def s' mki_aligned_def)
  with recv del(1) show ?thesis by blast
qed

lemma rtcp_lockstep:
  assumes C: "crypto_laws C" and st: "in_step B s v" and h: "rtcp_header_new p = Ok h"
    and run: "send_rtcp_protect C h p m s = (s', calls, Ok q)"
  shows "rtcp_header_new q = Ok h \<and>
    (\<exists>v' calls'. recv_rtcp_unprotect B C h q v = (v', calls', Ok p) \<and> in_step B s' v')"
  using run
proof (rule send_rtcp_protect_Ok)
  fix t l l'
  let ?i = "s_rtcp_index s"
  assume entry: "b_transforms (s_base s) m = Some (t, l)"
    and q: "transform_rtcp_protect C t p h ?i = Ok q" and l': "decrease_rtcp l = Ok l'"
    and s': "s' = s\<lparr>s_base := with_lives (s_base s) m t l', s_rtcp_index := (?i + 1) AND 0x7fffffff\<rparr>"
  have entry': "b_transforms (v_base v) m = Some (t, l)" and al: "mki_aligned v t m"
    and i: "?i < 0x80000000" and rtcp: "rtcp_in_step B ?i (v_rtcp_index v)"
    using st entry by (simp_all add: in_step_def send_ok_def)
  have t: "transform_ok t"
    using st base_ok_entry [OF _ entry] by (auto simp: in_step_def send_ok_def)
  have alive: "l_rtcp l \<noteq> 0"
    using l' by (metis decrease_Panic_iff(2) result.distinct(3))
  note del = rtcp_delivery [OF C t al entry' alive h i q rtcp_in_step_next(1) [OF rtcp]]
  let ?v' = "v\<lparr>v_base := with_lives (v_base v) m t l', v_rtcp_index := rtcp_add_index B (v_rtcp_index v) ?i\<rparr>"
  from del(2) l' obtain calls' where recv: "recv_rtcp_unprotect B C h q v = (?v', calls', Ok p)"
    by auto
  have "in_step B s' ?v'"
    using st send_ok_step(2) [OF _ run] recv_ok_step(2) [OF _ recv] al rtcp_in_step_next(2) [OF rtcp]
    by (auto simp: in_step_def s' mki_aligned_def)
  with recv del(1) show ?thesis by blast
qed

section \<open>Two new streams of one configuration\<close>

text \<open>No key of the configuration has the empty MKI.\<close>

definition no_empty_mki :: "stream_config \<Rightarrow> bool" where
  "no_empty_mki cfg \<longleftrightarrow> Some [] \<notin> mk_mki ` set (sc_keys cfg)"

lemma valid_config_mki_size:
  assumes "valid_config cfg" "no_empty_mki cfg" "k \<in> set (sc_keys cfg)"
  shows "length (mki_bytes (mk_mki k)) = length (mki_bytes (mk_mki (hd (sc_keys cfg))))"
proof -
  obtain k0 ks where keys: "sc_keys cfg = k0 # ks"
    using assms(3) by (cases "sc_keys cfg") auto
  show ?thesis
  proof (cases "ks = []")
    case True
    then show ?thesis using assms(3) keys by simp
  next
    case False
    then have cons: "mkis_consistent (k0 # ks)"
      using assms(1) keys by (simp add: valid_config_def)
    then obtain n where n: "\<forall>k \<in> set ks. mki_size k = n" "mki_size k0 \<in> {0, n}"
      by (auto simp: mkis_consistent_def)
    have "mk_mki k0 \<noteq> None" "mk_mki k0 \<noteq> Some []"
      using cons assms(2) keys by (auto simp: mkis_consistent_def no_empty_mki_def)
    then have "mki_size k0 \<noteq> 0" by (auto simp: mki_size_def)
    with n assms(3) keys show ?thesis by (auto simp: mki_size_def)
  qed
qed

lemma new_streams_in_step:
  assumes B: "biguint_laws B" and C: "crypto_laws C" and cfg: "config_ok cfg" "no_empty_mki cfg"
    and window: "sc_replay_window_size cfg \<noteq> 0" and rep: "\<not> sc_allow_send_repeat cfg"
    and s: "send_new B C ssrc cfg hs = Ok s" and v: "recv_new B C ssrc cfg hv = Ok v"
  shows "in_step B s v"
proof -
  from s obtain b where b: "base_new B C ssrc cfg hs = Ok b" "s = \<lparr>s_base = b, s_rtcp_index = 0\<rparr>"
    by (auto simp: send_new_def outcome_simps)
  from v obtain b' where b': "base_new B C ssrc cfg hv = Ok b'" and v_eq: "v = \<lparr>v_base = b',
      v_rtcp_index = rtcp_replay_new B (sc_replay_window_size cfg),
      v_rtp_tag_len = tag_len (sc_rtp_profile cfg), v_rtcp_tag_len = tag_len (sc_rtcp_profile cfg)\<rparr>"
    by (auto simp: recv_new_def outcome_simps)
  obtain ts where ts: "get_transforms C cfg = Ok ts" and bs: "b_transforms b = ts" "b_transforms b' = ts"
    "b_rtp_index b' = b_rtp_index b" "b_allow_send_repeat b \<longleftrightarrow> sc_allow_send_repeat cfg"
    "b_mki_len b' = length (mki_bytes (mk_mki (hd (sc_keys cfg))))"
    using base_new_Ok [OF b(1)] base_new_Ok [OF b'] by (metis base_stream.select_convs(2-4,6) result.inject(1))
  have aligned: "mki_aligned v t m" if "ts m = Some (t, l)" for m t l
  proof -
    from get_transforms_entry [OF ts that] obtain k where k: "k \<in> set (sc_keys cfg)" "mk_mki k = m"
      by blast
    have "length (mki_bytes m) = b_mki_len b'"
      using valid_config_mki_size [OF _ cfg(2) k(1)] cfg(1) k(2) by (simp add: bs config_ok_def)
    moreover have "m \<noteq> Some []"
      using cfg(2) k unfolding no_empty_mki_def by force
    ultimately show ?thesis
      using get_transforms_ok [OF C cfg(1) ts that]
      by (simp add: mki_aligned_def v_eq transform_rtp_tlen_def transform_rtcp_tlen_def)
  qed
  have "0 < unat (sc_replay_window_size cfg)"
    using window by (simp add: unat_gt_0)
  then have "rtcp_in_step B 0 (rtcp_replay_new B (sc_replay_window_size cfg))"
    unfolding rtcp_in_step_def
    by (intro exI [of _ "win_empty (unat (sc_replay_window_size cfg))"] exI [of _ 0])
      (simp add: rtcp_rel_new [OF B] rtcp_wire_def)
  with new_ok(1,2) [OF C cfg(1)] s v aligned rep bs show ?thesis
    by (auto simp: in_step_def b(2) v_eq)
qed

end
