(* ===== verification/Srtp_Stream_Runs.thy ===== *)
theory Srtp_Stream_Runs
  imports Srtp_Stream_Delivery
begin

text \<open>
  Runs of a stream: step relations over everything a session calls on it after its creation, apart
  from \<^verbatim>\<open>update\<close>, with the packets processed as labels. By rule induction on the runs: no RTP index is
  used twice, the keys do not outlive their lifetimes, the RTCP indices are consecutive, and the
  initialisation vectors do not repeat.
\<close>

section \<open>The sender\<close>

datatype send_event =
    RtpSent mki rtp_header u64
  | RtcpSent mki rtcp_header u32
  | SendFailed
  | SendKeyKilled mki

inductive send_step :: "'b biguint \<Rightarrow> crypto \<Rightarrow> 'b send_stream \<Rightarrow> send_event \<Rightarrow> 'b send_stream \<Rightarrow> bool"
  for B C where
  rtp_sent: "send_rtp_protect B C h p m s = (s', calls, Ok q) \<Longrightarrow>
    send_step B C s (RtpSent m h (rtp_estimate_index (b_rtp_index (s_base s)) (seq_num h))) s'"
| rtp_send_failed: "send_rtp_protect B C h p m s = (s', calls, r) \<Longrightarrow> \<not> is_ok r \<Longrightarrow> send_step B C s SendFailed s'"
| rtcp_sent: "send_rtcp_protect C h p m s = (s', calls, Ok q) \<Longrightarrow>
    send_step B C s (RtcpSent m h (s_rtcp_index s)) s'"
| rtcp_send_failed: "send_rtcp_protect C h p m s = (s', calls, r) \<Longrightarrow> \<not> is_ok r \<Longrightarrow> send_step B C s SendFailed s'"
| send_key_killed: "send_kill_session_keys m s = (s', r) \<Longrightarrow> send_step B C s (SendKeyKilled m) s'"

inductive send_run :: "'b biguint \<Rightarrow> crypto \<Rightarrow> 'b send_stream \<Rightarrow> send_event list \<Rightarrow> 'b send_stream \<Rightarrow> bool"
  for B C where
  send_run_nil: "send_run B C s [] s"
| send_run_cons: "send_step B C s e s' \<Longrightarrow> send_run B C s' es s'' \<Longrightarrow> send_run B C s (e # es) s''"

inductive_cases rtp_sentE: "send_step B C s (RtpSent m h i) s'"
inductive_cases rtcp_sentE: "send_step B C s (RtcpSent m h i) s'"
inductive_cases send_failedE: "send_step B C s SendFailed s'"
inductive_cases send_killedE: "send_step B C s (SendKeyKilled m) s'"
inductive_simps send_run_Nil_iff [simp]: "send_run B C s [] s'"
inductive_simps send_run_Cons_iff: "send_run B C s (e # es) s''"

fun rtp_sent_list :: "send_event list \<Rightarrow> (mki \<times> rtp_header \<times> u64) list" where
  "rtp_sent_list [] = []"
| "rtp_sent_list (RtpSent m h i # es) = (m, h, i) # rtp_sent_list es"
| "rtp_sent_list (_ # es) = rtp_sent_list es"

fun rtcp_sent_list :: "send_event list \<Rightarrow> (mki \<times> rtcp_header \<times> u32) list" where
  "rtcp_sent_list [] = []"
| "rtcp_sent_list (RtcpSent m h i # es) = (m, h, i) # rtcp_sent_list es"
| "rtcp_sent_list (_ # es) = rtcp_sent_list es"

text \<open>Each step, with what it does to the parts of the stream.\<close>

lemma kill_base:
  assumes "base_kill_session_keys m b = (b', r)"
  shows "b_rtp_index b' = b_rtp_index b" "b_allow_send_repeat b' = b_allow_send_repeat b"
    "lives_left b' x m' \<le> lives_left b x m'"
    "map_option fst (b_transforms b' m') = map_option fst (b_transforms b m')"
  using assms by (auto simp: base_kill_session_keys_def lives_left_def split: option.splits prod.splits if_splits)

lemma lives_left_with_rtp:
  assumes "b_transforms b m = Some (t, l)" "decrease_rtp l = Ok l'"
  shows "lives_left (with_lives b m t l') True m' + (if m' = m then 1 else 0) = lives_left b True m'"
    and "lives_left (with_lives b m t l') False m' \<le> lives_left b False m'"
  using decrease_rtp_Ok(1,2) [OF assms(2)] assms(1) by (auto simp: lives_left_def split: option.split)

lemma lives_left_with_rtcp:
  assumes "b_transforms b m = Some (t, l)" "decrease_rtcp l = Ok l'"
  shows "lives_left (with_lives b m t l') False m' + (if m' = m then 1 else 0) = lives_left b False m'"
    and "lives_left (with_lives b m t l') True m' \<le> lives_left b True m'"
  using decrease_rtcp_Ok(1,2) [OF assms(2)] assms(1) by (auto simp: lives_left_def split: option.split)

lemma lives_left_with_index [simp]: "lives_left (with_index B b i) x m = lives_left b x m"
  by (simp add: lives_left_def)

text \<open>One admission of an index, on a database and the window it stands for.\<close>

lemma rtp_admit_step:
  assumes "rtp_rel B db w" "\<not> rtp_seen_index B db i"
  shows "rtp_rel B (rtp_add_index B db i) (win_add w (unat i))" "unat i \<notin> w_hits w"
proof -
  have i: "rtp_near w (unat i)" "word_of_nat (unat i) = i"
    using unat_bounds(4) [of i] by (simp_all add: rtp_near_def)
  show "rtp_rel B (rtp_add_index B db i) (win_add w (unat i))"
    using rtp_window.add_refines [OF assms(1) i(1)] by (simp only: i(2))
  have "\<not> win_seen w (unat i)"
    using rtp_window.seen_refines [OF assms(1) i(1)] assms(2) by (simp only: i(2)) simp
  then show "unat i \<notin> w_hits w"
    using win_seen_hit [OF rtp_window.rel_ok [OF assms(1)]] by blast
qed

text \<open>The four kinds of steps.\<close>

lemma send_step_kinds:
  assumes "send_step B C s e s'"
  obtains (rtp) m h i t l l' where "e = RtpSent m h i" "b_transforms (s_base s) m = Some (t, l)"
      "i = rtp_estimate_index (b_rtp_index (s_base s)) (seq_num h)" "decrease_rtp l = Ok l'"
      "b_allow_send_repeat (s_base s) \<or> \<not> rtp_seen_index B (b_rtp_index (s_base s)) i"
      "s_base s' = with_index B (with_lives (s_base s) m t l') i" "s_rtcp_index s' = s_rtcp_index s"
    | (rtcp) m h t l l' where "e = RtcpSent m h (s_rtcp_index s)" "b_transforms (s_base s) m = Some (t, l)"
      "decrease_rtcp l = Ok l'" "s_base s' = with_lives (s_base s) m t l'"
      "s_rtcp_index s' = (s_rtcp_index s + 1) AND 0x7fffffff"
    | (failed) "e = SendFailed" "s' = s"
    | (killed) m r where "e = SendKeyKilled m" "base_kill_session_keys m (s_base s) = (s_base s', r)"
      "s_rtcp_index s' = s_rtcp_index s"
  using assms
proof cases
  case (rtp_sent h p m calls q)
  from this(2) show ?thesis
    by (rule send_rtp_protect_Ok) (rule that(1), use rtp_sent(1) in auto)
next
  case (rtcp_sent h p m calls q)
  from this(2) show ?thesis
    by (rule send_rtcp_protect_Ok) (rule that(2), use rtcp_sent(1) in auto)
next
  case (rtp_send_failed h p m calls r)
  then show ?thesis
    using that(3) fails_unchangedD [of s s' calls r] send_fails_unchanged(1) [of s B C h p m] by simp
next
  case (rtcp_send_failed h p m calls r)
  then show ?thesis
    using that(3) fails_unchangedD [of s s' calls r] send_fails_unchanged(2) [of s C h p m] by simp
next
  case (send_key_killed m r)
  then show ?thesis
    using that(4) by (auto simp: send_kill_session_keys_def split: prod.splits)
qed

lemma send_step_ok: "send_step B C s e s' \<Longrightarrow> send_ok B s \<Longrightarrow> send_ok B s'"
  by (erule send_step.cases) (auto intro: send_ok_step dest: kill_ok(1))

lemma send_run_ok: "send_run B C s es s' \<Longrightarrow> send_ok B s \<Longrightarrow> send_ok B s'"
  by (induction rule: send_run.induct) (auto intro: send_step_ok)

text \<open>A well-formed stream has a window of indices sent; a run adds the indices it sends.\<close>

lemma base_rel_exists: "biguint_laws B \<Longrightarrow> base_ok B b \<Longrightarrow> \<exists>w. rtp_rel B (b_rtp_index b) w"
  using rtp_rel_exists by (auto simp: base_ok_def mask_ok_def)

abbreviation sent_indices :: "send_event list \<Rightarrow> nat list" where
  "sent_indices es \<equiv> map (\<lambda>(m, h, i). unat i) (rtp_sent_list es)"

lemma send_run_indices:
  assumes "send_run B C s es s'" "rtp_rel B (b_rtp_index (s_base s)) w" "\<not> b_allow_send_repeat (s_base s)"
  shows "distinct (sent_indices es) \<and> set (sent_indices es) \<inter> w_hits w = {}"
  using assms
proof (induction arbitrary: w rule: send_run.induct)
  case send_run_nil
  then show ?case by simp
next
  case (send_run_cons s e s' es s'')
  from send_run_cons.hyps(1) show ?case
  proof (cases rule: send_step_kinds)
    case (rtp m h i t l l')
    with send_run_cons.prems have fresh: "\<not> rtp_seen_index B (b_rtp_index (s_base s)) i" by simp
    note adm = rtp_admit_step [OF send_run_cons.prems(1) fresh]
    show ?thesis
      using send_run_cons.IH [of "win_add w (unat i)"] adm rtp send_run_cons.prems by simp
  next
    case rtcp
    then show ?thesis using send_run_cons.IH [of w] send_run_cons.prems by simp
  next
    case failed
    then show ?thesis using send_run_cons.IH [of w] send_run_cons.prems by simp
  next
    case (killed m r)
    then show ?thesis using send_run_cons.IH [of w] send_run_cons.prems kill_base(1,2) [OF killed(2)] by simp
  qed
qed

lemma send_run_distinct:
  "biguint_laws B \<Longrightarrow> send_ok B s \<Longrightarrow> \<not> b_allow_send_repeat (s_base s) \<Longrightarrow> send_run B C s es s' \<Longrightarrow>
   distinct (sent_indices es)"
  using base_rel_exists [of B "s_base s"] send_run_indices [of B C s es s'] by (auto simp: send_ok_def)

text \<open>Lives are spent one by one.\<close>

lemma send_run_lives:
  "send_run B C s es s' \<Longrightarrow>
   length (filter (\<lambda>(m', h, i). m' = m) (rtp_sent_list es)) + lives_left (s_base s') True m
     \<le> lives_left (s_base s) True m \<and>
   length (filter (\<lambda>(m', h, i). m' = m) (rtcp_sent_list es)) + lives_left (s_base s') False m
     \<le> lives_left (s_base s) False m"
proof (induction rule: send_run.induct)
  case send_run_nil
  then show ?case by simp
next
  case (send_run_cons s e s' es s'')
  from send_run_cons.hyps(1) show ?case
  proof (cases rule: send_step_kinds)
    case (rtp m' h i t l l')
    then show ?thesis
      using send_run_cons.IH lives_left_with_rtp [OF rtp(2,4), of m] by (auto split: if_splits)
  next
    case (rtcp m' h t l l')
    then show ?thesis
      using send_run_cons.IH lives_left_with_rtcp [OF rtcp(2,3), of m] by (auto split: if_splits)
  next
    case failed
    then show ?thesis using send_run_cons.IH by simp
  next
    case (killed m' r)
    then show ?thesis
      using send_run_cons.IH kill_base(3) [OF killed(2), of True m] kill_base(3) [OF killed(2), of False m]
      by simp
  qed
qed

text \<open>RTCP indices are consecutive modulo \<open>2^31\<close>.\<close>

lemma send_run_rtcp_indices:
  "send_run B C s es s' \<Longrightarrow> s_rtcp_index s = rtcp_wire k \<Longrightarrow>
   map (\<lambda>(m, h, i). i) (rtcp_sent_list es) = map rtcp_wire [k..<k + length (rtcp_sent_list es)]"
proof (induction arbitrary: k rule: send_run.induct)
  case send_run_nil
  then show ?case by simp
next
  case (send_run_cons s e s' es s'')
  from send_run_cons.hyps(1) show ?case
  proof (cases rule: send_step_kinds)
    case (rtcp m h t l l')
    let ?n = "length (rtcp_sent_list es)"
    have "map (\<lambda>(m, h, i). i) (rtcp_sent_list es) = map rtcp_wire [Suc k..<Suc k + ?n]"
      using send_run_cons.IH [of "Suc k"] send_run_cons.prems rtcp by (simp only: rtcp_wire_Suc)
    moreover have "[k..<k + Suc ?n] = k # [Suc k..<Suc k + ?n]"
      by (simp add: upt_conv_Cons del: upt_Suc)
    ultimately show ?thesis
      using rtcp(1) send_run_cons.prems by (simp del: upt_Suc)
  qed (use send_run_cons.IH [of k] send_run_cons.prems in simp_all)
qed

lemma rtcp_wire_inj: "rtcp_wire a = rtcp_wire b \<Longrightarrow> a \<le> b \<Longrightarrow> b < a + 2147483648 \<Longrightarrow> a = b"
proof -
  assume "rtcp_wire a = rtcp_wire b" and ab: "a \<le> b" "b < a + 2147483648"
  then have "a mod 2147483648 = b mod 2147483648"
    by (metis unat_rtcp_wire)
  then have "2147483648 dvd b - a"
    using ab(1) mod_eq_dvd_iff_nat by metis
  then show "a = b"
    using ab by (cases "b - a = 0") (auto dest: dvd_imp_le)
qed

lemma rtcp_wire_distinct: "n \<le> 2147483648 \<Longrightarrow> distinct (map rtcp_wire [k..<k + n])"
proof -
  assume n: "n \<le> 2147483648"
  have "a = b" if "a < k + n" "k \<le> a" "b < k + n" "k \<le> b" "rtcp_wire a = rtcp_wire b" for a b
    using rtcp_wire_inj [of a b] rtcp_wire_inj [of b a] that n by (cases "a \<le> b") auto
  then show ?thesis
    by (auto simp: distinct_map inj_on_def)
qed

text \<open>The same for a stream in any well-formed state, as long as fewer than \<open>2^31\<close> packets go out.\<close>

lemma rtcp_wire_unat: "i < 0x80000000 \<Longrightarrow> rtcp_wire (unat i) = i"
  by (rule unsigned_word_eqI [where 'a = nat]) (simp add: unat_rtcp_wire word_less_nat_alt)

lemma send_run_rtcp_distinct:
  assumes "send_ok B s" "send_run B C s es s'" "length (rtcp_sent_list es) \<le> 2147483648"
  shows "distinct (map (\<lambda>(m, h, i). i) (rtcp_sent_list es))"
proof -
  have "s_rtcp_index s = rtcp_wire (unat (s_rtcp_index s))"
    using assms(1) rtcp_wire_unat by (simp add: send_ok_def)
  from send_run_rtcp_indices [OF assms(2) this] rtcp_wire_distinct [OF assms(3)] show ?thesis
    by (simp only:)
qed

text \<open>A single key cannot send more packets than that.\<close>

lemma lives_left_max:
  assumes "base_ok B b"
  shows "lives_left b False m \<le> 2147483648" "lives_left b True m \<le> 281474976710656"
proof -
  have "unat (l_rtp l) \<le> 281474976710656 \<and> unat (l_rtcp l) \<le> 2147483648"
    if "b_transforms b m = Some (t, l)" for t l
    using base_ok_entry [OF assms that]
    by (simp add: lifetime_ok_def word_le_nat_alt MAX_RTP_SESSION_KEY_LIVES_def MAX_RTCP_SESSION_KEY_LIVES_def)
  then show "lives_left b False m \<le> 2147483648" "lives_left b True m \<le> 281474976710656"
    by (auto simp: lives_left_def split: option.split)
qed

lemma send_run_one_key:
  assumes "send_ok B s" "send_run B C s es s'" "\<forall>(m', h, i) \<in> set (rtcp_sent_list es). m' = m"
  shows "length (rtcp_sent_list es) \<le> 2147483648"
proof -
  have "filter (\<lambda>(m', h, i). m' = m) (rtcp_sent_list es) = rtcp_sent_list es"
    using assms(3) by (simp add: filter_id_conv)
  then have "length (rtcp_sent_list es) \<le> lives_left (s_base s) False m"
    using send_run_lives [OF assms(2), of m] by simp
  also have "\<dots> \<le> 2147483648"
    using assms(1) lives_left_max(1) [of B "s_base s" m] by (simp add: send_ok_def)
  finally show ?thesis .
qed

text \<open>
  With several keys the counter wraps, and the indices start again under the keys that are alive.
\<close>

lemma send_run_rtcp_wraps:
  assumes "send_ok B s" "send_run B C s es s'" "j + 2147483648 < length (rtcp_sent_list es)"
  shows "snd (snd (rtcp_sent_list es ! (j + 2147483648))) = snd (snd (rtcp_sent_list es ! j))"
proof -
  let ?k = "unat (s_rtcp_index s)" and ?l = "rtcp_sent_list es"
  have "s_rtcp_index s = rtcp_wire ?k"
    using assms(1) rtcp_wire_unat by (simp add: send_ok_def)
  from send_run_rtcp_indices [OF assms(2) this]
  have idx: "map (\<lambda>(m, h, i). i) ?l = map rtcp_wire [?k..<?k + length ?l]" .
  have nth: "snd (snd (?l ! n)) = rtcp_wire (?k + n)" if "n < length ?l" for n
  proof -
    have "snd (snd (?l ! n)) = map (\<lambda>(m, h, i). i) ?l ! n"
      using that by (simp add: split_beta)
    then show ?thesis
      using that unfolding idx by simp
  qed
  show ?thesis
    using nth [OF assms(3)] nth [of j] assms(3) by (simp add: rtcp_wire_def add.assoc [symmetric])
qed

lemma send_run_rtcp_distinct_iff:
  assumes "send_ok B s" "send_run B C s es s'"
  shows "distinct (map (\<lambda>(m, h, i). i) (rtcp_sent_list es)) \<longleftrightarrow> length (rtcp_sent_list es) \<le> 2147483648"
proof (cases "length (rtcp_sent_list es) \<le> 2147483648")
  case True
  then show ?thesis using send_run_rtcp_distinct [OF assms] by simp
next
  case False
  let ?is = "map (\<lambda>(m, h, i). i) (rtcp_sent_list es)"
  have nth: "?is ! n = snd (snd (rtcp_sent_list es ! n))" if "n < length (rtcp_sent_list es)" for n
    using that by (simp add: split_beta)
  have l: "0 + 2147483648 < length (rtcp_sent_list es)" "0 < length (rtcp_sent_list es)"
    using False by linarith+
  have "?is ! (0 + 2147483648) = ?is ! 0"
    unfolding nth [OF l(1)] nth [OF l(2)] by (rule send_run_rtcp_wraps [OF assms l(1)])
  moreover have "?is ! (0 + 2147483648) \<noteq> ?is ! 0" if "distinct ?is"
    using nth_eq_iff_index_eq [OF that, of "0 + 2147483648" 0] l by (simp only: length_map)
  ultimately have "\<not> distinct ?is" by blast
  with False show ?thesis by simp
qed

subsection \<open>Initialisation vectors\<close>

text \<open>Every RTP packet sent carries the sequence number of its index.\<close>

lemma send_run_seq:
  "send_run B C s es s' \<Longrightarrow> (m, h, i) \<in> set (rtp_sent_list es) \<Longrightarrow> unat (seq_num h) = unat i mod 65536"
proof (induction rule: send_run.induct)
  case send_run_nil
  then show ?case by simp
next
  case (send_run_cons s e s' es s'')
  from send_run_cons.hyps(1) show ?case
    by (cases rule: send_step_kinds) (use send_run_cons.IH send_run_cons.prems in \<open>auto simp: estimate_index_seq\<close>)
qed

text \<open>The ROC and the sequence number determine an index on 48 bits.\<close>

lemma unat_roc: "unat (ucast (drop_bit 16 (i :: u64)) :: u32) = unat i div 65536 mod 4294967296"
proof -
  have "unat (ucast (drop_bit 16 i) :: u32) = take_bit 32 (take_bit 64 (drop_bit 16 (unat i)))"
    by (simp add: unsigned_ucast_eq unsigned_drop_bit_eq take_bit_drop_bit)
  then show ?thesis
    by (simp add: take_bit_eq_mod drop_bit_eq_div mod_mod_cancel)
qed

lemma index_of_roc_seq:
  assumes "unat i < 2 ^ 48" "unat j < 2 ^ 48"
    and "(ucast (drop_bit 16 (i :: u64)) :: u32) = ucast (drop_bit 16 j)" "unat i mod 65536 = unat j mod 65536"
  shows "i = j"
proof -
  have "unat i div 65536 < 4294967296" "unat j div 65536 < 4294967296"
    using assms(1,2) by (simp_all add: less_mult_imp_div_less)
  then have "unat i div 65536 = unat j div 65536"
    using unat_roc [of i] unat_roc [of j] assms(3) by simp
  with assms(4) have "unat i = unat j"
    by (metis div_mult_mod_eq)
  then show ?thesis by (rule unsigned_word_eqI)
qed

text \<open>
  \<open>iv\<close> is any function of the header and the ROC that determines the sequence number and the ROC,
  as the initialisation vectors of both transforms do.
\<close>

lemma send_run_iv_distinct:
  assumes B: "biguint_laws B" and s: "send_ok B s" and rep: "\<not> b_allow_send_repeat (s_base s)"
    and run: "send_run B C s es s'" and range: "\<forall>(m, h, i) \<in> set (rtp_sent_list es). unat i < 2 ^ 48"
    and iv: "\<And>h r h' r'. iv h r = iv h' r' \<Longrightarrow> r = r' \<and> seq_num h = seq_num h'"
  shows "distinct (map (\<lambda>(m, h, i). iv h (ucast (drop_bit 16 i) :: u32)) (rtp_sent_list es))"
proof -
  have inj: "unat i = unat j" if "(m, h, i) \<in> set (rtp_sent_list es)" "(m', h', j) \<in> set (rtp_sent_list es)"
    "iv h (ucast (drop_bit 16 i)) = iv h' (ucast (drop_bit 16 j))" for m h i m' h' j
  proof -
    have "unat i mod 65536 = unat j mod 65536"
      using send_run_seq [OF run that(1)] send_run_seq [OF run that(2)] iv [OF that(3)] by simp
    then show ?thesis
      using index_of_roc_seq [of i j] iv [OF that(3)] range that(1,2) by fastforce
  qed
  have d: "distinct (sent_indices es)" by (rule send_run_distinct [OF B s rep run])
  from d have dl: "distinct (rtp_sent_list es)" and dm: "inj_on (\<lambda>(m, h, i). unat i) (set (rtp_sent_list es))"
    by (simp_all add: distinct_map)
  have "inj_on (\<lambda>(m, h, i). iv h (ucast (drop_bit 16 i))) (set (rtp_sent_list es))"
  proof (rule inj_onI)
    fix x y assume xy: "x \<in> set (rtp_sent_list es)" "y \<in> set (rtp_sent_list es)"
      "(case x of (m, h, i) \<Rightarrow> iv h (ucast (drop_bit 16 i))) = (case y of (m, h, i) \<Rightarrow> iv h (ucast (drop_bit 16 i)))"
    obtain m h i where x: "x = (m, h, i)" by (cases x)
    obtain m' h' j where y: "y = (m', h', j)" by (cases y)
    have "unat i = unat j" by (rule inj) (use xy in \<open>simp_all add: x y\<close>)
    then have "(\<lambda>(m, h, i). unat i) x = (\<lambda>(m, h, i). unat i) y" by (simp add: x y)
    then show "x = y" using dm xy(1,2) by (simp only: inj_on_def)
  qed
  with dl show ?thesis by (simp add: distinct_map)
qed

section \<open>The receiver\<close>

datatype recv_event =
    RtpAccepted mki u64 bytes
  | RtcpAccepted mki u32 bytes
  | Rejected
  | RocSet u32
  | RecvKeyKilled mki

inductive recv_step :: "'b biguint \<Rightarrow> crypto \<Rightarrow> 'b recv_stream \<Rightarrow> recv_event \<Rightarrow> 'b recv_stream \<Rightarrow> bool"
  for B C where
  rtp_accepted: "recv_rtp_unprotect B C h c v = (v', calls, Ok p) \<Longrightarrow>
    recv_get_mki v c (header_len h) True = Ok m \<Longrightarrow>
    recv_step B C v (RtpAccepted m (rtp_estimate_index (b_rtp_index (v_base v)) (seq_num h)) p) v'"
| rtp_rejected: "recv_rtp_unprotect B C h c v = (v', calls, r) \<Longrightarrow> \<not> is_ok r \<Longrightarrow> recv_step B C v Rejected v'"
| rtcp_accepted: "recv_rtcp_unprotect B C h c v = (v', calls, Ok p) \<Longrightarrow>
    recv_get_mki v c rtcp_header_len False = Ok m \<Longrightarrow>
    recv_step B C v (RtcpAccepted m (rtcp_trailer_index v c) p) v'"
| rtcp_rejected: "recv_rtcp_unprotect B C h c v = (v', calls, r) \<Longrightarrow> \<not> is_ok r \<Longrightarrow> recv_step B C v Rejected v'"
| roc_set: "recv_set_roc roc v = (v', r) \<Longrightarrow> recv_step B C v (RocSet roc) v'"
| recv_key_killed: "recv_kill_session_keys m v = (v', r) \<Longrightarrow> recv_step B C v (RecvKeyKilled m) v'"

inductive recv_run :: "'b biguint \<Rightarrow> crypto \<Rightarrow> 'b recv_stream \<Rightarrow> recv_event list \<Rightarrow> 'b recv_stream \<Rightarrow> bool"
  for B C where
  recv_run_nil: "recv_run B C v [] v"
| recv_run_cons: "recv_step B C v e v' \<Longrightarrow> recv_run B C v' es v'' \<Longrightarrow> recv_run B C v (e # es) v''"

inductive_simps recv_run_Nil_iff [simp]: "recv_run B C v [] v'"
inductive_simps recv_run_Cons_iff: "recv_run B C v (e # es) v''"

fun rtp_accepted_list :: "recv_event list \<Rightarrow> (mki \<times> u64) list" where
  "rtp_accepted_list [] = []"
| "rtp_accepted_list (RtpAccepted m i p # es) = (m, i) # rtp_accepted_list es"
| "rtp_accepted_list (_ # es) = rtp_accepted_list es"

fun rtcp_accepted_list :: "recv_event list \<Rightarrow> (mki \<times> u32) list" where
  "rtcp_accepted_list [] = []"
| "rtcp_accepted_list (RtcpAccepted m i p # es) = (m, i) # rtcp_accepted_list es"
| "rtcp_accepted_list (_ # es) = rtcp_accepted_list es"

lemma recv_step_kinds:
  assumes "recv_step B C v e v'"
  obtains (rtp) m i p t l l' where "e = RtpAccepted m i p" "b_transforms (v_base v) m = Some (t, l)"
      "decrease_rtp l = Ok l'" "\<not> rtp_seen_index B (b_rtp_index (v_base v)) i"
      "v_base v' = with_index B (with_lives (v_base v) m t l') i" "v_rtcp_index v' = v_rtcp_index v"
    | (rtcp) m i p t l l' where "e = RtcpAccepted m i p" "b_transforms (v_base v) m = Some (t, l)"
      "decrease_rtcp l = Ok l'" "i < 0x80000000" "\<not> rtcp_seen_index B (v_rtcp_index v) i"
      "v_base v' = with_lives (v_base v) m t l'" "v_rtcp_index v' = rtcp_add_index B (v_rtcp_index v) i"
    | (rejected) "e = Rejected" "v' = v"
    | (roc) roc r where "e = RocSet roc" "recv_set_roc roc v = (v', r)"
    | (killed) m r where "e = RecvKeyKilled m" "base_kill_session_keys m (v_base v) = (v_base v', r)"
      "v_rtcp_index v' = v_rtcp_index v"
  using assms
proof cases
  case (rtp_accepted h c calls p m)
  from this(2) show ?thesis
    by (rule recv_rtp_unprotect_Ok) (rule that(1), use rtp_accepted(1,3) in auto)
next
  case (rtcp_accepted h c calls p m)
  from this(2) show ?thesis
    by (rule recv_rtcp_unprotect_Ok)
      (rule that(2), use rtcp_accepted(1,3) in \<open>auto simp: rtcp_trailer_index_def and_31_less\<close>)
next
  case (rtp_rejected h c calls r)
  then show ?thesis
    using that(3) fails_unchangedD [of v v' calls r] recv_fails_unchanged(1) [of v B C h c] by simp
next
  case (rtcp_rejected h c calls r)
  then show ?thesis
    using that(3) fails_unchangedD [of v v' calls r] recv_fails_unchanged(2) [of v B C h c] by simp
next
  case (roc_set roc r)
  then show ?thesis by (rule that(4))
next
  case (recv_key_killed m r)
  then show ?thesis
    using that(5) by (auto simp: recv_kill_session_keys_def split: prod.splits)
qed

lemma recv_step_ok: "recv_step B C v e v' \<Longrightarrow> recv_ok B v \<Longrightarrow> recv_ok B v'"
  by (erule recv_step.cases) (auto intro: recv_ok_step dest: kill_ok(2) set_roc_ok)

lemma recv_run_ok: "recv_run B C v es v' \<Longrightarrow> recv_ok B v \<Longrightarrow> recv_ok B v'"
  by (induction rule: recv_run.induct) (auto intro: recv_step_ok)

lemma set_roc_rel:
  assumes "recv_set_roc roc v = (v', r)"
  shows "rtp_rel B (b_rtp_index (v_base v')) w \<longleftrightarrow> rtp_rel B (b_rtp_index (v_base v)) w"
    "lives_left (v_base v') x m = lives_left (v_base v) x m" "v_rtcp_index v' = v_rtcp_index v"
  using assms by (auto simp: recv_set_roc_def rtp_set_roc_def rtp_rel_def lives_left_def split: if_splits)

lemma recv_run_indices:
  assumes "recv_run B C v es v'" "rtp_rel B (b_rtp_index (v_base v)) w"
  shows "distinct (map (unat \<circ> snd) (rtp_accepted_list es)) \<and>
    (unat \<circ> snd) ` set (rtp_accepted_list es) \<inter> w_hits w = {}"
  using assms
proof (induction arbitrary: w rule: recv_run.induct)
  case recv_run_nil
  then show ?case by simp
next
  case (recv_run_cons v e v' es v'')
  from recv_run_cons.hyps(1) show ?case
  proof (cases rule: recv_step_kinds)
    case (rtp m i p t l l')
    note adm = rtp_admit_step [OF recv_run_cons.prems rtp(4)]
    show ?thesis
      using recv_run_cons.IH [of "win_add w (unat i)"] adm rtp by auto
  next
    case rtcp
    then show ?thesis using recv_run_cons.IH [of w] recv_run_cons.prems by simp
  next
    case rejected
    then show ?thesis using recv_run_cons.IH [of w] recv_run_cons.prems by simp
  next
    case (roc roc' r)
    then show ?thesis using recv_run_cons.IH [of w] recv_run_cons.prems set_roc_rel(1) [OF roc(2)] by simp
  next
    case (killed m r)
    then show ?thesis using recv_run_cons.IH [of w] recv_run_cons.prems kill_base(1) [OF killed(2)] by simp
  qed
qed

lemma recv_run_distinct:
  "biguint_laws B \<Longrightarrow> recv_ok B v \<Longrightarrow> recv_run B C v es v' \<Longrightarrow> distinct (map snd (rtp_accepted_list es))"
  using base_rel_exists [of B "v_base v"] recv_run_indices [of B C v es v']
  by (auto simp: recv_ok_def distinct_map comp_inj_on_iff dest: inj_on_imageI2)

lemma recv_run_lives:
  "recv_run B C v es v' \<Longrightarrow>
   length (filter (\<lambda>(m', i). m' = m) (rtp_accepted_list es)) + lives_left (v_base v') True m
     \<le> lives_left (v_base v) True m \<and>
   length (filter (\<lambda>(m', i). m' = m) (rtcp_accepted_list es)) + lives_left (v_base v') False m
     \<le> lives_left (v_base v) False m"
proof (induction rule: recv_run.induct)
  case recv_run_nil
  then show ?case by simp
next
  case (recv_run_cons v e v' es v'')
  from recv_run_cons.hyps(1) show ?case
  proof (cases rule: recv_step_kinds)
    case (rtp m' i p t l l')
    then show ?thesis
      using recv_run_cons.IH lives_left_with_rtp [OF rtp(2,3), of m] by (auto split: if_splits)
  next
    case (rtcp m' i p t l l')
    then show ?thesis
      using recv_run_cons.IH lives_left_with_rtcp [OF rtcp(2,3), of m] by (auto split: if_splits)
  next
    case rejected
    then show ?thesis using recv_run_cons.IH by simp
  next
    case (roc roc' r)
    then show ?thesis
      using recv_run_cons.IH set_roc_rel(2) [OF roc(2), of True m] set_roc_rel(2) [OF roc(2), of False m] by simp
  next
    case (killed m' r)
    then show ?thesis
      using recv_run_cons.IH kill_base(3) [OF killed(2), of True m] kill_base(3) [OF killed(2), of False m]
      by simp
  qed
qed

end
