(* ===== verification/Srtp_Session.thy ===== *)
theory Srtp_Session
  imports Srtp_Stream_Runs
begin

text \<open>
  The sessions of \<^verbatim>\<open>libsrtp/src/session.rs\<close>: streams indexed by SSRC, some spawned from a template
  configuration. \<^verbatim>\<open>Session<T>\<close> is generic over the trait \<^verbatim>\<open>StreamInterface\<close>: its methods take
  the methods of the trait as the record \<open>stream_ops\<close>. The locale \<open>stream_interface\<close> is what a
  session relies on, with its lemmas proved once for both kinds of stream.
\<close>

section \<open>The generic session\<close>

record 't stream_ops =
  op_new :: "u32 \<Rightarrow> stream_config \<Rightarrow> bool \<Rightarrow> 't result"
  op_update :: "mki list \<Rightarrow> stream_config \<Rightarrow> 't \<Rightarrow> 't \<times> unit result"
  op_get_roc :: "'t \<Rightarrow> u32"
  op_kill_session_keys :: "mki \<Rightarrow> 't \<Rightarrow> 't \<times> unit result"

record 't session =
  streams :: "u32 \<rightharpoonup> 't \<times> bool"
  template_config :: "stream_config option"
  key_limit_handler :: bool

definition session_new :: "'t session" where
  "session_new = \<lparr>streams = Map.empty, template_config = None, key_limit_handler = False\<rparr>"

definition set_key_limit_handler :: "'t session \<Rightarrow> 't session \<times> unit result" where
  "set_key_limit_handler s =
     (if streams s \<noteq> Map.empty then (s, Err ContextNotReady)
      else (s\<lparr>key_limit_handler := True\<rparr>, Ok ()))"

text \<open>
  The loop of \<^verbatim>\<open>add_stream\<close> over the streams spawned from the template, in the order of the map;
  \<open>order\<close> gives, for each stream, the order in which its update merges the new transforms.
\<close>

fun update_templated ::
    "'t stream_ops \<Rightarrow> (u32 \<Rightarrow> mki list) \<Rightarrow> stream_config \<Rightarrow> u32 list \<Rightarrow> (u32 \<rightharpoonup> 't \<times> bool) \<Rightarrow>
     (u32 \<rightharpoonup> 't \<times> bool) \<times> unit result" where
  "update_templated ops order cfg [] st = (st, Ok ())"
| "update_templated ops order cfg (ssrc # ssrcs) st =
     (case st ssrc of
        Some (stream, True) \<Rightarrow>
          (case op_update ops (order ssrc) cfg stream of
             (stream', Ok _) \<Rightarrow> update_templated ops order cfg ssrcs (st(ssrc \<mapsto> (stream', True)))
           | (stream', r) \<Rightarrow> (st(ssrc \<mapsto> (stream', True)), r))
      | _ \<Rightarrow> update_templated ops order cfg ssrcs st)"

definition add_stream ::
    "'t stream_ops \<Rightarrow> u32 list \<Rightarrow> (u32 \<Rightarrow> mki list) \<Rightarrow> u32 option \<Rightarrow> stream_config \<Rightarrow> 't session \<Rightarrow>
     't session \<times> unit result" where
  "add_stream ops ssrcs order ssrc cfg s =
     (case validate cfg of
        Err e \<Rightarrow> (s, Err e)
      | Panic \<Rightarrow> (s, Panic)
      | Ok _ \<Rightarrow>
          (case ssrc of
             None \<Rightarrow>
               (case update_templated ops order cfg ssrcs (streams s) of
                  (st, Ok _) \<Rightarrow> (s\<lparr>streams := st, template_config := Some cfg\<rparr>, Ok ())
                | (st, r) \<Rightarrow> (s\<lparr>streams := st\<rparr>, r))
           | Some ssrc \<Rightarrow>
               (case streams s ssrc of
                  None \<Rightarrow>
                    (case op_new ops ssrc cfg (key_limit_handler s) of
                       Ok stream \<Rightarrow> (s\<lparr>streams := (streams s)(ssrc \<mapsto> (stream, False))\<rparr>, Ok ())
                     | Err e \<Rightarrow> (s, Err e)
                     | Panic \<Rightarrow> (s, Panic))
                | Some (stream, from_template) \<Rightarrow>
                    (case op_update ops (order ssrc) cfg stream of
                       (stream', Ok _) \<Rightarrow> (s\<lparr>streams := (streams s)(ssrc \<mapsto> (stream', False))\<rparr>, Ok ())
                     | (stream', r) \<Rightarrow> (s\<lparr>streams := (streams s)(ssrc \<mapsto> (stream', from_template))\<rparr>, r)))))"

definition remove_stream :: "u32 \<Rightarrow> 't session \<Rightarrow> 't session \<times> unit result" where
  "remove_stream ssrc s =
     (case streams s ssrc of
        None \<Rightarrow> (s, Err StreamNotFound)
      | Some _ \<Rightarrow> (s\<lparr>streams := (streams s)(ssrc := None)\<rparr>, Ok ()))"

definition get_roc :: "'t stream_ops \<Rightarrow> u32 \<Rightarrow> 't session \<Rightarrow> u32 result" where
  "get_roc ops ssrc s =
     and_then (ok_or (streams s ssrc) StreamNotFound) (\<lambda>(stream, _). Ok (op_get_roc ops stream))"

text \<open>\<^verbatim>\<open>get_stream\<close>: the stream, whether it comes from the template, whether it is pending.\<close>

definition get_stream ::
    "'t stream_ops \<Rightarrow> u32 \<Rightarrow> 't session \<Rightarrow> 't session \<times> ('t \<times> bool \<times> bool) result" where
  "get_stream ops ssrc s =
     (case streams s ssrc of
        Some (stream, from_template) \<Rightarrow> (s, Ok (stream, from_template, False))
      | None \<Rightarrow>
          (case and_then (ok_or (template_config s) StreamNotFound)
                  (\<lambda>cfg. op_new ops ssrc cfg (key_limit_handler s)) of
             Ok stream \<Rightarrow> (s\<lparr>streams := (streams s)(ssrc \<mapsto> (stream, True))\<rparr>, Ok (stream, True, True))
           | Err e \<Rightarrow> (s, Err e)
           | Panic \<Rightarrow> (s, Panic)))"

text \<open>
  The loop over the templated streams kills a key in each of them; the bodies are independent, so
  the order does not show.
\<close>

definition kill_templated :: "'t stream_ops \<Rightarrow> mki \<Rightarrow> (u32 \<rightharpoonup> 't \<times> bool) \<Rightarrow> (u32 \<rightharpoonup> 't \<times> bool)" where
  "kill_templated ops m st =
     (\<lambda>ssrc. case st ssrc of
        Some (stream, True) \<Rightarrow> Some (fst (op_kill_session_keys ops m stream), True)
      | x \<Rightarrow> x)"

definition handle_stream_error ::
    "'t stream_ops \<Rightarrow> srtp_error \<Rightarrow> u32 \<Rightarrow> bool \<Rightarrow> bool \<Rightarrow> 't session \<Rightarrow> 't session" where
  "handle_stream_error ops e ssrc from_template pending s =
     (let s = (if pending then fst (remove_stream ssrc s) else s) in
      case e of
        KeyLimit _ True m _ \<Rightarrow>
          if from_template then
            let s = s\<lparr>streams := kill_templated ops m (streams s)\<rparr> in
            s\<lparr>template_config := map_option (\<lambda>cfg. fst (sc_set_keys_lifetime_mki cfg 0 0 0 0 m)) (template_config s)\<rparr>
          else s
      | _ \<Rightarrow> s)"

text \<open>
  The common shape of the packet operations: look the stream up, apply the stream operation \<open>f\<close>
  through the reference, and \<^verbatim>\<open>inspect_err\<close>.
\<close>

definition on_stream ::
    "'t stream_ops \<Rightarrow> u32 \<Rightarrow> ('t \<Rightarrow> 't \<times> srtp_error list \<times> bytes result) \<Rightarrow> 't session \<Rightarrow>
     't session \<times> srtp_error list \<times> bytes result" where
  "on_stream ops ssrc f s =
     (case get_stream ops ssrc s of
        (s, Err e) \<Rightarrow> (s, [], Err e)
      | (s, Panic) \<Rightarrow> (s, [], Panic)
      | (s, Ok (stream, from_template, pending)) \<Rightarrow>
          let (stream, calls, r) = f stream;
              s = s\<lparr>streams := (streams s)(ssrc \<mapsto> (stream, from_template))\<rparr>
          in (case r of
                Err e \<Rightarrow> (handle_stream_error ops e ssrc from_template pending s, calls, r)
              | _ \<Rightarrow> (s, calls, r)))"

section \<open>Sending and receiving sessions\<close>

definition send_ops :: "'b biguint \<Rightarrow> crypto \<Rightarrow> 'b send_stream stream_ops" where
  "send_ops B C = \<lparr>op_new = send_new B C, op_update = send_update B C, op_get_roc = send_get_roc,
     op_kill_session_keys = send_kill_session_keys\<rparr>"

definition recv_ops :: "'b biguint \<Rightarrow> crypto \<Rightarrow> 'b recv_stream stream_ops" where
  "recv_ops B C = \<lparr>op_new = recv_new B C, op_update = recv_update B C, op_get_roc = recv_get_roc,
     op_kill_session_keys = recv_kill_session_keys\<rparr>"

type_synonym 'b send_session = "'b send_stream session"
type_synonym 'b recv_session = "'b recv_stream session"

definition rtp_protect_mki ::
    "'b biguint \<Rightarrow> crypto \<Rightarrow> bytes \<Rightarrow> mki \<Rightarrow> 'b send_session \<Rightarrow> 'b send_session \<times> srtp_error list \<times> bytes result" where
  "rtp_protect_mki B C plain m s =
     try_in s [] (rtp_header_new plain) (\<lambda>header.
     on_stream (send_ops B C) (rtp_ssrc header) (send_rtp_protect B C header plain m) s)"

definition rtp_protect ::
    "'b biguint \<Rightarrow> crypto \<Rightarrow> bytes \<Rightarrow> 'b send_session \<Rightarrow> 'b send_session \<times> srtp_error list \<times> bytes result" where
  "rtp_protect B C plain s = rtp_protect_mki B C plain None s"

definition rtcp_protect_mki ::
    "'b biguint \<Rightarrow> crypto \<Rightarrow> bytes \<Rightarrow> mki \<Rightarrow> 'b send_session \<Rightarrow> 'b send_session \<times> srtp_error list \<times> bytes result" where
  "rtcp_protect_mki B C plain m s =
     try_in s [] (rtcp_header_new plain) (\<lambda>header.
     on_stream (send_ops B C) (rtcp_ssrc header) (send_rtcp_protect C header plain m) s)"

definition rtcp_protect ::
    "'b biguint \<Rightarrow> crypto \<Rightarrow> bytes \<Rightarrow> 'b send_session \<Rightarrow> 'b send_session \<times> srtp_error list \<times> bytes result" where
  "rtcp_protect B C plain s = rtcp_protect_mki B C plain None s"

definition set_roc :: "u32 \<Rightarrow> u32 \<Rightarrow> 'b recv_session \<Rightarrow> 'b recv_session \<times> unit result" where
  "set_roc ssrc roc s =
     (case streams s ssrc of
        None \<Rightarrow> (s, Err StreamNotFound)
      | Some (stream, from_template) \<Rightarrow>
          let (stream, r) = recv_set_roc roc stream
          in (s\<lparr>streams := (streams s)(ssrc \<mapsto> (stream, from_template))\<rparr>, r))"

definition rtp_unprotect ::
    "'b biguint \<Rightarrow> crypto \<Rightarrow> bytes \<Rightarrow> 'b recv_session \<Rightarrow> 'b recv_session \<times> srtp_error list \<times> bytes result" where
  "rtp_unprotect B C cipher s =
     try_in s [] (rtp_header_new cipher) (\<lambda>header.
     on_stream (recv_ops B C) (rtp_ssrc header) (recv_rtp_unprotect B C header cipher) s)"

definition rtcp_unprotect ::
    "'b biguint \<Rightarrow> crypto \<Rightarrow> bytes \<Rightarrow> 'b recv_session \<Rightarrow> 'b recv_session \<times> srtp_error list \<times> bytes result" where
  "rtcp_unprotect B C cipher s =
     try_in s [] (rtcp_header_new cipher) (\<lambda>header.
     on_stream (recv_ops B C) (rtcp_ssrc header) (recv_rtcp_unprotect B C header cipher) s)"

section \<open>What a session relies on\<close>

definition session_ok :: "('t \<Rightarrow> bool) \<Rightarrow> (stream_config \<Rightarrow> bool) \<Rightarrow> 't session \<Rightarrow> bool" where
  "session_ok ok cfg_ok s \<longleftrightarrow>
     (\<forall>ssrc stream ft. streams s ssrc = Some (stream, ft) \<longrightarrow> ok stream) \<and>
     (\<forall>cfg. template_config s = Some cfg \<longrightarrow> cfg_ok cfg)"

lemma session_ok_new: "session_ok ok cfg_ok session_new"
  by (simp add: session_ok_def session_new_def)

lemma session_ok_stream:
  "session_ok ok cfg_ok s \<Longrightarrow> ok stream \<Longrightarrow> session_ok ok cfg_ok (s\<lparr>streams := (streams s)(ssrc \<mapsto> (stream, ft))\<rparr>)"
  by (simp add: session_ok_def)

lemma session_ok_remove: "session_ok ok cfg_ok s \<Longrightarrow> session_ok ok cfg_ok (fst (remove_stream ssrc s))"
  by (auto simp: session_ok_def remove_stream_def split: option.split)

lemma session_ok_handler: "session_ok ok cfg_ok s \<Longrightarrow> session_ok ok cfg_ok (fst (set_key_limit_handler s))"
  by (simp add: session_ok_def set_key_limit_handler_def)

locale stream_interface =
  fixes ops :: "'t stream_ops"
    and ok :: "'t \<Rightarrow> bool"
    and cfg_ok :: "stream_config \<Rightarrow> bool"
  assumes new_ok: "cfg_ok cfg \<Longrightarrow> op_new ops ssrc cfg h = Ok s \<Longrightarrow> ok s"
    and new_no_panic: "cfg_ok cfg \<Longrightarrow> op_new ops ssrc cfg h \<noteq> Panic"
    and update_ok: "ok s \<Longrightarrow> cfg_ok cfg \<Longrightarrow> op_update ops ms cfg s = (s', r) \<Longrightarrow> ok s' \<and> r \<noteq> Panic"
    and kill_ok: "ok s \<Longrightarrow> op_kill_session_keys ops m s = (s', r) \<Longrightarrow> ok s'"
    and cfg_kill_ok: "cfg_ok cfg \<Longrightarrow> cfg_ok (fst (sc_set_keys_lifetime_mki cfg 0 0 0 0 m))"
begin

lemma get_stream_ok:
  assumes s: "session_ok ok cfg_ok s" and get: "get_stream ops ssrc s = (s', r)"
  shows "session_ok ok cfg_ok s'" "r \<noteq> Panic" "r = Ok (stream, ft, pending) \<Longrightarrow> ok stream"
proof -
  have old: "streams s i = Some (t, f) \<Longrightarrow> ok t" "template_config s = Some cfg \<Longrightarrow> cfg_ok cfg" for i t f cfg
    using s by (auto simp: session_ok_def)
  have "session_ok ok cfg_ok s' \<and> r \<noteq> Panic \<and> (r = Ok (stream, ft, pending) \<longrightarrow> ok stream)"
  proof (cases "streams s ssrc")
    case None
    show ?thesis
    proof (cases "template_config s")
      case None
      with \<open>streams s ssrc = None\<close> get s show ?thesis by (auto simp: get_stream_def)
    next
      case (Some cfg)
      then show ?thesis
        using None get s new_ok [OF old(2)] new_no_panic [OF old(2)]
        by (cases "op_new ops ssrc cfg (key_limit_handler s)") (auto simp: get_stream_def session_ok_stream)
    qed
  next
    case (Some x)
    then show ?thesis using get s old(1) by (cases x) (auto simp: get_stream_def)
  qed
  then show "session_ok ok cfg_ok s'" "r \<noteq> Panic" "r = Ok (stream, ft, pending) \<Longrightarrow> ok stream"
    by simp_all
qed

lemma session_ok_kill:
  assumes s: "session_ok ok cfg_ok s"
  shows "session_ok ok cfg_ok (s\<lparr>streams := kill_templated ops m (streams s),
    template_config := map_option (\<lambda>cfg. fst (sc_set_keys_lifetime_mki cfg 0 0 0 0 m)) (template_config s)\<rparr>)"
proof -
  have old: "streams s i = Some (t, f) \<Longrightarrow> ok t" for i t f
    using s by (auto simp: session_ok_def)
  have kill: "ok t \<Longrightarrow> ok (fst (op_kill_session_keys ops m t))" for t
    using kill_ok [of t m] by (metis prod.collapse)
  have "ok stream" if "kill_templated ops m (streams s) x = Some (stream, f)" for x stream f
    using that old [of x] kill unfolding kill_templated_def
    by (auto split: option.splits bool.splits prod.splits)
  then show ?thesis
    using s cfg_kill_ok by (auto simp: session_ok_def)
qed

lemma handle_stream_error_ok:
  assumes "session_ok ok cfg_ok s"
  shows "session_ok ok cfg_ok (handle_stream_error ops e ssrc ft pending s)"
proof -
  define s1 where "s1 = (if pending then fst (remove_stream ssrc s) else s)"
  have s1: "session_ok ok cfg_ok s1"
    using assms by (simp add: s1_def session_ok_remove)
  show ?thesis
    unfolding handle_stream_error_def Let_def s1_def [symmetric]
    using s1 session_ok_kill [OF s1] by (auto split: srtp_error.split bool.split)
qed

lemma on_stream_ok:
  assumes s: "session_ok ok cfg_ok s" and f: "\<And>stream stream' calls r. ok stream \<Longrightarrow> f stream = (stream', calls, r) \<Longrightarrow> ok stream'"
    and run: "on_stream ops ssrc f s = (s', calls, r)"
  shows "session_ok ok cfg_ok s'"
proof -
  obtain s1 r1 where get: "get_stream ops ssrc s = (s1, r1)"
    by (cases "get_stream ops ssrc s")
  note s1 = get_stream_ok [OF s get]
  show ?thesis
  proof (cases r1)
    case (Ok x)
    then obtain stream ft pending where x: "r1 = Ok (stream, ft, pending)"
      by (cases x) auto
    obtain stream' calls' r' where fs: "f stream = (stream', calls', r')"
      by (cases "f stream")
    let ?s2 = "s1\<lparr>streams := (streams s1)(ssrc \<mapsto> (stream', ft))\<rparr>"
    have s2: "session_ok ok cfg_ok ?s2"
      by (rule session_ok_stream [OF s1(1) f [OF s1(3) [OF x] fs]])
    show ?thesis
      using run s2 handle_stream_error_ok [OF s2]
      by (cases r') (auto simp: on_stream_def get x fs)
  qed (use run s1(1) get in \<open>auto simp: on_stream_def\<close>)
qed

lemma on_stream_fst_ok:
  "session_ok ok cfg_ok s \<Longrightarrow> (\<And>stream stream' calls r. ok stream \<Longrightarrow> f stream = (stream', calls, r) \<Longrightarrow> ok stream') \<Longrightarrow>
   session_ok ok cfg_ok (fst (on_stream ops ssrc f s))"
  using on_stream_ok [of s f ssrc] by (cases "on_stream ops ssrc f s") auto

lemma on_stream_no_panic:
  assumes s: "session_ok ok cfg_ok s" and f: "\<And>stream. ok stream \<Longrightarrow> snd (snd (f stream)) \<noteq> Panic"
  shows "snd (snd (on_stream ops ssrc f s)) \<noteq> Panic"
proof -
  obtain s1 r1 where get: "get_stream ops ssrc s = (s1, r1)"
    by (cases "get_stream ops ssrc s")
  note s1 = get_stream_ok [OF s get]
  show ?thesis
  proof (cases r1)
    case (Ok x)
    then obtain stream ft pending where x: "r1 = Ok (stream, ft, pending)"
      by (cases x) auto
    then show ?thesis
      using f [OF s1(3) [OF x]] by (auto simp: on_stream_def get Let_def split: prod.split result.split)
  next
    case Panic
    then show ?thesis using s1(2) by simp
  qed (simp add: on_stream_def get)
qed

lemma update_templated_ok:
  assumes "cfg_ok cfg" "\<forall>ssrc stream ft. st ssrc = Some (stream, ft) \<longrightarrow> ok stream"
    "update_templated ops order cfg ssrcs st = (st', r)"
  shows "(\<forall>ssrc stream ft. st' ssrc = Some (stream, ft) \<longrightarrow> ok stream) \<and> r \<noteq> Panic"
  using assms(2,3)
proof (induction ssrcs arbitrary: st)
  case Nil
  then show ?case by auto
next
  case (Cons ssrc ssrcs)
  show ?case
  proof (cases "\<exists>stream. st ssrc = Some (stream, True)")
    case True
    then obtain stream where stream: "st ssrc = Some (stream, True)" by blast
    obtain stream' x where u: "op_update ops (order ssrc) cfg stream = (stream', x)"
      by (cases "op_update ops (order ssrc) cfg stream")
    have ok': "ok stream'" "x \<noteq> Panic"
      using update_ok [OF _ assms(1) u] Cons.prems(1) stream by auto
    have upd: "\<forall>i t f. (st(ssrc \<mapsto> (stream', True))) i = Some (t, f) \<longrightarrow> ok t"
      using Cons.prems(1) ok'(1) by simp
    show ?thesis
    proof (cases x)
      case (Ok y)
      then have "update_templated ops order cfg ssrcs (st(ssrc \<mapsto> (stream', True))) = (st', r)"
        using Cons.prems(2) stream u by simp
      then show ?thesis by (rule Cons.IH [OF upd])
    next
      case (Err e)
      then have "st' = st(ssrc \<mapsto> (stream', True))" "r = Err e"
        using Cons.prems(2) stream u by simp_all
      with upd show ?thesis by blast
    qed (use ok'(2) in simp)
  next
    case False
    then have "update_templated ops order cfg (ssrc # ssrcs) st = update_templated ops order cfg ssrcs st"
      by (auto split: option.split bool.split)
    then show ?thesis using Cons by simp
  qed
qed

lemma add_stream_ok:
  assumes s: "session_ok ok cfg_ok s" and cfg: "validate cfg = Ok () \<Longrightarrow> cfg_ok cfg"
    and run: "add_stream ops ssrcs order ssrc cfg s = (s', r)"
  shows "session_ok ok cfg_ok s' \<and> r \<noteq> Panic"
proof (cases "validate cfg = Ok ()")
  case False
  then have "validate cfg = Err InvalidProfile"
    using validate_cases [of cfg] by simp
  then show ?thesis using run s by (auto simp: add_stream_def)
next
  case True
  note c = cfg [OF True]
  show ?thesis
  proof (cases ssrc)
    case None
    obtain st x where u: "update_templated ops order cfg ssrcs (streams s) = (st, x)"
      by (cases "update_templated ops order cfg ssrcs (streams s)")
    have st: "(\<forall>ssrc stream ft. st ssrc = Some (stream, ft) \<longrightarrow> ok stream) \<and> x \<noteq> Panic"
      by (rule update_templated_ok [OF c _ u]) (use s in \<open>simp add: session_ok_def\<close>)
    then have okst: "st i = Some (t, f) \<Longrightarrow> ok t" for i t f by blast
    show ?thesis
      using run s c u None True st okst by (cases x) (auto simp: add_stream_def session_ok_def)
  next
    case (Some i)
    show ?thesis
    proof (cases "streams s i")
      case None
      then show ?thesis
        using run s c True Some new_ok [OF c] new_no_panic [OF c] session_ok_stream [OF s]
        by (auto simp: add_stream_def split: result.splits)
    next
      case stream: (Some y)
      then obtain stream ft where y: "streams s i = Some (stream, ft)" by (cases y) auto
      obtain stream' x where u: "op_update ops (order i) cfg stream = (stream', x)"
        by (cases "op_update ops (order i) cfg stream")
      have "ok stream' \<and> x \<noteq> Panic"
        using update_ok [OF _ c u] s y by (auto simp: session_ok_def)
      then show ?thesis
        using run True Some y u session_ok_stream [OF s] by (cases x) (auto simp: add_stream_def)
    qed
  qed
qed

end

section \<open>Both sessions satisfy the contract\<close>

lemma set_lives_mki_loop_zero_ok:
  "\<forall>k \<in> set ks. lifetime_ok (mk_lifetime k) \<Longrightarrow>
   \<forall>k \<in> set (fst (set_lives_mki_loop ks 0 0 0 0 m)). lifetime_ok (mk_lifetime k)"
proof (induction ks)
  case Nil
  then show ?case by simp
next
  case (Cons k ks)
  have "lives_accepted 0 0 0 0" "lifetime_ok \<lparr>l_rtp = 0, l_rtp_limit = 0, l_rtcp = 0, l_rtcp_limit = 0\<rparr>"
    by (simp_all add: lives_accepted_def lifetime_ok_def)
  with Cons show ?case
    by (cases "mk_mki k = m") (simp_all add: mk_set_keys_lifetime_eq split_beta)
qed

lemma config_ok_kill:
  assumes "config_ok cfg"
  shows "config_ok (fst (sc_set_keys_lifetime_mki cfg 0 0 0 0 m))"
proof -
  let ?cfg = "fst (sc_set_keys_lifetime_mki cfg 0 0 0 0 m)"
  have "valid_config ?cfg"
    using assms valid_config_kill by (simp add: config_ok_def)
  moreover have "sc_keys ?cfg = fst (set_lives_mki_loop (sc_keys cfg) 0 0 0 0 m)"
    by (simp add: sc_set_keys_lifetime_mki_def split_beta)
  ultimately show ?thesis
    using assms set_lives_mki_loop_zero_ok [of "sc_keys cfg" m] by (simp add: config_ok_def)
qed

interpretation sender: stream_interface
    "send_ops B C" "\<lambda>s. crypto_laws C \<and> send_ok B s" "\<lambda>cfg. crypto_laws C \<and> config_ok cfg" for B C
  by unfold_locales
    (auto simp: send_ops_def config_ok_kill dest: new_ok(1) new_ok(3) update_ok(1) kill_ok(1))

interpretation receiver: stream_interface
    "recv_ops B C" "\<lambda>s. crypto_laws C \<and> recv_ok B s" "\<lambda>cfg. crypto_laws C \<and> config_ok cfg" for B C
  by unfold_locales
    (auto simp: recv_ops_def config_ok_kill dest: new_ok(2) new_ok(4) update_ok(2) kill_ok(2))

definition send_session_ok :: "'b biguint \<Rightarrow> crypto \<Rightarrow> 'b send_session \<Rightarrow> bool" where
  "send_session_ok B C = session_ok (\<lambda>s. crypto_laws C \<and> send_ok B s) (\<lambda>cfg. crypto_laws C \<and> config_ok cfg)"

definition recv_session_ok :: "'b biguint \<Rightarrow> crypto \<Rightarrow> 'b recv_session \<Rightarrow> bool" where
  "recv_session_ok B C = session_ok (\<lambda>s. crypto_laws C \<and> recv_ok B s) (\<lambda>cfg. crypto_laws C \<and> config_ok cfg)"

lemma try_in_header:
  assumes "r \<noteq> Panic"
  shows "snd (snd (try_in s [] r k)) = Panic \<longleftrightarrow> (\<exists>h. r = Ok h \<and> snd (snd (k h)) = Panic)"
  using assms by (cases r) auto

lemma header_no_panic: "rtp_header_new p \<noteq> Panic" "rtcp_header_new p \<noteq> Panic"
  using rtp_header_new_outcome [of p] rtcp_header_new_outcome [of p] by auto

lemma send_session_no_panic:
  assumes C: "crypto_laws C" and s: "send_session_ok B C s" and p: "length p \<le> max_message"
  shows "snd (snd (rtp_protect_mki B C p m s)) \<noteq> Panic" "snd (snd (rtcp_protect_mki B C p m s)) \<noteq> Panic"
proof -
  note s = s [unfolded send_session_ok_def]
  show "snd (snd (rtp_protect_mki B C p m s)) \<noteq> Panic"
    unfolding rtp_protect_mki_def try_in_header [OF header_no_panic(1)]
    using sender.on_stream_no_panic [OF s] send_rtp_protect_no_panic [OF C _ rtp_header_len_bounds(2) p] by blast
  show "snd (snd (rtcp_protect_mki B C p m s)) \<noteq> Panic"
    unfolding rtcp_protect_mki_def try_in_header [OF header_no_panic(2)]
    using sender.on_stream_no_panic [OF s] send_rtcp_protect_no_panic [OF C _ rtcp_header_length p] by blast
qed

lemma recv_session_no_panic:
  assumes C: "crypto_laws C" and s: "recv_session_ok B C s" and p: "length c \<le> max_message"
  shows "snd (snd (rtp_unprotect B C c s)) \<noteq> Panic" "snd (snd (rtcp_unprotect B C c s)) \<noteq> Panic"
proof -
  note s = s [unfolded recv_session_ok_def]
  show "snd (snd (rtp_unprotect B C c s)) \<noteq> Panic"
    unfolding rtp_unprotect_def try_in_header [OF header_no_panic(1)]
    using receiver.on_stream_no_panic [OF s] recv_rtp_unprotect_no_panic [OF C _ p] by blast
  show "snd (snd (rtcp_unprotect B C c s)) \<noteq> Panic"
    unfolding rtcp_unprotect_def try_in_header [OF header_no_panic(2)]
    using receiver.on_stream_no_panic [OF s] recv_rtcp_unprotect_no_panic [OF C _ p] by blast
qed

section \<open>Reachable sessions\<close>

text \<open>
  The public operations of a session as steps. A configuration comes from the setters, so its
  lifetimes are within the maxima; a packet may hold any bytes.
\<close>

definition config_lives_ok :: "stream_config \<Rightarrow> bool" where
  "config_lives_ok cfg \<longleftrightarrow> (\<forall>k \<in> set (sc_keys cfg). lifetime_ok (mk_lifetime k))"

inductive send_reachable :: "'b biguint \<Rightarrow> crypto \<Rightarrow> 'b send_session \<Rightarrow> bool" for B C where
  send_start: "send_reachable B C session_new"
| send_handler: "send_reachable B C s \<Longrightarrow> send_reachable B C (fst (set_key_limit_handler s))"
| send_add: "send_reachable B C s \<Longrightarrow> config_lives_ok cfg \<Longrightarrow>
    send_reachable B C (fst (add_stream (send_ops B C) ssrcs order ssrc cfg s))"
| send_remove: "send_reachable B C s \<Longrightarrow> send_reachable B C (fst (remove_stream ssrc s))"
| send_rtp: "send_reachable B C s \<Longrightarrow> send_reachable B C (fst (rtp_protect_mki B C p m s))"
| send_rtcp: "send_reachable B C s \<Longrightarrow> send_reachable B C (fst (rtcp_protect_mki B C p m s))"

inductive recv_reachable :: "'b biguint \<Rightarrow> crypto \<Rightarrow> 'b recv_session \<Rightarrow> bool" for B C where
  recv_start: "recv_reachable B C session_new"
| recv_handler: "recv_reachable B C s \<Longrightarrow> recv_reachable B C (fst (set_key_limit_handler s))"
| recv_add: "recv_reachable B C s \<Longrightarrow> config_lives_ok cfg \<Longrightarrow>
    recv_reachable B C (fst (add_stream (recv_ops B C) ssrcs order ssrc cfg s))"
| recv_remove: "recv_reachable B C s \<Longrightarrow> recv_reachable B C (fst (remove_stream ssrc s))"
| recv_roc: "recv_reachable B C s \<Longrightarrow> recv_reachable B C (fst (set_roc ssrc roc s))"
| recv_rtp: "recv_reachable B C s \<Longrightarrow> recv_reachable B C (fst (rtp_unprotect B C c s))"
| recv_rtcp: "recv_reachable B C s \<Longrightarrow> recv_reachable B C (fst (rtcp_unprotect B C c s))"

lemma validate_config_ok: "config_lives_ok cfg \<Longrightarrow> validate cfg = Ok () \<Longrightarrow> config_ok cfg"
  by (simp add: config_ok_def config_lives_ok_def validate_iff)

lemma session_ok_rtp_try:
  assumes "session_ok ok cfg_ok s" "\<And>h. session_ok ok cfg_ok (fst (k h))"
  shows "session_ok ok cfg_ok (fst (try_in s [] r k))"
  using assms by (cases r) auto

lemma send_reachable_ok:
  assumes C: "crypto_laws C"
  shows "send_reachable B C s \<Longrightarrow> send_session_ok B C s"
  unfolding send_session_ok_def
proof (induction rule: send_reachable.induct)
  case (send_add s cfg ssrcs order ssrc)
  then show ?case
    using sender.add_stream_ok [OF send_add.IH, of cfg ssrcs order ssrc] validate_config_ok [of cfg] C
    by (metis prod.collapse)
next
  case (send_rtp s p m)
  show ?case unfolding rtp_protect_mki_def
    by (rule session_ok_rtp_try [OF send_rtp.IH])
      (rule sender.on_stream_fst_ok [OF send_rtp.IH], auto intro: send_ok_step(1))
next
  case (send_rtcp s p m)
  show ?case unfolding rtcp_protect_mki_def
    by (rule session_ok_rtp_try [OF send_rtcp.IH])
      (rule sender.on_stream_fst_ok [OF send_rtcp.IH], auto intro: send_ok_step(2))
qed (simp_all add: session_ok_new session_ok_handler session_ok_remove)

lemma session_set_roc_ok:
  "recv_session_ok B C s \<Longrightarrow> recv_session_ok B C (fst (set_roc ssrc roc s))"
  unfolding recv_session_ok_def
  by (auto simp: set_roc_def session_ok_def dest: set_roc_ok split: option.splits prod.splits)

lemma recv_reachable_ok:
  assumes C: "crypto_laws C"
  shows "recv_reachable B C s \<Longrightarrow> recv_session_ok B C s"
proof (induction rule: recv_reachable.induct)
  case (recv_add s cfg ssrcs order ssrc)
  then show ?case unfolding recv_session_ok_def
    using receiver.add_stream_ok [OF recv_add.IH [unfolded recv_session_ok_def], of cfg ssrcs order ssrc]
      validate_config_ok [of cfg] C
    by (metis prod.collapse)
next
  case (recv_rtp s c)
  note ok = recv_rtp.IH [unfolded recv_session_ok_def]
  show ?case unfolding rtp_unprotect_def recv_session_ok_def
    by (rule session_ok_rtp_try [OF ok])
      (rule receiver.on_stream_fst_ok [OF ok], auto intro: recv_ok_step(1))
next
  case (recv_rtcp s c)
  note ok = recv_rtcp.IH [unfolded recv_session_ok_def]
  show ?case unfolding rtcp_unprotect_def recv_session_ok_def
    by (rule session_ok_rtp_try [OF ok])
      (rule receiver.on_stream_fst_ok [OF ok], auto intro: recv_ok_step(2))
next
  case (recv_roc s ssrc roc)
  show ?case by (rule session_set_roc_ok [OF recv_roc.IH])
qed (simp_all add: session_ok_new session_ok_handler session_ok_remove recv_session_ok_def)

end
