(* ===== verification/Srtp_Session_Delivery.thy ===== *)
theory Srtp_Session_Delivery
  imports Srtp_Session
begin

text \<open>
  What a failing call does to a session: nothing, unless a key of the template is dead, in which
  case every stream of the template loses it. Then the sessions of a sender and a receiver: packets
  that arrive in order are delivered, whatever their SSRC.
\<close>

section \<open>Failing calls\<close>

definition key_dead :: "srtp_error \<Rightarrow> bool" where
  "key_dead e \<longleftrightarrow> (\<exists>is_rtp m ssrc. e = KeyLimit is_rtp True m ssrc)"

definition templated :: "u32 \<Rightarrow> 't session \<Rightarrow> bool" where
  "templated ssrc s \<longleftrightarrow> (case streams s ssrc of None \<Rightarrow> True | Some (_, ft) \<Rightarrow> ft)"

definition kill_key :: "'t stream_ops \<Rightarrow> mki \<Rightarrow> 't session \<Rightarrow> 't session" where
  "kill_key ops m s =
     s\<lparr>streams := kill_templated ops m (streams s),
       template_config := map_option (\<lambda>cfg. fst (sc_set_keys_lifetime_mki cfg 0 0 0 0 m)) (template_config s)\<rparr>"

lemma session_streams_triv:
  "streams s ssrc = x \<Longrightarrow> s\<lparr>streams := (streams s)(ssrc := x)\<rparr> = s"
  by (metis fun_upd_triv session.surjective session.update_convs(1))

lemma handle_stream_error_eq:
  "handle_stream_error ops e ssrc ft pending s =
     (let s = (if pending then fst (remove_stream ssrc s) else s) in
      if ft \<and> key_dead e then kill_key ops (err_mki e) s else s)"
  by (auto simp: handle_stream_error_def key_dead_def kill_key_def Let_def split: srtp_error.split bool.split)

text \<open>The error handler sees the session as it was before the call.\<close>

lemma on_stream_error:
  assumes f: "\<And>stream. fails_unchanged stream (f stream)"
    and run: "on_stream ops ssrc f s = (s', calls, Err e)"
  shows "s' = s \<or> (templated ssrc s \<and> key_dead e \<and> s' = kill_key ops (err_mki e) s)"
    and "\<not> key_dead e \<or> \<not> templated ssrc s \<Longrightarrow> s' = s"
proof -
  have "s' = s \<or> (templated ssrc s \<and> key_dead e \<and> s' = kill_key ops (err_mki e) s)"
  proof (cases "streams s ssrc")
    case (Some x)
    then obtain stream ft where x: "streams s ssrc = Some (stream, ft)" by (cases x) simp
    obtain stream' c r where fs: "f stream = (stream', c, r)" by (cases "f stream")
    from run x fs have r: "r = Err e" by (cases r) (auto simp: on_stream_def get_stream_def)
    then have "stream' = stream" using f [of stream] fs by (simp add: fails_unchanged_def)
    then have "s' = handle_stream_error ops e ssrc ft False s"
      using run x fs r session_streams_triv [OF x] by (simp add: on_stream_def get_stream_def)
    then show ?thesis using x by (auto simp: handle_stream_error_eq templated_def)
  next
    case None
    show ?thesis
    proof (cases "and_then (ok_or (template_config s) StreamNotFound) (\<lambda>cfg. op_new ops ssrc cfg (key_limit_handler s))")
      case (Ok stream)
      let ?s1 = "s\<lparr>streams := (streams s)(ssrc \<mapsto> (stream, True))\<rparr>"
      obtain stream' c r where fs: "f stream = (stream', c, r)" by (cases "f stream")
      from run None Ok fs have r: "r = Err e" by (cases r) (auto simp: on_stream_def get_stream_def)
      then have "stream' = stream" using f [of stream] fs by (simp add: fails_unchanged_def)
      then have "s' = handle_stream_error ops e ssrc True True ?s1"
        using run None Ok fs r by (simp add: on_stream_def get_stream_def)
      moreover have "fst (remove_stream ssrc ?s1) = s"
        using session_streams_triv [OF None] by (simp add: remove_stream_def)
      ultimately show ?thesis using None by (simp add: handle_stream_error_eq templated_def Let_def split: if_splits)
    qed (use run None in \<open>auto simp: on_stream_def get_stream_def\<close>)
  qed
  then show "s' = s \<or> (templated ssrc s \<and> key_dead e \<and> s' = kill_key ops (err_mki e) s)"
    and "\<not> key_dead e \<or> \<not> templated ssrc s \<Longrightarrow> s' = s"
    by auto
qed

lemma try_in_Err_header:
  "try_in s [] r k = (s', calls, Err e) \<Longrightarrow> (s' = s \<and> r = Err e) \<or> (\<exists>h. r = Ok h \<and> k h = (s', calls, Err e))"
  by (cases r) auto

text \<open>The four packet operations.\<close>

lemma packet_error:
  "rtp_protect_mki B C p m s = (s', calls, Err e) \<Longrightarrow> \<not> key_dead e \<Longrightarrow> s' = s"
  "rtcp_protect_mki B C p m s = (s', calls, Err e) \<Longrightarrow> \<not> key_dead e \<Longrightarrow> s' = s"
  "rtp_unprotect B C c v = (v', calls, Err e) \<Longrightarrow> \<not> key_dead e \<Longrightarrow> v' = v"
  "rtcp_unprotect B C c v = (v', calls, Err e) \<Longrightarrow> \<not> key_dead e \<Longrightarrow> v' = v"
  unfolding rtp_protect_mki_def rtcp_protect_mki_def rtp_unprotect_def rtcp_unprotect_def
  by (auto dest!: try_in_Err_header on_stream_error(1) [rotated]
      simp: send_fails_unchanged recv_fails_unchanged)

text \<open>The calls that configure a session, \<^verbatim>\<open>add_stream\<close> excepted.\<close>

lemma call_error:
  "remove_stream ssrc s = (s', Err e) \<Longrightarrow> s' = s"
  "set_key_limit_handler s = (s', Err e) \<Longrightarrow> s' = s"
  "set_roc ssrc roc v = (v', Err e) \<Longrightarrow> v' = v"
  by (auto simp: remove_stream_def set_key_limit_handler_def set_roc_def recv_set_roc_def session_streams_triv
      split: option.splits if_splits)

section \<open>The stream of an SSRC\<close>

text \<open>The stream a session has for an SSRC, or would spawn from its template.\<close>

definition stream_for :: "'t stream_ops \<Rightarrow> u32 \<Rightarrow> 't session \<Rightarrow> 't option" where
  "stream_for ops ssrc s = (case get_stream ops ssrc s of (_, Ok (stream, _, _)) \<Rightarrow> Some stream | _ \<Rightarrow> None)"

lemma stream_for_iff:
  "stream_for ops ssrc s = Some stream \<longleftrightarrow> (\<exists>s' ft pending. get_stream ops ssrc s = (s', Ok (stream, ft, pending)))"
  by (auto simp: stream_for_def split: prod.splits result.splits)

lemma on_stream_runs:
  assumes "stream_for ops ssrc s = Some stream" "f stream = (stream', calls, Ok q)"
  shows "\<exists>s'. on_stream ops ssrc f s = (s', calls, Ok q) \<and> stream_for ops ssrc s' = Some stream' \<and>
    (\<forall>other. other \<noteq> ssrc \<longrightarrow> stream_for ops other s' = stream_for ops other s)"
proof -
  from assms(1) obtain s1 ft pending where get: "get_stream ops ssrc s = (s1, Ok (stream, ft, pending))"
    by (auto simp: stream_for_iff)
  let ?s' = "s1\<lparr>streams := (streams s1)(ssrc \<mapsto> (stream', ft))\<rparr>"
  have "stream_for ops other ?s' = stream_for ops other s" if "other \<noteq> ssrc" for other
    using get that
    by (auto simp: stream_for_def get_stream_def split: option.splits prod.splits result.splits)
  moreover have "on_stream ops ssrc f s = (?s', calls, Ok q)"
    using get assms(2) by (simp add: on_stream_def)
  moreover have "stream_for ops ssrc ?s' = Some stream'"
    by (simp add: stream_for_def get_stream_def)
  ultimately show ?thesis by blast
qed

lemma on_stream_refuses:
  "stream_for ops ssrc s = Some stream \<Longrightarrow> f stream = (stream', calls, Err e) \<Longrightarrow>
   snd (snd (on_stream ops ssrc f s)) = Err e"
  by (auto simp: stream_for_iff on_stream_def)

text \<open>A dead key: the stream refuses, and a template loses the key everywhere.\<close>

definition after_dead_key :: "'t stream_ops \<Rightarrow> u32 \<Rightarrow> mki \<Rightarrow> 't session \<Rightarrow> 't session" where
  "after_dead_key ops ssrc m s = (if templated ssrc s then kill_key ops m s else s)"

lemma on_stream_dead_key:
  assumes "stream_for ops ssrc s = Some stream" "f stream = (stream, calls, Err (KeyLimit is_rtp True m x))"
  shows "on_stream ops ssrc f s = (after_dead_key ops ssrc m s, calls, Err (KeyLimit is_rtp True m x))"
proof -
  from assms(1) obtain s1 ft pending where get: "get_stream ops ssrc s = (s1, Ok (stream, ft, pending))"
    by (auto simp: stream_for_iff)
  then have ft: "ft \<longleftrightarrow> templated ssrc s" and s1: "(if pending then fst (remove_stream ssrc s1) else s1) = s"
      "s1\<lparr>streams := (streams s1)(ssrc \<mapsto> (stream, ft))\<rparr> = s1"
    by (auto simp: get_stream_def templated_def remove_stream_def outcome_simps session_streams_triv
        split: option.splits result.splits)
  have "key_dead (KeyLimit is_rtp True m x)" by (auto simp: key_dead_def)
  then show ?thesis
    using get assms(2) s1 ft by (simp add: on_stream_def after_dead_key_def handle_stream_error_eq)
qed

lemma session_dead_key:
  "rtp_header_new p = Ok h \<Longrightarrow> stream_for (send_ops B C) (rtp_ssrc h) s = Some t \<Longrightarrow>
    send_rtp_protect B C h p m t = (t, calls, Err (KeyLimit is_rtp True m x)) \<Longrightarrow>
    rtp_protect_mki B C p m s =
      (after_dead_key (send_ops B C) (rtp_ssrc h) m s, calls, Err (KeyLimit is_rtp True m x))"
  "rtcp_header_new p = Ok h' \<Longrightarrow> stream_for (send_ops B C) (rtcp_ssrc h') s = Some t \<Longrightarrow>
    send_rtcp_protect C h' p m t = (t, calls, Err (KeyLimit is_rtp True m x)) \<Longrightarrow>
    rtcp_protect_mki B C p m s =
      (after_dead_key (send_ops B C) (rtcp_ssrc h') m s, calls, Err (KeyLimit is_rtp True m x))"
  "rtp_header_new q = Ok h \<Longrightarrow> stream_for (recv_ops B C) (rtp_ssrc h) r = Some v \<Longrightarrow>
    recv_rtp_unprotect B C h q v = (v, calls, Err (KeyLimit is_rtp True m x)) \<Longrightarrow>
    rtp_unprotect B C q r =
      (after_dead_key (recv_ops B C) (rtp_ssrc h) m r, calls, Err (KeyLimit is_rtp True m x))"
  "rtcp_header_new q = Ok h' \<Longrightarrow> stream_for (recv_ops B C) (rtcp_ssrc h') r = Some v \<Longrightarrow>
    recv_rtcp_unprotect B C h' q v = (v, calls, Err (KeyLimit is_rtp True m x)) \<Longrightarrow>
    rtcp_unprotect B C q r =
      (after_dead_key (recv_ops B C) (rtcp_ssrc h') m r, calls, Err (KeyLimit is_rtp True m x))"
  by (simp_all add: rtp_protect_mki_def rtcp_protect_mki_def rtp_unprotect_def rtcp_unprotect_def on_stream_dead_key)

section \<open>A dead key of the template\<close>

lemma valid_config_distinct: "valid_config cfg \<Longrightarrow> distinct (map mk_mki (sc_keys cfg))"
  by (cases "sc_keys cfg" rule: remdups_adj.cases)
    (auto simp: valid_config_def mkis_consistent_def)

lemma killed_key_lives:
  "distinct (map mk_mki ks) \<Longrightarrow> k \<in> set (fst (set_lives_mki_loop ks 0 0 0 0 m)) \<Longrightarrow> mk_mki k = m \<Longrightarrow>
   l_rtp (mk_lifetime k) = 0 \<and> l_rtcp (mk_lifetime k) = 0"
proof (induction ks)
  case Nil
  then show ?case by simp
next
  case (Cons k0 ks)
  have acc: "lives_accepted 0 0 0 0" by (simp add: lives_accepted_def)
  show ?case
  proof (cases "mk_mki k0 = m")
    case True
    then have "k \<notin> set ks"
      using Cons.prems(1,3) by (auto simp: image_iff)
    then show ?thesis
      using Cons.prems(2) True acc by (simp add: mk_set_keys_lifetime_eq)
  next
    case False
    then have "k \<in> set (fst (set_lives_mki_loop ks 0 0 0 0 m))"
      using Cons.prems(2,3) by (auto simp: split_beta)
    then show ?thesis
      using Cons by simp
  qed
qed

text \<open>A stream spawned from the template after the kill has the dead key.\<close>

lemma killed_template_new:
  assumes "valid_config cfg" and new: "base_new B C ssrc (fst (sc_set_keys_lifetime_mki cfg 0 0 0 0 m)) h = Ok b"
  shows "lives_left b x m = 0"
proof -
  let ?cfg = "fst (sc_set_keys_lifetime_mki cfg 0 0 0 0 m)"
  have keys: "sc_keys ?cfg = fst (set_lives_mki_loop (sc_keys cfg) 0 0 0 0 m)"
    by (simp add: sc_set_keys_lifetime_mki_def split_beta)
  from new obtain ts where ts: "get_transforms C ?cfg = Ok ts" "b_transforms b = ts"
    by (rule base_new_Ok) simp
  have "l_rtp l = 0 \<and> l_rtcp l = 0" if "ts m = Some (t, l)" for t l
    using get_transforms_entry [OF ts(1) that] killed_key_lives [OF valid_config_distinct [OF assms(1)]]
    by (auto simp: keys)
  then show ?thesis
    using ts(2) by (auto simp: lives_left_def split: option.split)
qed

lemma base_kill_lives: "base_kill_session_keys m b = (b', r) \<Longrightarrow> lives_left b' x m = 0"
  by (auto simp: base_kill_session_keys_def lives_left_def split: option.splits prod.splits)

lemma kill_key_streams:
  assumes "streams (kill_key ops m s) ssrc = Some (stream', True)"
  obtains stream where "streams s ssrc = Some (stream, True)" "stream' = fst (op_kill_session_keys ops m stream)"
  using assms by (auto simp: kill_key_def kill_templated_def split: option.splits bool.splits)

lemma kill_key_send:
  assumes "streams (kill_key (send_ops B C) m s) ssrc = Some (stream, True)"
  shows "lives_left (s_base stream) x m = 0"
  using assms
  by (rule kill_key_streams)
    (auto simp: send_ops_def send_kill_session_keys_def split_beta intro: base_kill_lives [OF prod.collapse [symmetric]])

lemma kill_key_recv:
  assumes "streams (kill_key (recv_ops B C) m s) ssrc = Some (stream, True)"
  shows "lives_left (v_base stream) x m = 0"
  using assms
  by (rule kill_key_streams)
    (auto simp: recv_ops_def recv_kill_session_keys_def split_beta intro: base_kill_lives [OF prod.collapse [symmetric]])

text \<open>
  A call on a well-formed session that reports a dead key kills that key in every stream of the
  template, provided that creating a stream never reports one.
\<close>

lemma on_stream_dead:
  assumes run: "on_stream ops ssrc f s = (s', calls, Err e)" and dead: "key_dead e" and tpl: "templated ssrc s"
    and new: "\<And>cfg e'. template_config s = Some cfg \<Longrightarrow> op_new ops ssrc cfg (key_limit_handler s) = Err e' \<Longrightarrow> \<not> key_dead e'"
    and f: "\<And>stream. fails_unchanged stream (f stream)"
  shows "s' = kill_key ops (err_mki e) s"
proof (cases "get_stream ops ssrc s")
  case (Pair s1 r1)
  show ?thesis
  proof (cases r1)
    case (Ok x)
    obtain stream ft pending where x: "x = (stream, ft, pending)" by (cases x)
    obtain stream' c r where fs: "f stream = (stream', c, r)" by (cases "f stream")
    from run Pair Ok x fs have r: "r = Err e" by (cases r) (auto simp: on_stream_def)
    then have same: "stream' = stream" using f [of stream] fs by (simp add: fails_unchanged_def)
    have ft: "ft" and s1: "(if pending then fst (remove_stream ssrc s1) else s1) = s" "s1\<lparr>streams := (streams s1)(ssrc \<mapsto> (stream, ft))\<rparr> = s1"
      using Pair Ok x tpl
      by (auto simp: get_stream_def templated_def remove_stream_def outcome_simps session_streams_triv
          split: option.splits result.splits)
    have "s' = handle_stream_error ops e ssrc ft pending s1"
      using run Pair Ok x fs r same s1(2) by (simp add: on_stream_def)
    then show ?thesis
      using ft dead s1(1) by (simp add: handle_stream_error_eq)
  next
    case (Err e')
    then have "e' = e" using run Pair by (simp add: on_stream_def)
    moreover have "e' = StreamNotFound \<or>
        (\<exists>cfg. template_config s = Some cfg \<and> op_new ops ssrc cfg (key_limit_handler s) = Err e')"
      using Pair Err by (auto simp: get_stream_def outcome_simps split: option.splits result.splits)
    then have "\<not> key_dead e'"
      by (elim disjE exE conjE) (simp add: key_dead_def, rule new)
    ultimately show ?thesis using dead by simp
  next
    case Panic
    then show ?thesis using run Pair by (simp add: on_stream_def)
  qed
qed

lemma new_not_dead:
  assumes "crypto_laws C" "config_ok cfg"
  shows "send_new B C ssrc cfg h = Err e \<Longrightarrow> \<not> key_dead e" "recv_new B C ssrc cfg h = Err e \<Longrightarrow> \<not> key_dead e"
  using base_new_outcome [OF assms, of B ssrc h]
  by (auto simp: send_new_def recv_new_def key_dead_def split: if_splits)

lemma send_dead_kills:
  assumes C: "crypto_laws C" and s: "send_session_ok B C s" and e: "key_dead e"
    and run: "rtp_header_new p = Ok h \<and> templated (rtp_ssrc h) s \<and> rtp_protect_mki B C p m s = (s', calls, Err e) \<or>
      rtcp_header_new p = Ok h' \<and> templated (rtcp_ssrc h') s \<and> rtcp_protect_mki B C p m s = (s', calls, Err e)"
  shows "s' = kill_key (send_ops B C) (err_mki e) s"
proof -
  have new: "\<not> key_dead e'" if "template_config s = Some cfg"
    "op_new (send_ops B C) ssrc cfg (key_limit_handler s) = Err e'" for cfg e' ssrc
    using that s new_not_dead(1) [OF C, of cfg B ssrc "key_limit_handler s" e']
    by (simp add: send_ops_def send_session_ok_def session_ok_def)
  show ?thesis
    using run
    by (elim disjE conjE) (rule on_stream_dead [OF _ e _ new send_fails_unchanged(1)], auto simp: rtp_protect_mki_def,
        rule on_stream_dead [OF _ e _ new send_fails_unchanged(2)], auto simp: rtcp_protect_mki_def)
qed

lemma recv_dead_kills:
  assumes C: "crypto_laws C" and s: "recv_session_ok B C s" and e: "key_dead e"
    and run: "rtp_header_new q = Ok h \<and> templated (rtp_ssrc h) s \<and> rtp_unprotect B C q s = (s', calls, Err e) \<or>
      rtcp_header_new q = Ok h' \<and> templated (rtcp_ssrc h') s \<and> rtcp_unprotect B C q s = (s', calls, Err e)"
  shows "s' = kill_key (recv_ops B C) (err_mki e) s"
proof -
  have new: "\<not> key_dead e'" if "template_config s = Some cfg"
    "op_new (recv_ops B C) ssrc cfg (key_limit_handler s) = Err e'" for cfg e' ssrc
    using that s new_not_dead(2) [OF C, of cfg B ssrc "key_limit_handler s" e']
    by (simp add: recv_ops_def recv_session_ok_def session_ok_def)
  show ?thesis
    using run
    by (elim disjE conjE) (rule on_stream_dead [OF _ e _ new recv_fails_unchanged(1)], auto simp: rtp_unprotect_def,
        rule on_stream_dead [OF _ e _ new recv_fails_unchanged(2)], auto simp: rtcp_unprotect_def)
qed

text \<open>The key is dead in every stream of the template, and in every stream the template would make.\<close>

definition send_key_gone :: "'b biguint \<Rightarrow> crypto \<Rightarrow> mki \<Rightarrow> 'b send_session \<Rightarrow> bool" where
  "send_key_gone B C m s \<longleftrightarrow> (\<forall>ssrc t is_rtp. streams s ssrc = Some (t, True) \<or>
     (\<exists>cfg. template_config s = Some cfg \<and> send_new B C ssrc cfg (key_limit_handler s) = Ok t) \<longrightarrow>
     lives_left (s_base t) is_rtp m = 0)"

definition recv_key_gone :: "'b biguint \<Rightarrow> crypto \<Rightarrow> mki \<Rightarrow> 'b recv_session \<Rightarrow> bool" where
  "recv_key_gone B C m s \<longleftrightarrow> (\<forall>ssrc v is_rtp. streams s ssrc = Some (v, True) \<or>
     (\<exists>cfg. template_config s = Some cfg \<and> recv_new B C ssrc cfg (key_limit_handler s) = Ok v) \<longrightarrow>
     lives_left (v_base v) is_rtp m = 0)"

lemma kill_key_gone:
  "send_session_ok B C s \<Longrightarrow> send_key_gone B C m (kill_key (send_ops B C) m s)"
  "recv_session_ok B C r \<Longrightarrow> recv_key_gone B C m (kill_key (recv_ops B C) m r)"
proof -
  have cfg: "lives_left b x m = 0" if "template_config (kill_key ops m s) = Some cfg'"
    "\<And>cfg. template_config s = Some cfg \<Longrightarrow> config_ok cfg" "base_new B C ssrc cfg' h = Ok b" for ops s cfg' ssrc h b x
    using that killed_template_new [of _ B C ssrc m h b x] by (auto simp: kill_key_def config_ok_def)
  show "send_session_ok B C s \<Longrightarrow> send_key_gone B C m (kill_key (send_ops B C) m s)"
    using cfg [of "send_ops B C" s]
    by (fastforce simp: send_key_gone_def send_session_ok_def session_ok_def send_new_def outcome_simps
        dest: kill_key_send)
  show "recv_session_ok B C r \<Longrightarrow> recv_key_gone B C m (kill_key (recv_ops B C) m r)"
    using cfg [of "recv_ops B C" r]
    by (fastforce simp: recv_key_gone_def recv_session_ok_def session_ok_def recv_new_def outcome_simps
        dest: kill_key_recv)
qed

section \<open>Delivery\<close>

definition deliverable :: "stream_config \<Rightarrow> bool" where
  "deliverable cfg \<longleftrightarrow> config_ok cfg \<and> no_empty_mki cfg \<and> sc_replay_window_size cfg \<noteq> 0 \<and>
     \<not> sc_allow_send_repeat cfg"

text \<open>
  The sessions have the same streams, pairwise in lockstep, and the same template.
\<close>

definition sessions_in_step :: "'b biguint \<Rightarrow> 'b send_session \<Rightarrow> 'b recv_session \<Rightarrow> bool" where
  "sessions_in_step B s r \<longleftrightarrow>
     (\<forall>ssrc. case (streams s ssrc, streams r ssrc) of
        (None, None) \<Rightarrow> True
      | (Some (stream, ft), Some (stream', ft')) \<Rightarrow> ft = ft' \<and> in_step B stream stream'
      | _ \<Rightarrow> False) \<and>
     template_config s = template_config r \<and> (\<forall>cfg. template_config s = Some cfg \<longrightarrow> deliverable cfg)"

lemma sessions_in_step_stream:
  assumes "sessions_in_step B s r" "in_step B stream stream'"
  shows "sessions_in_step B (s\<lparr>streams := (streams s)(ssrc \<mapsto> (stream, ft))\<rparr>)
    (r\<lparr>streams := (streams r)(ssrc \<mapsto> (stream', ft))\<rparr>)"
  using assms by (simp add: sessions_in_step_def)

lemma new_streams_outcome:
  assumes C: "crypto_laws C" and cfg: "config_ok cfg"
  shows "send_new B C ssrc cfg h = Ok stream \<Longrightarrow> \<exists>stream'. recv_new B C ssrc cfg h' = Ok stream'"
  using base_new_outcome [OF C cfg, of B ssrc h] base_new_outcome [OF C cfg, of B ssrc h']
  by (auto simp: send_new_def recv_new_def outcome_simps split: if_splits)

text \<open>What a successful call on a session did.\<close>

lemma on_stream_Ok:
  assumes "on_stream ops ssrc f s = (s', calls, Ok q)"
  obtains stream ft s1 stream' where "get_stream ops ssrc s = (s1, Ok (stream, ft, streams s ssrc = None))"
    "f stream = (stream', calls, Ok q)" "s' = s1\<lparr>streams := (streams s1)(ssrc \<mapsto> (stream', ft))\<rparr>"
  using assms
  by (auto simp: on_stream_def get_stream_def Let_def split: option.splits result.splits prod.splits)

lemma get_stream_lockstep:
  assumes B: "biguint_laws B" and C: "crypto_laws C" and st: "sessions_in_step B s r"
    and get: "get_stream (send_ops B C) ssrc s = (s1, Ok (stream, ft, pending))"
  shows "\<exists>r1 stream'. get_stream (recv_ops B C) ssrc r = (r1, Ok (stream', ft, pending)) \<and>
    in_step B stream stream' \<and> sessions_in_step B s1 r1"
proof (cases "streams s ssrc")
  case (Some x)
  have "case (streams s ssrc, streams r ssrc) of
        (None, None) \<Rightarrow> True
      | (Some (stream, ft), Some (stream', ft')) \<Rightarrow> ft = ft' \<and> in_step B stream stream'
      | _ \<Rightarrow> False"
    using st by (simp add: sessions_in_step_def)
  with Some get st show ?thesis
    by (cases x) (auto simp: get_stream_def split: option.splits)
next
  case None
  have "case (streams s ssrc, streams r ssrc) of
        (None, None) \<Rightarrow> True
      | (Some (stream, ft), Some (stream', ft')) \<Rightarrow> ft = ft' \<and> in_step B stream stream'
      | _ \<Rightarrow> False"
    using st by (simp add: sessions_in_step_def)
  with None have r: "streams r ssrc = None"
    by (auto split: option.splits)
  from get None obtain cfg where cfg: "template_config s = Some cfg"
    and new: "send_new B C ssrc cfg (key_limit_handler s) = Ok stream"
    and s1: "s1 = s\<lparr>streams := (streams s)(ssrc \<mapsto> (stream, True))\<rparr>" and ft: "ft" "pending"
    by (auto simp: get_stream_def send_ops_def outcome_simps split: result.splits)
  have del: "deliverable cfg" and cfg': "template_config r = Some cfg"
    using st cfg by (auto simp: sessions_in_step_def)
  have ok: "config_ok cfg" "no_empty_mki cfg" "sc_replay_window_size cfg \<noteq> 0" "\<not> sc_allow_send_repeat cfg"
    using del by (simp_all add: deliverable_def)
  from new_streams_outcome [OF C ok(1) new] obtain stream' where
    new': "recv_new B C ssrc cfg (key_limit_handler r) = Ok stream'" by blast
  have step: "in_step B stream stream'"
    by (rule new_streams_in_step [OF B C ok new new'])
  have "get_stream (recv_ops B C) ssrc r =
      (r\<lparr>streams := (streams r)(ssrc \<mapsto> (stream', True))\<rparr>, Ok (stream', True, True))"
    using r cfg' new' by (simp add: get_stream_def recv_ops_def)
  with step ft sessions_in_step_stream [OF st step, of ssrc True] show ?thesis
    by (auto simp: s1)
qed

lemma on_stream_lockstep:
  assumes B: "biguint_laws B" and C: "crypto_laws C" and st: "sessions_in_step B s r"
    and run: "on_stream (send_ops B C) ssrc f s = (s', calls, Ok q)"
    and step: "\<And>stream stream' calls v. in_step B stream v \<Longrightarrow> f stream = (stream', calls, Ok q) \<Longrightarrow>
      \<exists>v' calls'. g v = (v', calls', Ok p) \<and> in_step B stream' v'"
  shows "\<exists>r' calls'. on_stream (recv_ops B C) ssrc g r = (r', calls', Ok p) \<and> sessions_in_step B s' r'"
  using run
proof (rule on_stream_Ok)
  fix stream ft s1 stream'
  let ?new = "streams s ssrc = None"
  assume get: "get_stream (send_ops B C) ssrc s = (s1, Ok (stream, ft, ?new))"
    and f: "f stream = (stream', calls, Ok q)" and s': "s' = s1\<lparr>streams := (streams s1)(ssrc \<mapsto> (stream', ft))\<rparr>"
  from get_stream_lockstep [OF B C st get] obtain r1 v where
    g: "get_stream (recv_ops B C) ssrc r = (r1, Ok (v, ft, ?new))"
    and v: "in_step B stream v" and st1: "sessions_in_step B s1 r1" by blast
  from step [OF v f] obtain v' calls' where gv: "g v = (v', calls', Ok p)" and v': "in_step B stream' v'"
    by blast
  show ?thesis
    using g gv sessions_in_step_stream [OF st1 v', of ssrc ft] by (simp add: on_stream_def s')
qed

lemma rtp_session_lockstep:
  assumes B: "biguint_laws B" and C: "crypto_laws C" and st: "sessions_in_step B s r"
    and run: "rtp_protect_mki B C p m s = (s', calls, Ok q)"
  shows "\<exists>r' calls'. rtp_unprotect B C q r = (r', calls', Ok p) \<and> sessions_in_step B s' r'"
proof -
  from run obtain h where h: "rtp_header_new p = Ok h"
    and on: "on_stream (send_ops B C) (rtp_ssrc h) (send_rtp_protect B C h p m) s = (s', calls, Ok q)"
    by (auto simp: rtp_protect_mki_def outcome_simps)
  have "rtp_header_new q = Ok h"
    using on
  proof (rule on_stream_Ok)
    fix stream ft s1 stream'
    assume "get_stream (send_ops B C) (rtp_ssrc h) s = (s1, Ok (stream, ft, streams s (rtp_ssrc h) = None))"
      and f: "send_rtp_protect B C h p m stream = (stream', calls, Ok q)"
    from get_stream_lockstep [OF B C st this(1)] obtain v where "in_step B stream v" by blast
    from rtp_lockstep [OF C this h f] show ?thesis by simp
  qed
  moreover have "\<exists>r' calls'. on_stream (recv_ops B C) (rtp_ssrc h) (recv_rtp_unprotect B C h q) r = (r', calls', Ok p) \<and>
      sessions_in_step B s' r'"
    by (rule on_stream_lockstep [OF B C st on]) (use rtp_lockstep [OF C _ h] in blast)
  ultimately show ?thesis by (simp add: rtp_unprotect_def)
qed

lemma rtcp_session_lockstep:
  assumes B: "biguint_laws B" and C: "crypto_laws C" and st: "sessions_in_step B s r"
    and run: "rtcp_protect_mki B C p m s = (s', calls, Ok q)"
  shows "\<exists>r' calls'. rtcp_unprotect B C q r = (r', calls', Ok p) \<and> sessions_in_step B s' r'"
proof -
  from run obtain h where h: "rtcp_header_new p = Ok h"
    and on: "on_stream (send_ops B C) (rtcp_ssrc h) (send_rtcp_protect C h p m) s = (s', calls, Ok q)"
    by (auto simp: rtcp_protect_mki_def outcome_simps)
  have "rtcp_header_new q = Ok h"
    using on
  proof (rule on_stream_Ok)
    fix stream ft s1 stream'
    assume "get_stream (send_ops B C) (rtcp_ssrc h) s = (s1, Ok (stream, ft, streams s (rtcp_ssrc h) = None))"
      and f: "send_rtcp_protect C h p m stream = (stream', calls, Ok q)"
    from get_stream_lockstep [OF B C st this(1)] obtain v where "in_step B stream v" by blast
    from rtcp_lockstep [OF C this h f] show ?thesis by simp
  qed
  moreover have "\<exists>r' calls'. on_stream (recv_ops B C) (rtcp_ssrc h) (recv_rtcp_unprotect B C h q) r = (r', calls', Ok p) \<and>
      sessions_in_step B s' r'"
    by (rule on_stream_lockstep [OF B C st on]) (use rtcp_lockstep [OF C _ h] in blast)
  ultimately show ?thesis by (simp add: rtcp_unprotect_def)
qed

text \<open>Two new sessions with the same configuration, as template or for one SSRC, are in lockstep.\<close>

lemma add_stream_lockstep:
  assumes B: "biguint_laws B" and C: "crypto_laws C" and cfg: "deliverable cfg"
    and s: "add_stream (send_ops B C) [] order ssrc cfg session_new = (s, Ok ())"
    and r: "add_stream (recv_ops B C) [] order' ssrc cfg session_new = (r, Ok ())"
  shows "sessions_in_step B s r"
proof -
  have ok: "config_ok cfg" "no_empty_mki cfg" "sc_replay_window_size cfg \<noteq> 0" "\<not> sc_allow_send_repeat cfg"
    using cfg by (simp_all add: deliverable_def)
  have valid: "validate cfg = Ok ()"
    using ok(1) by (simp add: config_ok_def validate_iff)
  show ?thesis
  proof (cases ssrc)
    case None
    then show ?thesis
      using s r valid cfg by (auto simp: add_stream_def session_new_def sessions_in_step_def)
  next
    case (Some i)
    then obtain stream stream' where new: "send_new B C i cfg False = Ok stream" "recv_new B C i cfg False = Ok stream'"
      "s = session_new\<lparr>streams := (streams session_new)(i \<mapsto> (stream, False))\<rparr>"
      "r = session_new\<lparr>streams := (streams session_new)(i \<mapsto> (stream', False))\<rparr>"
      using s r valid
      by (auto simp: add_stream_def session_new_def send_ops_def recv_ops_def split: result.splits)
    have "sessions_in_step B session_new session_new"
      by (simp add: sessions_in_step_def session_new_def)
    from sessions_in_step_stream [OF this new_streams_in_step [OF B C ok new(1,2)]] new(3,4)
    show ?thesis by simp
  qed
qed

lemma add_stream_succeeds:
  assumes C: "crypto_laws C" and cfg: "config_ok cfg" "is_gcm (sc_rtp_profile cfg) = is_gcm (sc_rtcp_profile cfg)"
  shows "\<exists>s. add_stream (send_ops B C) [] order ssrc cfg session_new = (s, Ok ())"
    and "\<exists>r. add_stream (recv_ops B C) [] order ssrc cfg session_new = (r, Ok ())"
proof -
  have valid: "validate cfg = Ok ()"
    using cfg(1) by (simp add: config_ok_def validate_iff)
  have "\<exists>s. send_new B C i cfg False = Ok s" "\<exists>r. recv_new B C i cfg False = Ok r" for i
    using base_new_outcome [OF C cfg(1), of B i False] cfg(2) by (auto simp: send_new_def recv_new_def)
  then have "\<exists>s. op_new (send_ops B C) i cfg (key_limit_handler session_new) = Ok s"
    "\<exists>r. op_new (recv_ops B C) i cfg (key_limit_handler session_new) = Ok r" for i
    by (simp_all add: send_ops_def recv_ops_def session_new_def)
  note new = this
  show "\<exists>s. add_stream (send_ops B C) [] order ssrc cfg session_new = (s, Ok ())"
    "\<exists>r. add_stream (recv_ops B C) [] order ssrc cfg session_new = (r, Ok ())"
    using new [of "the ssrc"] by (cases ssrc; force simp: valid add_stream_def session_new_def split: result.split)+
qed

subsection \<open>Packets that go out\<close>

datatype outgoing = OutRtp bytes mki | OutRtcp bytes mki

fun plain_packet :: "outgoing \<Rightarrow> bytes" where
  "plain_packet (OutRtp p m) = p"
| "plain_packet (OutRtcp p m) = p"

fun protect_packet :: "'b biguint \<Rightarrow> crypto \<Rightarrow> outgoing \<Rightarrow> 'b send_session \<Rightarrow>
    'b send_session \<times> srtp_error list \<times> bytes result" where
  "protect_packet B C (OutRtp p m) = rtp_protect_mki B C p m"
| "protect_packet B C (OutRtcp p m) = rtcp_protect_mki B C p m"

fun unprotect_packet :: "'b biguint \<Rightarrow> crypto \<Rightarrow> outgoing \<Rightarrow> bytes \<Rightarrow> 'b recv_session \<Rightarrow>
    'b recv_session \<times> srtp_error list \<times> bytes result" where
  "unprotect_packet B C (OutRtp _ _) = rtp_unprotect B C"
| "unprotect_packet B C (OutRtcp _ _) = rtcp_unprotect B C"

end
