(* ===== verification/Srtp_Session_Runs.thy ===== *)
theory Srtp_Session_Runs
  imports Srtp_Session_Delivery
begin

text \<open>
  Runs of a session, SSRC by SSRC: whatever calls a session gets, what one SSRC sees of them is a
  run of its stream, which starts when the stream is spawned. So what is true of the runs of a
  stream is true of a session: no packet is accepted twice, no initialisation vector is used twice,
  also between streams that share the session keys of a template.
\<close>

section \<open>What one SSRC sees\<close>

text \<open>
  Between \<open>s\<close> and \<open>s'\<close> the stream of \<open>x\<close> did the run \<open>es\<close>; a stream that was not there in \<open>s\<close> did
  it from a well-formed state.
\<close>

definition follows :: "('t \<Rightarrow> 'e list \<Rightarrow> 't \<Rightarrow> bool) \<Rightarrow> ('t \<Rightarrow> bool) \<Rightarrow> u32 \<Rightarrow> 't session \<Rightarrow> 'e list \<Rightarrow> 't session \<Rightarrow> bool" where
  "follows run ok x s es s' \<longleftrightarrow>
     (case streams s x of
        Some (t, _) \<Rightarrow> (case streams s' x of Some (t', _) \<Rightarrow> run t es t' | None \<Rightarrow> False)
      | None \<Rightarrow> (case streams s' x of Some (t', _) \<Rightarrow> \<exists>t. ok t \<and> run t es t' | None \<Rightarrow> es = []))"

locale session_runs = stream_interface ops ok cfg_ok
  for ops :: "'t stream_ops" and ok :: "'t \<Rightarrow> bool" and cfg_ok :: "stream_config \<Rightarrow> bool" +
  fixes run :: "'t \<Rightarrow> 'e list \<Rightarrow> 't \<Rightarrow> bool"
    and killed :: "mki \<Rightarrow> 'e"
  assumes run_nil: "run t [] t"
    and run_append: "run t es t' \<Longrightarrow> run t' es' t'' \<Longrightarrow> run t (es @ es') t''"
    and run_killed: "op_kill_session_keys ops m t = (t', r) \<Longrightarrow> run t [killed m] t'"
begin

lemma follows_refl: "follows run ok x s [] s"
  by (auto simp: follows_def run_nil split: option.split)

lemma follows_trans:
  "follows run ok x s es s' \<Longrightarrow> follows run ok x s' es' s'' \<Longrightarrow> follows run ok x s (es @ es') s''"
  by (auto simp: follows_def intro: run_append split: option.splits prod.splits)

lemma follows_start:
  assumes "follows run ok x s es s'" "session_ok ok cfg_ok s" "es \<noteq> []"
  obtains t t' where "ok t" "run t es t'"
proof -
  have "ok t" if "streams s x = Some (t, ft)" for t ft
    using assms(2) that by (auto simp: session_ok_def)
  then show thesis
    using assms(1,3) that by (auto simp: follows_def split: option.splits prod.splits)
qed

lemma follows_kill: "\<exists>es. follows run ok x s es (kill_key ops m s) \<and> es \<in> {[], [killed m]}"
proof (cases "streams s x")
  case None
  then have "follows run ok x s [] (kill_key ops m s)"
    by (simp add: follows_def kill_key_def kill_templated_def)
  then show ?thesis by blast
next
  case (Some y)
  then obtain t ft where y: "streams s x = Some (t, ft)" by (cases y) simp
  show ?thesis
  proof (cases ft)
    case True
    have "run t [killed m] (fst (op_kill_session_keys ops m t))"
      by (rule run_killed [of m t _ "snd (op_kill_session_keys ops m t)"]) simp
    with y True have "follows run ok x s [killed m] (kill_key ops m s)"
      by (simp add: follows_def kill_key_def kill_templated_def)
    then show ?thesis by blast
  next
    case False
    with y have "follows run ok x s [] (kill_key ops m s)"
      by (simp add: follows_def kill_key_def kill_templated_def run_nil)
    then show ?thesis by blast
  qed
qed

text \<open>A call on one SSRC: a failure shows to the others at most as a killed key, a success not at all.\<close>

lemma follows_error:
  assumes "\<And>t. fails_unchanged t (f t)" "on_stream ops x f s = (s', calls, Err e)"
  shows "\<exists>es. follows run ok y s es s' \<and> es \<in> {[], [killed (err_mki e)]}"
  using on_stream_error(1) [OF assms] follows_kill [of y s "err_mki e"] follows_refl [of y s] by auto

lemma follows_packet_error:
  assumes "\<And>h t. fails_unchanged t (f h t)" "try_in s [] header (\<lambda>h. on_stream ops (x h) (f h) s) = (s', calls, Err e)"
  shows "\<exists>es. follows run ok y s es s' \<and> es \<in> {[], [killed (err_mki e)]}"
  using try_in_Err_header [OF assms(2)]
proof (elim disjE conjE exE)
  assume "s' = s"
  then show ?thesis using follows_refl [of y s] by blast
next
  fix h assume "on_stream ops (x h) (f h) s = (s', calls, Err e)"
  then show ?thesis by (rule follows_error [OF assms(1)])
qed

lemma follows_success:
  assumes s: "session_ok ok cfg_ok s" and call: "on_stream ops x f s = (s', calls, Ok q)"
    and f: "\<And>t t' calls. ok t \<Longrightarrow> f t = (t', calls, Ok q) \<Longrightarrow> run t [ev t] t'"
  obtains s1 t ft pending where "get_stream ops x s = (s1, Ok (t, ft, pending))"
    "follows run ok x s [ev t] s'" "\<And>y. y \<noteq> x \<Longrightarrow> follows run ok y s [] s'"
  using call
proof (rule on_stream_Ok)
  fix t ft s1 t'
  assume get: "get_stream ops x s = (s1, Ok (t, ft, streams s x = None))"
    and ft: "f t = (t', calls, Ok q)" and s': "s' = s1\<lparr>streams := (streams s1)(x \<mapsto> (t', ft))\<rparr>"
  have "ok t" by (rule get_stream_ok(3) [OF s get]) simp
  with f ft have step: "run t [ev t] t'" by blast
  have known: "streams s x = Some (t, ft)" if "streams s x \<noteq> None"
    using get that by (auto simp: get_stream_def)
  have "follows run ok x s [ev t] s'"
    using known \<open>ok t\<close> step by (auto simp: follows_def s' split: option.split)
  moreover have "follows run ok y s [] s'" if "y \<noteq> x" for y
  proof -
    have "streams s' y = streams s y"
      using get that by (auto simp: s' get_stream_def split: option.splits result.splits prod.splits)
    then show ?thesis by (auto simp: follows_def run_nil split: option.split)
  qed
  ultimately show thesis using that get by blast
qed

end

lemma distinct_by_key:
  assumes "\<And>x. distinct (map g (filter (\<lambda>a. key a = x) xs))" and "\<And>a b. g a = g b \<Longrightarrow> key a = key b"
  shows "distinct (map g xs)"
  using assms(1)
proof (induction xs)
  case Nil
  then show ?case by simp
next
  case (Cons a xs)
  have "distinct (map g (filter (\<lambda>a. key a = x) xs))" for x
    using Cons.prems [of x] by (simp split: if_splits)
  moreover have "g a \<notin> g ` set xs"
  proof
    assume "g a \<in> g ` set xs"
    then obtain b where b: "b \<in> set xs" "g a = g b" by blast
    then have "b \<in> set (filter (\<lambda>b. key b = key a) xs)"
      using assms(2) [of a b] by simp
    then have "g a \<in> set (map g (filter (\<lambda>b. key b = key a) xs))"
      using b(2) by (simp only: list.set_map) blast
    then show False using Cons.prems [of "key a"] by simp
  qed
  ultimately show ?case using Cons.IH by simp
qed

section \<open>The receiving session\<close>

lemma recv_run_append: "recv_run B C v es v' \<Longrightarrow> recv_run B C v' es' v'' \<Longrightarrow> recv_run B C v (es @ es') v''"
  by (induction rule: recv_run.induct) (auto intro: recv_run_cons)

interpretation receiver_runs: session_runs
    "recv_ops B C" "\<lambda>s. crypto_laws C \<and> recv_ok B s" "\<lambda>cfg. crypto_laws C \<and> config_ok cfg"
    "recv_run B C" RecvKeyKilled for B C
  by unfold_locales
    (auto simp: recv_ops_def intro: recv_run_nil recv_run_append recv_run_cons recv_key_killed)

datatype incoming = InRtp bytes | InRtcp bytes | InRoc u32 u32

text \<open>The SSRC and the index a session takes a packet for.\<close>

definition recv_index :: "'b biguint \<Rightarrow> crypto \<Rightarrow> bytes \<Rightarrow> 'b recv_session \<Rightarrow> (u32 \<times> u64) list" where
  "recv_index B C c s =
     (case rtp_header_new c of
        Ok h \<Rightarrow>
          (case get_stream (recv_ops B C) (rtp_ssrc h) s of
             (_, Ok (v, _, _)) \<Rightarrow> [(rtp_ssrc h, rtp_estimate_index (b_rtp_index (v_base v)) (seq_num h))]
           | _ \<Rightarrow> [])
      | _ \<Rightarrow> [])"

text \<open>The RTP packets a session accepts among the calls it gets, by SSRC and index.\<close>

fun rtp_accepts :: "'b biguint \<Rightarrow> crypto \<Rightarrow> incoming list \<Rightarrow> 'b recv_session \<Rightarrow> (u32 \<times> u64) list" where
  "rtp_accepts B C [] s = []"
| "rtp_accepts B C (InRtp c # xs) s =
     (case rtp_unprotect B C c s of
        (s', _, Ok p) \<Rightarrow> recv_index B C c s @ rtp_accepts B C xs s'
      | (s', _, Err e) \<Rightarrow> rtp_accepts B C xs s'
      | (s', _, Panic) \<Rightarrow> [])"
| "rtp_accepts B C (InRtcp c # xs) s =
     (case rtcp_unprotect B C c s of
        (s', _, Panic) \<Rightarrow> []
      | (s', _, _) \<Rightarrow> rtp_accepts B C xs s')"
| "rtp_accepts B C (InRoc ssrc roc # xs) s = rtp_accepts B C xs (fst (set_roc ssrc roc s))"

lemma rtp_accepted_list_append [simp]:
  "rtp_accepted_list (es @ es') = rtp_accepted_list es @ rtp_accepted_list es'"
  by (induction es rule: rtp_accepted_list.induct) simp_all

text \<open>The accepted indices of one SSRC, and the run they come from.\<close>

abbreviation accepts_follow :: "'b biguint \<Rightarrow> crypto \<Rightarrow> u32 \<Rightarrow> 'b recv_session \<Rightarrow> u64 list \<Rightarrow> 'b recv_session \<Rightarrow> bool" where
  "accepts_follow B C x s is s' \<equiv>
     \<exists>es. follows (recv_run B C) (\<lambda>v. crypto_laws C \<and> recv_ok B v) x s es s' \<and> map snd (rtp_accepted_list es) = is"

lemma accepts_follow_trans:
  "accepts_follow B C x s is s' \<Longrightarrow> accepts_follow B C x s' js s'' \<Longrightarrow> accepts_follow B C x s (is @ js) s''"
proof (elim exE conjE)
  fix es es'
  assume "follows (recv_run B C) (\<lambda>v. crypto_laws C \<and> recv_ok B v) x s es s'"
    "follows (recv_run B C) (\<lambda>v. crypto_laws C \<and> recv_ok B v) x s' es' s''"
    and "map snd (rtp_accepted_list es) = is" "map snd (rtp_accepted_list es') = js"
  with receiver_runs.follows_trans [of B C x s es s' es' s''] show ?thesis
    by (intro exI [of _ "es @ es'"]) simp
qed

lemma accepts_follow_refl: "accepts_follow B C x s [] s"
  using receiver_runs.follows_refl [of B C x s] by (intro exI [of _ "[]"]) simp

lemma rtp_unprotect_follows:
  assumes s: "recv_session_ok B C s" and run: "rtp_unprotect B C c s = (s', calls, Ok p)"
  shows "accepts_follow B C x s (map snd (filter (\<lambda>a. fst a = x) (recv_index B C c s))) s'"
proof -
  from run obtain h where h: "rtp_header_new c = Ok h"
    and on: "on_stream (recv_ops B C) (rtp_ssrc h) (recv_rtp_unprotect B C h c) s = (s', calls, Ok p)"
    by (auto simp: rtp_unprotect_def outcome_simps)
  define ev where "ev v = RtpAccepted (case recv_get_mki v c (header_len h) True of Ok m \<Rightarrow> m | _ \<Rightarrow> None)
    (rtp_estimate_index (b_rtp_index (v_base v)) (seq_num h)) p" for v :: "'a recv_stream"
  have step: "recv_run B C v [ev v] v'" if ok: "recv_rtp_unprotect B C h c v = (v', calls, Ok p)" for v v' calls
  proof -
    obtain m where m: "recv_get_mki v c (header_len h) True = Ok m"
      using recv_rtp_unprotect_Ok [OF ok] by metis
    from recv_run_cons [OF rtp_accepted [OF ok m] recv_run_nil] show ?thesis
      by (simp add: ev_def m)
  qed
  obtain s1 v ft pending where get: "get_stream (recv_ops B C) (rtp_ssrc h) s = (s1, Ok (v, ft, pending))"
    and here: "follows (recv_run B C) (\<lambda>v. crypto_laws C \<and> recv_ok B v) (rtp_ssrc h) s [ev v] s'"
    and there: "\<And>y. y \<noteq> rtp_ssrc h \<Longrightarrow> follows (recv_run B C) (\<lambda>v. crypto_laws C \<and> recv_ok B v) y s [] s'"
    by (rule receiver_runs.follows_success [OF s [unfolded recv_session_ok_def] on, of ev])
      (use step in blast, use that in blast)
  have "recv_index B C c s = [(rtp_ssrc h, rtp_estimate_index (b_rtp_index (v_base v)) (seq_num h))]"
    by (simp add: recv_index_def h get)
  with here there [of x] show ?thesis
    by (cases "x = rtp_ssrc h") (auto simp: ev_def)
qed

lemma rtcp_unprotect_follows:
  assumes s: "recv_session_ok B C s" and run: "rtcp_unprotect B C c s = (s', calls, Ok p)"
  shows "accepts_follow B C x s [] s'"
proof -
  from run obtain h where h: "rtcp_header_new c = Ok h"
    and on: "on_stream (recv_ops B C) (rtcp_ssrc h) (recv_rtcp_unprotect B C h c) s = (s', calls, Ok p)"
    by (auto simp: rtcp_unprotect_def outcome_simps)
  define ev where "ev v = RtcpAccepted (case recv_get_mki v c rtcp_header_len False of Ok m \<Rightarrow> m | _ \<Rightarrow> None)
    (rtcp_trailer_index v c) p" for v :: "'a recv_stream"
  have step: "recv_run B C v [ev v] v'" if ok: "recv_rtcp_unprotect B C h c v = (v', calls, Ok p)" for v v' calls
  proof -
    obtain m where m: "recv_get_mki v c rtcp_header_len False = Ok m"
      using recv_rtcp_unprotect_Ok [OF ok] by metis
    from recv_run_cons [OF rtcp_accepted [OF ok m] recv_run_nil] show ?thesis
      by (simp add: ev_def m)
  qed
  obtain s1 v ft pending where "get_stream (recv_ops B C) (rtcp_ssrc h) s = (s1, Ok (v, ft, pending))"
    and here: "follows (recv_run B C) (\<lambda>v. crypto_laws C \<and> recv_ok B v) (rtcp_ssrc h) s [ev v] s'"
    and there: "\<And>y. y \<noteq> rtcp_ssrc h \<Longrightarrow> follows (recv_run B C) (\<lambda>v. crypto_laws C \<and> recv_ok B v) y s [] s'"
    by (rule receiver_runs.follows_success [OF s [unfolded recv_session_ok_def] on, of ev])
      (use step in blast, use that in blast)
  with there [of x] show ?thesis
    by (cases "x = rtcp_ssrc h") (force simp: ev_def)+
qed

lemma killed_accepts_nothing: "es \<in> {[], [RecvKeyKilled m]} \<Longrightarrow> map snd (rtp_accepted_list es) = []"
  by auto

lemma recv_error_follows:
  "rtp_unprotect B C c s = (s', calls, Err e) \<Longrightarrow> accepts_follow B C x s [] s'"
  "rtcp_unprotect B C c s = (s', calls, Err e) \<Longrightarrow> accepts_follow B C x s [] s'"
  unfolding rtp_unprotect_def rtcp_unprotect_def
  by (drule receiver_runs.follows_packet_error [rotated, where y = x];
      use recv_fails_unchanged killed_accepts_nothing in fastforce)+

lemma set_roc_follows: "accepts_follow B C x s [] (fst (set_roc ssrc roc s))"
proof (cases "streams s ssrc")
  case None
  then show ?thesis using accepts_follow_refl [of B C x s] by (simp add: set_roc_def)
next
  case (Some y)
  then obtain v ft where y: "streams s ssrc = Some (v, ft)" by (cases y) simp
  obtain v' r where set: "recv_set_roc roc v = (v', r)" by (cases "recv_set_roc roc v")
  have s': "fst (set_roc ssrc roc s) = s\<lparr>streams := (streams s)(ssrc \<mapsto> (v', ft))\<rparr>"
    by (simp add: set_roc_def y set)
  have run: "recv_run B C v [RocSet roc] v'"
    by (rule recv_run_cons [OF roc_set [OF set] recv_run_nil])
  show ?thesis
  proof (cases "x = ssrc")
    case True
    then show ?thesis
      using run y by (intro exI [of _ "[RocSet roc]"]) (simp add: follows_def s')
  next
    case False
    then have "follows (recv_run B C) (\<lambda>v. crypto_laws C \<and> recv_ok B v) x s [] (fst (set_roc ssrc roc s))"
      by (auto simp: follows_def s' recv_run_nil split: option.split)
    then show ?thesis by (intro exI [of _ "[]"]) simp
  qed
qed

lemma rtp_accepts_follow:
  assumes C: "crypto_laws C"
  shows "recv_reachable B C s \<Longrightarrow>
    \<exists>s'. accepts_follow B C x s (map snd (filter (\<lambda>a. fst a = x) (rtp_accepts B C xs s))) s'"
proof (induction xs arbitrary: s)
  case Nil
  then show ?case using accepts_follow_refl [of B C x s] by auto
next
  case (Cons call xs)
  have chain: "\<exists>s''. accepts_follow B C x s (is @ map snd (filter (\<lambda>a. fst a = x) (rtp_accepts B C xs s'))) s''"
    if "accepts_follow B C x s is s'" "recv_reachable B C s'" for "is" s'
    using accepts_follow_trans [OF that(1)] Cons.IH [OF that(2)] by blast
  show ?case
  proof (cases call)
    case (InRtp c)
    obtain s' calls res where run: "rtp_unprotect B C c s = (s', calls, res)" by (cases "rtp_unprotect B C c s")
    have s': "recv_reachable B C s'" using recv_rtp [OF Cons.prems, of c] run by simp
    show ?thesis
    proof (cases res)
      case (Ok p)
      with rtp_unprotect_follows [OF recv_reachable_ok [OF C Cons.prems], of c s' calls p x] run
        chain [OF _ s'] show ?thesis by (simp add: InRtp)
    next
      case (Err e)
      with recv_error_follows(1) [of B C c s s' calls e x] run chain [OF _ s', of "[]"] show ?thesis
        by (simp add: InRtp)
    next
      case Panic
      then show ?thesis using run accepts_follow_refl [of B C x s] by (auto simp: InRtp)
    qed
  next
    case (InRtcp c)
    obtain s' calls res where run: "rtcp_unprotect B C c s = (s', calls, res)" by (cases "rtcp_unprotect B C c s")
    have s': "recv_reachable B C s'" using recv_rtcp [OF Cons.prems, of c] run by simp
    show ?thesis
    proof (cases res)
      case (Ok p)
      with rtcp_unprotect_follows [OF recv_reachable_ok [OF C Cons.prems], of c s' calls p x] run
        chain [OF _ s', of "[]"] show ?thesis by (simp add: InRtcp)
    next
      case (Err e)
      with recv_error_follows(2) [of B C c s s' calls e x] run chain [OF _ s', of "[]"] show ?thesis
        by (simp add: InRtcp)
    next
      case Panic
      then show ?thesis using run accepts_follow_refl [of B C x s] by (auto simp: InRtcp)
    qed
  next
    case (InRoc ssrc roc)
    have s': "recv_reachable B C (fst (set_roc ssrc roc s))" by (rule recv_roc [OF Cons.prems])
    from chain [OF set_roc_follows s'] show ?thesis by (simp add: InRoc)
  qed
qed

lemma session_accepts_distinct:
  assumes B: "biguint_laws B" and C: "crypto_laws C" and s: "recv_reachable B C s"
  shows "distinct (rtp_accepts B C xs s)"
proof -
  have "distinct (map snd (filter (\<lambda>a. fst a = x) (rtp_accepts B C xs s)))" for x
  proof -
    from rtp_accepts_follow [OF C s, of x xs] obtain s' es where
      es: "follows (recv_run B C) (\<lambda>v. crypto_laws C \<and> recv_ok B v) x s es s'"
      and acc: "map snd (rtp_accepted_list es) = map snd (filter (\<lambda>a. fst a = x) (rtp_accepts B C xs s))" by blast
    show ?thesis
    proof (cases "es = []")
      case True
      then show ?thesis using acc by simp
    next
      case False
      obtain v v' where "recv_ok B v" "recv_run B C v es v'"
        by (rule receiver_runs.follows_start [OF es recv_reachable_ok [OF C s, unfolded recv_session_ok_def] False]) blast
      then show ?thesis
        using recv_run_distinct [OF B] by (simp add: acc [symmetric])
    qed
  qed
  note here = this [unfolded distinct_map, THEN conjunct1]
  have "distinct (map id (rtp_accepts B C xs s))"
  proof (rule distinct_by_key [where key = fst])
    show "distinct (map id (filter (\<lambda>a. fst a = x) (rtp_accepts B C xs s)))" for x
      using here [of x] by (simp only: list.map_id)
    show "fst a = fst b" if "id a = id b" for a b :: "u32 \<times> u64"
      using that by simp
  qed
  then show ?thesis by simp
qed

section \<open>The sending session\<close>

lemma send_run_append: "send_run B C s es s' \<Longrightarrow> send_run B C s' es' s'' \<Longrightarrow> send_run B C s (es @ es') s''"
  by (induction rule: send_run.induct) (auto intro: send_run_cons)

text \<open>A stream, a configuration and a session that allow no repetition.\<close>

definition strict_stream :: "'b biguint \<Rightarrow> crypto \<Rightarrow> 'b send_stream \<Rightarrow> bool" where
  "strict_stream B C s \<longleftrightarrow> crypto_laws C \<and> send_ok B s \<and> \<not> b_allow_send_repeat (s_base s)"

definition strict_config :: "crypto \<Rightarrow> stream_config \<Rightarrow> bool" where
  "strict_config C cfg \<longleftrightarrow> crypto_laws C \<and> config_ok cfg \<and> \<not> sc_allow_send_repeat cfg"

definition strict_session :: "'b biguint \<Rightarrow> crypto \<Rightarrow> 'b send_session \<Rightarrow> bool" where
  "strict_session B C = session_ok (strict_stream B C) (strict_config C)"

lemma send_new_strict:
  assumes "strict_config C cfg" "send_new B C ssrc cfg h = Ok s"
  shows "strict_stream B C s"
proof -
  from assms(2) obtain b where b: "base_new B C ssrc cfg h = Ok b" "s_base s = b"
    by (auto simp: send_new_def outcome_simps)
  from b(1) have "b_allow_send_repeat b = sc_allow_send_repeat cfg"
    by (rule base_new_Ok) simp
  with assms b(2) new_ok(1) [of C cfg B ssrc h s] show ?thesis
    by (simp add: strict_stream_def strict_config_def)
qed

lemma base_update_repeat:
  "base_update B C ms cfg b = (b', r) \<Longrightarrow> b_allow_send_repeat b' \<in> {b_allow_send_repeat b, sc_allow_send_repeat cfg}"
  by (auto simp: base_update_def split: result.splits prod.splits)

lemma send_update_strict:
  assumes "strict_config C cfg" "strict_stream B C s" "send_update B C ms cfg s = (s', r)"
  shows "strict_stream B C s'" "r \<noteq> Panic"
  using assms update_ok(1) [of C cfg B s ms s' r] base_update_repeat [of B C ms cfg "s_base s" "s_base s'" r]
  by (auto simp: strict_stream_def strict_config_def send_update_def split: prod.splits)

lemma send_kill_strict:
  assumes "strict_stream B C s" "send_kill_session_keys m s = (s', r)"
  shows "strict_stream B C s'"
  using assms kill_ok(1) [of B s m s' r] kill_base(2) [of m "s_base s" "s_base s'" r]
  by (auto simp: strict_stream_def send_kill_session_keys_def split: prod.splits)

lemma kill_strict: "strict_config C cfg \<Longrightarrow> strict_config C (fst (sc_set_keys_lifetime_mki cfg 0 0 0 0 m))"
  using config_ok_kill [of cfg m] by (simp add: strict_config_def sc_set_keys_lifetime_mki_def split_beta)

interpretation sender_runs: session_runs
    "send_ops B C" "strict_stream B C" "strict_config C" "send_run B C" SendKeyKilled for B C
proof (unfold_locales, goal_cases)
  case (1 cfg ssrc h s) then show ?case by (simp add: send_ops_def send_new_strict)
next
  case (2 cfg ssrc h) then show ?case by (simp add: send_ops_def strict_config_def new_ok(3))
next
  case (3 s cfg ms s' r) then show ?case using send_update_strict [of C cfg B s ms s' r] by (simp add: send_ops_def)
next
  case (4 s m s' r) then show ?case using send_kill_strict by (auto simp: send_ops_def)
next
  case 5 then show ?case by (rule kill_strict)
next
  case 6 then show ?case by (rule send_run_nil)
next
  case 7 then show ?case by (rule send_run_append)
next
  case (8 m t t' r) then show ?case by (auto simp: send_ops_def intro: send_run_cons send_run_nil send_key_killed)
qed

text \<open>The header and the index of the RTP packets a session sends.\<close>

definition send_index :: "'b biguint \<Rightarrow> crypto \<Rightarrow> bytes \<Rightarrow> 'b send_session \<Rightarrow> (rtp_header \<times> u64) list" where
  "send_index B C p s =
     (case rtp_header_new p of
        Ok h \<Rightarrow>
          (case get_stream (send_ops B C) (rtp_ssrc h) s of
             (_, Ok (stream, _, _)) \<Rightarrow> [(h, rtp_estimate_index (b_rtp_index (s_base stream)) (seq_num h))]
           | _ \<Rightarrow> [])
      | _ \<Rightarrow> [])"

fun rtp_sends :: "'b biguint \<Rightarrow> crypto \<Rightarrow> outgoing list \<Rightarrow> 'b send_session \<Rightarrow> (rtp_header \<times> u64) list" where
  "rtp_sends B C [] s = []"
| "rtp_sends B C (OutRtp p m # os) s =
     (case rtp_protect_mki B C p m s of
        (s', _, Ok q) \<Rightarrow> send_index B C p s @ rtp_sends B C os s'
      | (s', _, Err e) \<Rightarrow> rtp_sends B C os s'
      | (s', _, Panic) \<Rightarrow> [])"
| "rtp_sends B C (OutRtcp p m # os) s =
     (case rtcp_protect_mki B C p m s of
        (s', _, Panic) \<Rightarrow> []
      | (s', _, _) \<Rightarrow> rtp_sends B C os s')"

lemma rtp_sent_list_append [simp]: "rtp_sent_list (es @ es') = rtp_sent_list es @ rtp_sent_list es'"
  by (induction es rule: rtp_sent_list.induct) simp_all

abbreviation sends_follow :: "'b biguint \<Rightarrow> crypto \<Rightarrow> u32 \<Rightarrow> 'b send_session \<Rightarrow> (rtp_header \<times> u64) list \<Rightarrow> 'b send_session \<Rightarrow> bool" where
  "sends_follow B C x s hs s' \<equiv>
     \<exists>es. follows (send_run B C) (strict_stream B C) x s es s' \<and> map snd (rtp_sent_list es) = hs"

lemma sends_follow_trans:
  "sends_follow B C x s hs s' \<Longrightarrow> sends_follow B C x s' hs' s'' \<Longrightarrow> sends_follow B C x s (hs @ hs') s''"
proof (elim exE conjE)
  fix es es'
  assume "follows (send_run B C) (strict_stream B C) x s es s'" "follows (send_run B C) (strict_stream B C) x s' es' s''"
    and "map snd (rtp_sent_list es) = hs" "map snd (rtp_sent_list es') = hs'"
  with sender_runs.follows_trans [of B C x s es s' es' s''] show ?thesis
    by (intro exI [of _ "es @ es'"]) simp
qed

lemma sends_follow_refl: "sends_follow B C x s [] s"
  using sender_runs.follows_refl [of B C x s] by (intro exI [of _ "[]"]) simp

lemma rtp_protect_follows:
  assumes s: "strict_session B C s" and run: "rtp_protect_mki B C p m s = (s', calls, Ok q)"
  shows "sends_follow B C x s (filter (\<lambda>a. rtp_ssrc (fst a) = x) (send_index B C p s)) s'"
proof -
  from run obtain h where h: "rtp_header_new p = Ok h"
    and on: "on_stream (send_ops B C) (rtp_ssrc h) (send_rtp_protect B C h p m) s = (s', calls, Ok q)"
    by (auto simp: rtp_protect_mki_def outcome_simps)
  define ev where "ev t = RtpSent m h (rtp_estimate_index (b_rtp_index (s_base t)) (seq_num h))" for t :: "'a send_stream"
  have step: "send_run B C t [ev t] t'" if ok: "send_rtp_protect B C h p m t = (t', calls, Ok q)" for t t' calls
    using send_run_cons [OF rtp_sent [OF ok] send_run_nil] by (simp add: ev_def)
  obtain s1 t ft pending where get: "get_stream (send_ops B C) (rtp_ssrc h) s = (s1, Ok (t, ft, pending))"
    and here: "follows (send_run B C) (strict_stream B C) (rtp_ssrc h) s [ev t] s'"
    and there: "\<And>y. y \<noteq> rtp_ssrc h \<Longrightarrow> follows (send_run B C) (strict_stream B C) y s [] s'"
    by (rule sender_runs.follows_success [OF s [unfolded strict_session_def] on, of ev])
      (use step in blast, use that in blast)
  have "send_index B C p s = [(h, rtp_estimate_index (b_rtp_index (s_base t)) (seq_num h))]"
    by (simp add: send_index_def h get)
  with here there [of x] show ?thesis
    by (cases "x = rtp_ssrc h") (auto simp: ev_def)
qed

lemma rtcp_protect_follows:
  assumes s: "strict_session B C s" and run: "rtcp_protect_mki B C p m s = (s', calls, Ok q)"
  shows "sends_follow B C x s [] s'"
proof -
  from run obtain h where h: "rtcp_header_new p = Ok h"
    and on: "on_stream (send_ops B C) (rtcp_ssrc h) (send_rtcp_protect C h p m) s = (s', calls, Ok q)"
    by (auto simp: rtcp_protect_mki_def outcome_simps)
  define ev where "ev t = RtcpSent m h (s_rtcp_index t)" for t :: "'a send_stream"
  have step: "send_run B C t [ev t] t'" if ok: "send_rtcp_protect C h p m t = (t', calls, Ok q)" for t t' calls
    using send_run_cons [OF rtcp_sent [OF ok] send_run_nil] by (simp add: ev_def)
  obtain s1 t ft pending where "get_stream (send_ops B C) (rtcp_ssrc h) s = (s1, Ok (t, ft, pending))"
    and here: "follows (send_run B C) (strict_stream B C) (rtcp_ssrc h) s [ev t] s'"
    and there: "\<And>y. y \<noteq> rtcp_ssrc h \<Longrightarrow> follows (send_run B C) (strict_stream B C) y s [] s'"
    by (rule sender_runs.follows_success [OF s [unfolded strict_session_def] on, of ev])
      (use step in blast, use that in blast)
  with there [of x] show ?thesis
    by (cases "x = rtcp_ssrc h") (force simp: ev_def)+
qed

lemma send_error_follows:
  "rtp_protect_mki B C p m s = (s', calls, Err e) \<Longrightarrow> sends_follow B C x s [] s'"
  "rtcp_protect_mki B C p m s = (s', calls, Err e) \<Longrightarrow> sends_follow B C x s [] s'"
  unfolding rtp_protect_mki_def rtcp_protect_mki_def
  by (drule sender_runs.follows_packet_error [rotated, where y = x]; use send_fails_unchanged in fastforce)+

text \<open>The calls keep a session strict.\<close>

lemma send_step_strict:
  "send_rtp_protect B C h p m t = (t', calls, r) \<Longrightarrow> strict_stream B C t \<Longrightarrow> strict_stream B C t'"
  "send_rtcp_protect C h' p m t = (t', calls, r) \<Longrightarrow> strict_stream B C t \<Longrightarrow> strict_stream B C t'"
proof -
  have same: "b_allow_send_repeat (s_base t') = b_allow_send_repeat (s_base t)"
    if "fails_unchanged t (t', calls, r)" "\<And>q. r = Ok q \<Longrightarrow> b_allow_send_repeat (s_base t') = b_allow_send_repeat (s_base t)"
    using that by (cases r) (auto simp: fails_unchanged_def)
  show "strict_stream B C t'" if run: "send_rtp_protect B C h p m t = (t', calls, r)" and t: "strict_stream B C t"
  proof -
    have "b_allow_send_repeat (s_base t') = b_allow_send_repeat (s_base t)"
      by (rule same) (use send_fails_unchanged(1) [of t B C h p m] run in
        \<open>auto elim!: send_rtp_protect_Ok\<close>)
    then show ?thesis using t send_ok_step(1) [OF _ run] by (simp add: strict_stream_def)
  qed
  show "strict_stream B C t'" if run: "send_rtcp_protect C h' p m t = (t', calls, r)" and t: "strict_stream B C t"
  proof -
    have "b_allow_send_repeat (s_base t') = b_allow_send_repeat (s_base t)"
      by (rule same) (use send_fails_unchanged(2) [of t C h' p m] run in
        \<open>auto elim!: send_rtcp_protect_Ok\<close>)
    then show ?thesis using t send_ok_step(2) [OF _ run] by (simp add: strict_stream_def)
  qed
qed

lemma protect_strict:
  assumes "strict_session B C s"
  shows "strict_session B C (fst (rtp_protect_mki B C p m s))" "strict_session B C (fst (rtcp_protect_mki B C p m s))"
  using assms
  unfolding strict_session_def rtp_protect_mki_def rtcp_protect_mki_def
  by (auto intro!: session_ok_rtp_try sender_runs.on_stream_fst_ok dest: send_step_strict)

lemma strict_session_new: "strict_session B C session_new"
  by (simp add: strict_session_def session_ok_new)

lemma strict_add_stream:
  assumes "strict_session B C s" "crypto_laws C" "config_lives_ok cfg" "\<not> sc_allow_send_repeat cfg"
  shows "strict_session B C (fst (add_stream (send_ops B C) ssrcs order ssrc cfg s))"
  using sender_runs.add_stream_ok [OF assms(1) [unfolded strict_session_def], of cfg ssrcs order ssrc]
    assms(2-4) validate_config_ok [of cfg]
  by (cases "add_stream (send_ops B C) ssrcs order ssrc cfg s") (simp add: strict_session_def strict_config_def)

lemma rtp_sends_follow:
  "strict_session B C s \<Longrightarrow>
    \<exists>s'. sends_follow B C x s (filter (\<lambda>a. rtp_ssrc (fst a) = x) (rtp_sends B C os s)) s'"
proof (induction os arbitrary: s)
  case Nil
  then show ?case using sends_follow_refl [of B C x s] by auto
next
  case (Cons call os)
  have chain: "\<exists>s''. sends_follow B C x s (hs @ filter (\<lambda>a. rtp_ssrc (fst a) = x) (rtp_sends B C os s')) s''"
    if "sends_follow B C x s hs s'" "strict_session B C s'" for hs s'
    using sends_follow_trans [OF that(1)] Cons.IH [OF that(2)] by blast
  show ?case
  proof (cases call)
    case (OutRtp p m)
    obtain s' calls res where run: "rtp_protect_mki B C p m s = (s', calls, res)" by (cases "rtp_protect_mki B C p m s")
    have s': "strict_session B C s'" using protect_strict(1) [OF Cons.prems, of p m] run by simp
    show ?thesis
    proof (cases res)
      case (Ok q)
      with rtp_protect_follows [OF Cons.prems, of p m s' calls q x] run chain [OF _ s'] show ?thesis
        by (simp add: OutRtp)
    next
      case (Err e)
      with send_error_follows(1) [of B C p m s s' calls e x] run chain [OF _ s', of "[]"] show ?thesis
        by (simp add: OutRtp)
    next
      case Panic
      then show ?thesis using run sends_follow_refl [of B C x s] by (auto simp: OutRtp)
    qed
  next
    case (OutRtcp p m)
    obtain s' calls res where run: "rtcp_protect_mki B C p m s = (s', calls, res)" by (cases "rtcp_protect_mki B C p m s")
    have s': "strict_session B C s'" using protect_strict(2) [OF Cons.prems, of p m] run by simp
    show ?thesis
    proof (cases res)
      case (Ok q)
      with rtcp_protect_follows [OF Cons.prems, of p m s' calls q x] run chain [OF _ s', of "[]"] show ?thesis
        by (simp add: OutRtcp)
    next
      case (Err e)
      with send_error_follows(2) [of B C p m s s' calls e x] run chain [OF _ s', of "[]"] show ?thesis
        by (simp add: OutRtcp)
    next
      case Panic
      then show ?thesis using run sends_follow_refl [of B C x s] by (auto simp: OutRtcp)
    qed
  qed
qed

text \<open>
  \<open>iv\<close> is any function of the header and the ROC that determines the SSRC, the sequence number and
  the ROC, as the initialisation vectors of both transforms do.
\<close>

lemma session_iv_distinct:
  assumes B: "biguint_laws B" and s: "strict_session B C s"
    and range: "\<forall>(h, i) \<in> set (rtp_sends B C os s). unat i < 2 ^ 48"
    and iv: "\<And>h r h' r'. iv h r = iv h' r' \<Longrightarrow> rtp_ssrc h = rtp_ssrc h' \<and> r = r' \<and> seq_num h = seq_num h'"
  shows "distinct (map (\<lambda>(h, i). iv h (ucast (drop_bit 16 i) :: u32)) (rtp_sends B C os s))"
proof (rule distinct_by_key [where key = "\<lambda>a. rtp_ssrc (fst a)"])
  show "rtp_ssrc (fst a) = rtp_ssrc (fst b)"
    if "(case a of (h, i) \<Rightarrow> iv h (ucast (drop_bit 16 i))) = (case b of (h, i) \<Rightarrow> iv h (ucast (drop_bit 16 i)))" for a b
  proof (cases a, cases b)
    fix h i h' j assume "a = (h, i)" "b = (h', j)"
    with that have "iv h (ucast (drop_bit 16 i)) = iv h' (ucast (drop_bit 16 j))" by simp
    from iv [OF this] show ?thesis by (simp add: \<open>a = _\<close> \<open>b = _\<close>)
  qed
next
  fix x
  let ?sent = "filter (\<lambda>a. rtp_ssrc (fst a) = x) (rtp_sends B C os s)"
  from rtp_sends_follow [OF s, of x os] obtain s' es where
    es: "follows (send_run B C) (strict_stream B C) x s es s'" and sent: "map snd (rtp_sent_list es) = ?sent" by blast
  show "distinct (map (\<lambda>(h, i). iv h (ucast (drop_bit 16 i))) ?sent)"
  proof (cases "es = []")
    case True
    then show ?thesis by (simp add: sent [symmetric])
  next
    case False
    obtain t t' where t: "strict_stream B C t" and run: "send_run B C t es t'"
      by (rule sender_runs.follows_start [OF es s [unfolded strict_session_def] False])
    have small: "unat i < 2 ^ 48" if "(m, h, i) \<in> set (rtp_sent_list es)" for m h i
    proof -
      have "(h, i) \<in> set ?sent"
        using that by (force simp: sent [symmetric])
      then show ?thesis using range by auto
    qed
    have "distinct (map (\<lambda>(m, h, i). iv h (ucast (drop_bit 16 i))) (rtp_sent_list es))"
    proof (rule send_run_iv_distinct [OF B _ _ run])
      show "send_ok B t" "\<not> b_allow_send_repeat (s_base t)"
        using t by (simp_all add: strict_stream_def)
      show "\<forall>(m, h, i) \<in> set (rtp_sent_list es). unat i < 2 ^ 48"
        using small by blast
      show "r = r' \<and> seq_num h = seq_num h'" if "iv h r = iv h' r'" for h r h' r'
        using iv [OF that] by simp
    qed
    moreover have "map (\<lambda>(m, h, i). iv h (ucast (drop_bit 16 i))) (rtp_sent_list es) =
        map (\<lambda>(h, i). iv h (ucast (drop_bit 16 i))) (map snd (rtp_sent_list es))"
      by (simp add: split_beta comp_def)
    ultimately show ?thesis by (simp only: sent)
  qed
qed

end
