(* ===== verification/Srtp_Samples.thy ===== *)
theory Srtp_Samples
  imports Srtp_Session_Runs
begin

text \<open>
  Concrete keys, configurations, streams and packets, on the sample instances of the external
  operations. The root theory instantiates its theorems on them, to show that the hypotheses can
  hold together.
\<close>

section \<open>Configurations\<close>

definition sample_key :: "mki \<Rightarrow> master_key" where
  "sample_key m = master_key_new (replicate 16 1) [] m"

definition sample_config :: stream_config where
  "sample_config =
     sc_set_replay_window_size (stream_config_new [sample_key None] Aes128CmHmacSha180 Aes128CmHmacSha180) 4"

definition sample_mki_config :: stream_config where
  "sample_mki_config = stream_config_new [sample_key (Some [1]), sample_key (Some [2])] AeadAes128Gcm AeadAes128Gcm"

definition sample_mixed_config :: stream_config where
  "sample_mixed_config = stream_config_new [sample_key None] Aes128CmHmacSha180 AeadAes128Gcm"

lemmas sample_config_defs =
  sample_config_def sample_mki_config_def sample_mixed_config_def sample_key_def sc_set_replay_window_size_def
  stream_config_new_def stream_config_default_def master_key_new_def DEFAULT_REPLAY_WINDOW_SIZE_def

lemma sample_configs_valid:
  "valid_config sample_config" "valid_config sample_mki_config" "valid_config sample_mixed_config"
  by (simp_all add: sample_config_defs valid_config_def Let_def same_sizes_def sizes_fit_def
      mkis_consistent_def mki_size_def)

lemma sample_configs_ok:
  "config_ok sample_config" "config_ok sample_mki_config" "config_ok sample_mixed_config"
  by (simp_all add: config_ok_def sample_configs_valid)
    (simp_all add: sample_config_defs lifetime_ok_default)

lemma sample_lives_ok: "config_lives_ok sample_config"
  using sample_configs_ok(1) by (simp add: config_ok_def config_lives_ok_def)

lemma sample_deliverable: "deliverable sample_config" "deliverable sample_mki_config"
  by (simp_all add: deliverable_def sample_configs_ok)
    (simp_all add: sample_config_defs no_empty_mki_def)

section \<open>Packets\<close>

definition sample_packet :: bytes where "sample_packet = plain_rtp [1, 2, 3] 7 5"
definition sample_header :: rtp_header where "sample_header = \<lparr>seq_num = 5, rtp_ssrc = 7, header_len = 12\<rparr>"
definition sample_rtcp_packet :: bytes where "sample_rtcp_packet = plain_rtcp [1, 2, 3] 7"
definition sample_rtcp_header :: rtcp_header where "sample_rtcp_header = \<lparr>rtcp_ssrc = 7\<rparr>"

lemma sample_headers:
  "rtp_header_new sample_packet = Ok sample_header" "rtcp_header_new sample_rtcp_packet = Ok sample_rtcp_header"
  by (simp_all add: sample_packet_def sample_header_def sample_rtcp_packet_def sample_rtcp_header_def
      rtp_header_of_packet rtcp_header_of_packet)

lemma sample_lengths:
  "length sample_packet = 15" "length sample_rtcp_packet = 11"
  "header_len sample_header \<le> length sample_packet" "rtcp_header_len \<le> length sample_rtcp_packet"
  "length sample_packet \<le> max_message" "length sample_rtcp_packet \<le> max_message"
  by (simp_all add: sample_packet_def sample_rtcp_packet_def sample_header_def plain_rtp_def
      plain_rtcp_def to_be_bytes16_def to_be_bytes32_def rtcp_header_len_def RTCP_MIN_SIZE_def
      max_message_def)

section \<open>Streams\<close>

definition the_ok :: "'a result \<Rightarrow> 'a" where
  "the_ok r = (case r of Ok x \<Rightarrow> x)"

definition sample_sender :: "nat send_stream" where
  "sample_sender = the_ok (send_new nat_biguint sample_crypto 7 sample_config True)"

definition sample_receiver :: "nat recv_stream" where
  "sample_receiver = the_ok (recv_new nat_biguint sample_crypto 7 sample_config True)"

lemma sample_new:
  "send_new nat_biguint sample_crypto 7 sample_config True = Ok sample_sender"
  "recv_new nat_biguint sample_crypto 7 sample_config True = Ok sample_receiver"
proof -
  have "is_gcm (sc_rtp_profile sample_config) = is_gcm (sc_rtcp_profile sample_config)"
    by (simp add: sample_config_defs)
  then show "send_new nat_biguint sample_crypto 7 sample_config True = Ok sample_sender"
    "recv_new nat_biguint sample_crypto 7 sample_config True = Ok sample_receiver"
    using base_new_outcome [OF sample_crypto_laws sample_configs_ok(1), of nat_biguint 7 True]
    by (auto simp: send_new_def recv_new_def sample_sender_def sample_receiver_def the_ok_def)
qed

lemma sample_streams_ok: "send_ok nat_biguint sample_sender" "recv_ok nat_biguint sample_receiver"
  using new_ok(1,2) [OF sample_crypto_laws sample_configs_ok(1)] sample_new by auto

lemma sample_in_step: "in_step nat_biguint sample_sender sample_receiver"
  using sample_deliverable(1)
  by (auto intro!: new_streams_in_step [OF nat_biguint_laws sample_crypto_laws _ _ _ _ sample_new]
      simp: deliverable_def)

text \<open>The one key of the sample streams.\<close>

lemma sample_entry:
  obtains t where "b_transforms (s_base sample_sender) None = Some (CmSha1 t, keys_lifetime_default)"
    "b_transforms (v_base sample_receiver) None = Some (CmSha1 t, keys_lifetime_default)"
    "b_rtp_index (s_base sample_sender) = rtp_replay_new nat_biguint 4"
    "b_rtp_index (v_base sample_receiver) = rtp_replay_new nat_biguint 4"
    "mki_aligned sample_receiver (CmSha1 t) None" "\<not> b_allow_send_repeat (s_base sample_sender)"
    "b_key_limit_handler (s_base sample_sender)" "b_ssrc (s_base sample_sender) = 7"
proof -
  let ?k = "sample_key None"
  have keys: "sc_keys sample_config = [?k]" and k: "mk_mki ?k = None" "mk_lifetime ?k = keys_lifetime_default"
    and profile: "\<not> is_gcm (sc_rtp_profile sample_config)" and size: "sc_replay_window_size sample_config = 4"
    and rep: "\<not> sc_allow_send_repeat sample_config"
    by (simp_all add: sample_config_defs)
  from sample_new(1) obtain b where b: "base_new nat_biguint sample_crypto 7 sample_config True = Ok b"
    "sample_sender = \<lparr>s_base = b, s_rtcp_index = 0\<rparr>"
    by (auto simp: send_new_def outcome_simps)
  from b(1) obtain ts where ts: "get_transforms sample_crypto sample_config = Ok ts" and
    eq: "b = \<lparr>b_ssrc = 7, b_transforms = ts, b_mki_len = 0, b_rtp_index = rtp_replay_new nat_biguint 4,
       b_key_limit_handler = True, b_allow_send_repeat = sc_allow_send_repeat sample_config\<rparr>"
    by (rule base_new_Ok) (simp add: keys k size)
  from ts obtain t where t: "new_transform sample_crypto sample_config ?k = Ok t"
    "ts None = Some (t, keys_lifetime_default)"
    by (auto simp: get_transforms_def keys k outcome_simps)
  from t(1) profile obtain t' where t': "t = CmSha1 t'"
    by (auto simp: new_transform_def outcome_simps)
  have step: "b_transforms (v_base sample_receiver) = b_transforms (s_base sample_sender)"
    "b_rtp_index (v_base sample_receiver) = b_rtp_index (s_base sample_sender)"
    "b_transforms (s_base sample_sender) m = Some (t, l) \<Longrightarrow> mki_aligned sample_receiver t m" for m t l
    using sample_in_step by (simp_all add: in_step_def)
  have sb: "s_base sample_sender = b"
    by (simp add: b(2))
  have entry: "b_transforms (s_base sample_sender) None = Some (CmSha1 t', keys_lifetime_default)"
    using t(2) by (simp add: sb eq t')
  show thesis
    by (rule that [OF entry]) (simp_all add: step(1,2) step(3) [OF entry] entry, simp_all add: sb eq rep)
qed

lemma sample_sends:
  obtains s' calls q where "send_rtp_protect nat_biguint sample_crypto sample_header sample_packet None sample_sender = (s', calls, Ok q)"
    "in_step nat_biguint s' (fst (recv_rtp_unprotect nat_biguint sample_crypto sample_header q sample_receiver))"
    "snd (snd (recv_rtp_unprotect nat_biguint sample_crypto sample_header q sample_receiver)) = Ok sample_packet"
proof -
  obtain t where entry: "b_transforms (s_base sample_sender) None = Some (CmSha1 t, keys_lifetime_default)"
    and db: "b_rtp_index (s_base sample_sender) = rtp_replay_new nat_biguint 4"
    by (rule sample_entry)
  have alive: "0 < lives_left (s_base sample_sender) True None"
    using entry by (simp add: lives_left_def keys_lifetime_default_def MAX_RTP_SESSION_KEY_LIVES_def)
  have "\<not> rtp_seen_index nat_biguint (rtp_replay_new nat_biguint 4)
      (rtp_estimate_index (rtp_replay_new nat_biguint 4) (seq_num sample_header))"
    by (simp add: rtp_seen_index_def rtp_estimate_index_def rtp_replay_new_def sample_header_def Let_def
        MAX_SEQ_NUM_STEP_def)
  then obtain s' calls q where run: "send_rtp_protect nat_biguint sample_crypto sample_header sample_packet None sample_sender = (s', calls, Ok q)"
    using send_rtp_total [OF sample_crypto_laws sample_streams_ok(1) entry alive sample_lengths(3,5)]
    by (auto simp: db)
  from rtp_lockstep [OF sample_crypto_laws sample_in_step sample_headers(1) run] run show thesis
    by (auto intro: that)
qed

lemma sample_sends_rtcp:
  obtains s' calls q where "send_rtcp_protect sample_crypto sample_rtcp_header sample_rtcp_packet None sample_sender = (s', calls, Ok q)"
    "snd (snd (recv_rtcp_unprotect nat_biguint sample_crypto sample_rtcp_header q sample_receiver)) = Ok sample_rtcp_packet"
proof -
  obtain t where entry: "b_transforms (s_base sample_sender) None = Some (CmSha1 t, keys_lifetime_default)"
    by (rule sample_entry)
  have alive: "0 < lives_left (s_base sample_sender) False None"
    using entry by (simp add: lives_left_def keys_lifetime_default_def MAX_RTCP_SESSION_KEY_LIVES_def)
  from send_rtcp_total [OF sample_crypto_laws sample_streams_ok(1) entry alive sample_lengths(4,6)]
  obtain s' calls q where run: "send_rtcp_protect sample_crypto sample_rtcp_header sample_rtcp_packet None sample_sender = (s', calls, Ok q)"
    by blast
  from rtcp_lockstep [OF sample_crypto_laws sample_in_step sample_headers(2) run] run show thesis
    by (auto intro: that)
qed

text \<open>Runs of one packet.\<close>

lemma sample_index: "rtp_estimate_index (rtp_replay_new nat_biguint 4) (seq_num sample_header) = 5"
  by (simp add: rtp_estimate_index_def rtp_replay_new_def sample_header_def Let_def MAX_SEQ_NUM_STEP_def)

lemma sample_no_repeat: "\<not> b_allow_send_repeat (s_base sample_sender)"
  by (rule sample_entry)

lemma sample_send_run:
  "\<exists>s'. send_run nat_biguint sample_crypto sample_sender [RtpSent None sample_header 5] s'"
proof -
  obtain s' calls q where run: "send_rtp_protect nat_biguint sample_crypto sample_header sample_packet None sample_sender = (s', calls, Ok q)"
    by (rule sample_sends)
  obtain t where "b_rtp_index (s_base sample_sender) = rtp_replay_new nat_biguint 4"
    by (rule sample_entry)
  with send_run_cons [OF rtp_sent [OF run] send_run_nil] sample_index show ?thesis
    by auto
qed

lemma sample_rtcp_run:
  "\<exists>s'. send_run nat_biguint sample_crypto sample_sender [RtcpSent None sample_rtcp_header (s_rtcp_index sample_sender)] s'"
proof -
  obtain s' calls q where "send_rtcp_protect sample_crypto sample_rtcp_header sample_rtcp_packet None sample_sender = (s', calls, Ok q)"
    by (rule sample_sends_rtcp)
  from send_run_cons [OF rtcp_sent [OF this] send_run_nil] show ?thesis
    by blast
qed

lemma sample_recv_run:
  "\<exists>m i v'. recv_run nat_biguint sample_crypto sample_receiver [RtpAccepted m i sample_packet] v'"
proof -
  obtain s' calls q where "snd (snd (recv_rtp_unprotect nat_biguint sample_crypto sample_header q sample_receiver)) = Ok sample_packet"
    by (rule sample_sends)
  then obtain v' calls' where run: "recv_rtp_unprotect nat_biguint sample_crypto sample_header q sample_receiver = (v', calls', Ok sample_packet)"
    by (metis prod.collapse)
  obtain m where "recv_get_mki sample_receiver q (header_len sample_header) True = Ok m"
    using recv_rtp_unprotect_Ok [OF run] by metis
  from recv_run_cons [OF rtp_accepted [OF run this] recv_run_nil] show ?thesis
    by blast
qed

definition sample_gcm :: aes_gcm where
  "sample_gcm = \<lparr>gcm_rtp_profile = AeadAes128Gcm, gcm_rtcp_profile = AeadAes128Gcm,
    gcm_rtp_key = \<lparr>gk_key = replicate 16 1, gk_salt = replicate 12 2\<rparr>,
    gcm_rtcp_key = \<lparr>gk_key = replicate 16 3, gk_salt = replicate 12 4\<rparr>, gcm_mki = Some [9]\<rparr>"

definition sample_cm :: aes_cm_sha1 where
  "sample_cm = \<lparr>cm_rtp_profile = Aes128CmHmacSha132, cm_rtcp_profile = Aes128CmHmacSha180,
    cm_rtp_key = \<lparr>ck_key = Some (replicate 16 1), ck_salt = Some (replicate 14 2), ck_auth_key = Some (replicate 20 3)\<rparr>,
    cm_rtcp_key = \<lparr>ck_key = Some (replicate 16 4), ck_salt = Some (replicate 14 5), ck_auth_key = Some (replicate 20 6)\<rparr>,
    cm_mki = Some [9]\<rparr>"

lemma sample_transforms_ok: "gcm_ok sample_gcm" "cm_ok sample_cm"
  by (simp_all add: sample_gcm_def gcm_ok_def sample_cm_def cm_ok_def cm_keys_ok_def)

lemma sample_transforms:
  obtains ts where "get_transforms sample_crypto sample_config = Ok ts"
    "b_transforms (s_base sample_sender) = ts" "b_mki_len (s_base sample_sender) = 0"
proof -
  from sample_new(1) obtain b where b: "base_new nat_biguint sample_crypto 7 sample_config True = Ok b"
    "sample_sender = \<lparr>s_base = b, s_rtcp_index = 0\<rparr>"
    by (auto simp: send_new_def outcome_simps)
  have "hd (sc_keys sample_config) = sample_key None" "mk_mki (sample_key None) = None"
    by (simp_all add: sample_config_defs)
  with b base_new_Ok [OF b(1)] that show thesis
    by (metis base_stream.select_convs(2,3) list.size(3) mki_bytes_Some(2) send_stream.select_convs(1))
qed

section \<open>Keys near their end\<close>

text \<open>The sample sender with a key that has \<open>n\<close> lives left for RTP.\<close>

definition sample_short_lived :: "u64 \<Rightarrow> nat send_stream" where
  "sample_short_lived n = sample_sender\<lparr>s_base := with_lives (s_base sample_sender) None
     (fst (the (b_transforms (s_base sample_sender) None)))
     (keys_lifetime_default\<lparr>l_rtp := n, l_rtp_limit := 1\<rparr>)\<rparr>"

lemma sample_short_lived:
  assumes "n \<le> 1"
  shows "send_ok nat_biguint (sample_short_lived n)" "lives_left (s_base (sample_short_lived n)) True None = unat n"
    "\<exists>t. b_transforms (s_base (sample_short_lived n)) None =
       Some (CmSha1 t, keys_lifetime_default\<lparr>l_rtp := n, l_rtp_limit := 1\<rparr>)"
    "b_rtp_index (s_base (sample_short_lived n)) = rtp_replay_new nat_biguint 4"
    "b_key_limit_handler (s_base (sample_short_lived n))" "b_ssrc (s_base (sample_short_lived n)) = 7"
proof -
  obtain t where t: "b_transforms (s_base sample_sender) None = Some (CmSha1 t, keys_lifetime_default)"
    "b_rtp_index (s_base sample_sender) = rtp_replay_new nat_biguint 4"
    "b_key_limit_handler (s_base sample_sender)" "b_ssrc (s_base sample_sender) = 7"
    by (rule sample_entry)
  let ?l = "keys_lifetime_default\<lparr>l_rtp := n, l_rtp_limit := 1\<rparr>"
  have "n \<le> MAX_RTP_SESSION_KEY_LIVES"
    by (rule order_trans [OF assms]) (simp add: MAX_RTP_SESSION_KEY_LIVES_def)
  then have "lifetime_ok ?l"
    using lifetime_ok_default by (simp add: lifetime_ok_def)
  with base_ok_lives [OF _ t(1), of nat_biguint ?l] sample_streams_ok(1)
  show "send_ok nat_biguint (sample_short_lived n)"
    by (simp add: sample_short_lived_def t send_ok_def)
  show "lives_left (s_base (sample_short_lived n)) True None = unat n"
    "\<exists>t. b_transforms (s_base (sample_short_lived n)) None = Some (CmSha1 t, ?l)"
    "b_rtp_index (s_base (sample_short_lived n)) = rtp_replay_new nat_biguint 4"
    "b_key_limit_handler (s_base (sample_short_lived n))" "b_ssrc (s_base (sample_short_lived n)) = 7"
    by (simp_all add: sample_short_lived_def t lives_left_def with_lives_def)
qed

lemma sample_unseen:
  "\<not> rtp_seen_index nat_biguint (rtp_replay_new nat_biguint 4)
    (rtp_estimate_index (rtp_replay_new nat_biguint 4) (seq_num sample_header))"
  unfolding sample_index by (simp add: rtp_seen_index_def rtp_replay_new_def)

lemma sample_last_life:
  "\<exists>s' calls q. send_rtp_protect nat_biguint sample_crypto sample_header sample_packet None (sample_short_lived 1) =
     (s', calls, Ok q) \<and> lives_left (s_base s') True None = 0"
proof -
  note short = sample_short_lived [of 1, OF order_refl]
  obtain t where t: "b_transforms (s_base (sample_short_lived 1)) None =
      Some (CmSha1 t, keys_lifetime_default\<lparr>l_rtp := 1, l_rtp_limit := 1\<rparr>)"
    using short(3) by blast
  have "0 < lives_left (s_base (sample_short_lived 1)) True None"
    using short(2) by simp
  from send_rtp_total [OF sample_crypto_laws short(1) t this sample_lengths(3,5)] sample_unseen
  obtain s' calls q where run: "send_rtp_protect nat_biguint sample_crypto sample_header sample_packet None (sample_short_lived 1) =
      (s', calls, Ok q)"
    by (auto simp: short(4))
  then have "lives_left (s_base s') True None = 0"
  proof (rule send_rtp_protect_Ok)
    fix t' l l' i
    assume "b_transforms (s_base (sample_short_lived 1)) None = Some (t', l)" "decrease_rtp l = Ok l'"
      "s' = sample_short_lived 1\<lparr>s_base := with_index nat_biguint (with_lives (s_base (sample_short_lived 1)) None t' l') i\<rparr>"
    then show ?thesis
      using decrease_rtp_Ok(1) [of l l'] by (auto simp: t lives_left_def with_index_def)
  qed
  with run show ?thesis by blast
qed

text \<open>A session whose template has no lives.\<close>

definition sample_dead_config :: stream_config where
  "sample_dead_config = fst (sc_set_keys_lifetime sample_config 0 0 0 0)"

definition sample_dead_session :: "nat send_session" where
  "sample_dead_session =
     fst (add_stream (send_ops nat_biguint sample_crypto) [] (\<lambda>_. []) None sample_dead_config session_new)"

lemma sample_dead_reachable: "send_reachable nat_biguint sample_crypto sample_dead_session"
proof -
  have "config_lives_ok sample_dead_config"
    by (simp add: config_lives_ok_def sample_dead_config_def sc_set_keys_lifetime_def set_lives_loop_eq
        lives_accepted_def lifetime_ok_def sample_config_defs)
  then show ?thesis
    unfolding sample_dead_session_def by (rule send_add [OF send_start])
qed

text \<open>One that reports to a handler as well.\<close>

lemma handler_new: "fst (set_key_limit_handler session_new) = session_new\<lparr>key_limit_handler := True\<rparr>"
  by (simp add: set_key_limit_handler_def session_new_def)

definition sample_reporting_session :: "nat send_session" where
  "sample_reporting_session =
     fst (add_stream (send_ops nat_biguint sample_crypto) [] (\<lambda>_. []) None sample_dead_config
       (session_new\<lparr>key_limit_handler := True\<rparr>))"

lemma sample_reporting_stream:
  obtains t where "stream_for (send_ops nat_biguint sample_crypto) 7 sample_reporting_session = Some t"
    "b_transforms (s_base t) None \<noteq> None" "lives_left (s_base t) True None = 0"
    "\<not> rtp_seen_index nat_biguint (b_rtp_index (s_base t)) (rtp_estimate_index (b_rtp_index (s_base t)) 5)"
    "dead_reports (s_base t) True None = [KeyLimit True True None 7]" "b_ssrc (s_base t) = 7"
proof -
  have "case stream_for (send_ops nat_biguint sample_crypto) 7 sample_reporting_session of None \<Rightarrow> False
    | Some t \<Rightarrow> \<not> Option.is_none (b_transforms (s_base t) None) \<and> lives_left (s_base t) True None = 0 \<and>
        \<not> rtp_seen_index nat_biguint (b_rtp_index (s_base t)) (rtp_estimate_index (b_rtp_index (s_base t)) 5) \<and>
        dead_reports (s_base t) True None = [KeyLimit True True None 7] \<and> b_ssrc (s_base t) = 7"
    by code_simp
  then show thesis
    by (auto simp: Option.is_none_def split: option.splits intro: that)
qed

text \<open>One that may repeat packets.\<close>

definition sample_repeating_session :: "nat send_session" where
  "sample_repeating_session =
     fst (add_stream (send_ops nat_biguint sample_crypto) [] (\<lambda>_. []) None (sc_set_allow_send_repeat sample_config True)
       session_new)"

lemma sample_repeating_stream:
  obtains t where "stream_for (send_ops nat_biguint sample_crypto) 7 sample_repeating_session = Some t"
    "b_allow_send_repeat (s_base t)" "Option.is_none (pending_roc (b_rtp_index (s_base t)))"
    "rtp_estimate_index (b_rtp_index (s_base t)) 5 = 5"
proof -
  have "case stream_for (send_ops nat_biguint sample_crypto) 7 sample_repeating_session of None \<Rightarrow> False
    | Some t \<Rightarrow> b_allow_send_repeat (s_base t) \<and> Option.is_none (pending_roc (b_rtp_index (s_base t))) \<and>
        rtp_estimate_index (b_rtp_index (s_base t)) 5 = 5"
    by code_simp
  then show thesis
    by (auto split: option.splits intro: that)
qed

section \<open>Sessions and the calls they get\<close>

definition sample_send_session :: "nat send_session" where
  "sample_send_session =
     fst (add_stream (send_ops nat_biguint sample_crypto) [] (\<lambda>_. []) None sample_config session_new)"

definition sample_recv_session :: "nat recv_session" where
  "sample_recv_session =
     fst (add_stream (recv_ops nat_biguint sample_crypto) [] (\<lambda>_. []) None sample_config session_new)"

text \<open>A receiver with a stream for one SSRC.\<close>

definition sample_joiner :: "nat recv_session" where
  "sample_joiner =
     fst (add_stream (recv_ops nat_biguint sample_crypto) [] (\<lambda>_. []) (Some 7) sample_config
       (session_new\<lparr>key_limit_handler := True\<rparr>))"

lemma sample_joiner_stream: "streams sample_joiner 7 = Some (sample_receiver, False)"
proof -
  have "validate sample_config = Ok ()" by (simp add: validate_iff sample_configs_valid)
  then show ?thesis
    using sample_new(2) by (simp add: sample_joiner_def add_stream_def session_new_def recv_ops_def)
qed

lemma sample_joiner_reachable: "recv_reachable nat_biguint sample_crypto sample_joiner"
  using recv_add [OF recv_handler [OF recv_start] sample_lives_ok]
  unfolding sample_joiner_def handler_new by blast

text \<open>The sample packet as the sender protects it, and packets of two SSRCs, one of them sent twice.\<close>

definition sample_cipher :: bytes where
  "sample_cipher = the_ok (snd (snd (rtp_protect_mki nat_biguint sample_crypto sample_packet None sample_send_session)))"

definition sample_calls :: "outgoing list" where
  "sample_calls = [OutRtp sample_packet None, OutRtp sample_packet None, OutRtp (plain_rtp [1, 2, 3] 8 5) None]"

lemma sample_recv_session_reachable: "recv_reachable nat_biguint sample_crypto sample_recv_session"
  unfolding sample_recv_session_def by (rule recv_add [OF recv_start sample_lives_ok])

lemma sample_send_session_strict: "strict_session nat_biguint sample_crypto sample_send_session"
  unfolding sample_send_session_def
  by (rule strict_add_stream [OF strict_session_new sample_crypto_laws sample_lives_ok])
    (simp add: sample_config_defs)

lemma sample_rtp_sends:
  "rtp_sends nat_biguint sample_crypto sample_calls sample_send_session =
     [(sample_header, 5), (sample_header\<lparr>rtp_ssrc := 8\<rparr>, 5)]"
  by code_simp

end
