(* ===== verification/Srtp_Boundaries.thy ===== *)
theory Srtp_Boundaries
  imports Srtp_Samples
begin

text \<open>
  Behaviour at the edges of the code that a reader may not expect, each stated as the code has it:
  updates of a receiver, empty identifiers, the flag of an SRTCP packet, the end of the index space
  and of a key's lifetime.
\<close>

section \<open>Updates\<close>

text \<open>
  \<^verbatim>\<open>RecvStream::update\<close> keeps the lengths of the tags, which place the MKI, at those of the first
  configuration.
\<close>

lemma recv_update_tag_lens:
  "recv_update B C order cfg v = (v', r) \<Longrightarrow> v_rtp_tag_len v' = v_rtp_tag_len v \<and> v_rtcp_tag_len v' = v_rtcp_tag_len v"
  by (auto simp: recv_update_def split: prod.splits result.splits)

text \<open>So a key of another profile, added to both sides, does not reach the receiver.\<close>

definition sample_long_tag :: stream_config where
  "sample_long_tag = sc_set_replay_window_size
     (stream_config_new [sample_key (Some [1])] Aes128CmHmacSha180 Aes128CmHmacSha180) 4"

definition sample_short_tag :: stream_config where
  "sample_short_tag = sc_set_replay_window_size
     (stream_config_new [sample_key (Some [2])] Aes128CmHmacSha132 Aes128CmHmacSha180) 4"

definition sample_updated :: "nat send_stream \<times> nat recv_stream" where
  "sample_updated =
     (fst (send_update nat_biguint sample_crypto [Some [2]] sample_short_tag
        (the_ok (send_new nat_biguint sample_crypto 7 sample_long_tag False))),
      fst (recv_update nat_biguint sample_crypto [Some [2]] sample_short_tag
        (the_ok (recv_new nat_biguint sample_crypto 7 sample_long_tag False))))"

lemma update_misses_mki:
  "case send_rtp_protect nat_biguint sample_crypto sample_header (plain_rtp (replicate 10 3) 7 5) (Some [2])
       (fst sample_updated) of
     (_, _, Ok q) \<Rightarrow> snd (snd (recv_rtp_unprotect nat_biguint sample_crypto sample_header q (snd sample_updated))) = Err InvalidMki
   | _ \<Rightarrow> False"
  by code_simp

text \<open>An update that fails may have merged some of its keys.\<close>

lemma failed_update_merges:
  assumes "get_transforms C cfg = Ok new" "sc_keys cfg \<noteq> []" "mki_policy (b_mki_len s) (mk_mki (hd (sc_keys cfg))) = Ok ()"
    and "new m = Some x" "b_transforms s m = None"
    and "new m' = Some (t, l)" "b_transforms s m' = Some (t', l')" "t \<noteq> t'"
  shows "base_update B C [m, m'] cfg s = (s\<lparr>b_transforms := (b_transforms s)(m \<mapsto> x)\<rparr>, Err InvalidProfile)"
  using assms
  by (cases x) (auto simp: base_update_def hd_conv_nth transform_equals_iff)

section \<open>An empty MKI\<close>

text \<open>
  \<^verbatim>\<open>validate\<close> accepts an empty MKI, even beside longer ones when it is the first; a receiver with it
  reads every packet as one without MKI, and so finds no key.
\<close>

lemma validate_empty_mki:
  "validate (stream_config_new [sample_key (Some []), sample_key (Some [1, 2])] Aes128CmHmacSha180 Aes128CmHmacSha180) =
     Ok ()"
  by code_simp

lemma empty_mki_stream:
  assumes "recv_new B C ssrc cfg h = Ok v" "mk_mki (hd (sc_keys cfg)) = Some []" "None \<notin> mk_mki ` set (sc_keys cfg)"
  shows "recv_get_mki v c n is_rtp = Ok None" "b_transforms (v_base v) None = None"
proof -
  from assms(1) obtain b where b: "base_new B C ssrc cfg h = Ok b" "v_base v = b"
    by (auto simp: recv_new_def outcome_simps)
  from b(1) obtain ts where ts: "get_transforms C cfg = Ok ts" "b_transforms b = ts"
    "b_mki_len b = length (mki_bytes (mk_mki (hd (sc_keys cfg))))"
    by (rule base_new_Ok) auto
  show "recv_get_mki v c n is_rtp = Ok None"
    by (simp add: recv_get_mki_def base_get_mki_len_def b(2) ts(3) assms(2))
  show "b_transforms (v_base v) None = None"
    using get_transforms_dom [OF ts(1)] assms(3) by (auto simp: b(2) ts(2) domIff)
qed

lemma empty_mki_deaf:
  assumes "recv_new B C ssrc cfg h = Ok v" "mk_mki (hd (sc_keys cfg)) = Some []" "None \<notin> mk_mki ` set (sc_keys cfg)"
  shows "snd (snd (recv_rtp_unprotect B C hd1 c v)) \<in> {Err InvalidMki, Err InvalidPacketIndex}"
    and "snd (snd (recv_rtcp_unprotect B C hd2 c v)) \<in> {Err InvalidMki, Err InvalidPacketIndex, Err InvalidPacket}"
  using empty_mki_stream [OF assms]
  by (simp_all add: recv_rtp_unprotect_def recv_rtcp_unprotect_eq check_key_limit_def Let_def)

section \<open>The E flag\<close>

text \<open>
  AES-GCM: the word with the E flag is not looked at, once the index is read from it; a packet whose
  flag was flipped on the way is accepted like the one that was sent.
\<close>

lemma gcm_rtcp_flag_ignored:
  assumes "trailer_len \<le> length c" "i \<ge> length c - trailer_len"
  shows "gcm_rtcp_unprotect C t (c[i := b]) h index trailer_len = gcm_rtcp_unprotect C t c h index trailer_len"
  using assms by (simp add: gcm_rtcp_unprotect_def vec_truncate_def)

section \<open>The end of the index space\<close>

text \<open>The index after \<open>2^48 - 1\<close> is \<open>2^48\<close>, whose ROC is truncated to 0.\<close>

lemma roc_wraps:
  assumes "pending_roc db = None" "r_index db = 0xFFFFFFFFFFFF"
  shows "rtp_estimate_index db 0 = 0x1000000000000"
    and "(ucast (drop_bit 16 (0x1000000000000 :: u64)) :: u32) = 0"
  using assms by (simp_all add: rtp_estimate_index_def MAX_SEQ_NUM_STEP_def Let_def)

section \<open>The end of a key\<close>

text \<open>
  The call that spends the last life of a key succeeds, and so leaves every other stream, and the
  template, with the lives they have.
\<close>

lemma on_stream_Ok_others:
  assumes "on_stream ops ssrc f s = (s', calls, Ok q)"
  shows "template_config s' = template_config s" "x \<noteq> ssrc \<Longrightarrow> streams s' x = streams s x"
  using assms
  by (auto simp: on_stream_def get_stream_def Let_def split: option.splits result.splits prod.splits)

lemma last_life_is_silent:
  assumes "rtp_protect_mki B C p m s = (s', calls, Ok q)" "rtp_header_new p = Ok h"
  shows "template_config s' = template_config s" "x \<noteq> rtp_ssrc h \<Longrightarrow> streams s' x = streams s x"
  using assms by (auto simp: rtp_protect_mki_def dest: on_stream_Ok_others)

end
