(* ===== verification/Srtp_Transmission.thy ===== *)
theory Srtp_Transmission
  imports Srtp_Session_Delivery
begin

text \<open>
  A whole transmission, in which the sender goes on after the packets it refuses. A refusal for a dead key
  takes the key from the sender's template and not from the receiver's; the sender is then simulated by one
  that still has the lives, with which the receiver is in lockstep.
\<close>

section \<open>Fewer lives\<close>

definition lives_le :: "keys_lifetime \<Rightarrow> keys_lifetime \<Rightarrow> bool" where
  "lives_le l l' \<longleftrightarrow> l_rtp l \<le> l_rtp l' \<and> l_rtcp l \<le> l_rtcp l'"

definition transforms_le :: "transforms \<Rightarrow> transforms \<Rightarrow> bool" where
  "transforms_le ts ts' \<longleftrightarrow> (\<forall>m. rel_option (rel_prod (=) lives_le) (ts m) (ts' m))"

definition send_le :: "'b send_stream \<Rightarrow> 'b send_stream \<Rightarrow> bool" where
  "send_le s s' \<longleftrightarrow>
     (\<exists>ts. s' = s\<lparr>s_base := (s_base s)\<lparr>b_transforms := ts\<rparr>\<rparr> \<and> transforms_le (b_transforms (s_base s)) ts)"

definition key_le :: "master_key \<Rightarrow> master_key \<Rightarrow> bool" where
  "key_le k k' \<longleftrightarrow> (\<exists>l. k' = k\<lparr>mk_lifetime := l\<rparr> \<and> lives_le (mk_lifetime k) l)"

definition config_le :: "stream_config \<Rightarrow> stream_config \<Rightarrow> bool" where
  "config_le cfg cfg' \<longleftrightarrow> (\<exists>ks. cfg' = cfg\<lparr>sc_keys := ks\<rparr> \<and> list_all2 key_le (sc_keys cfg) ks)"

definition session_le :: "'b send_session \<Rightarrow> 'b send_session \<Rightarrow> bool" where
  "session_le s s' \<longleftrightarrow>
     (\<forall>ssrc. rel_option (rel_prod send_le (=)) (streams s ssrc) (streams s' ssrc)) \<and>
     rel_option config_le (template_config s) (template_config s') \<and> key_limit_handler s' = key_limit_handler s"

lemma lives_le_refl [simp]: "lives_le l l"
  by (simp add: lives_le_def)

lemma transforms_le_refl [simp]: "transforms_le ts ts"
  by (auto simp: transforms_le_def intro!: option.rel_refl prod.rel_refl)

lemma send_le_refl [simp]: "send_le s s"
  unfolding send_le_def by (rule exI [of _ "b_transforms (s_base s)"]) simp

lemma key_le_refl [simp]: "key_le k k"
  unfolding key_le_def by (rule exI [of _ "mk_lifetime k"]) simp

lemma config_le_refl [simp]: "config_le cfg cfg"
  unfolding config_le_def by (rule exI [of _ "sc_keys cfg"]) (simp add: list_all2_refl)

lemma session_le_refl: "session_le s s"
  by (auto simp: session_le_def intro!: option.rel_refl prod.rel_refl)

lemma transforms_le_entry:
  assumes "transforms_le ts ts'" "ts m = Some (t, l)"
  obtains l' where "ts' m = Some (t, l')" "lives_le l l'"
proof -
  have "rel_option (rel_prod (=) lives_le) (ts m) (ts' m)" using assms(1) by (simp add: transforms_le_def)
  then show thesis using assms(2) that by (auto simp: option_rel_Some1)
qed

lemma transforms_le_upd:
  "transforms_le ts ts' \<Longrightarrow> lives_le l l' \<Longrightarrow> transforms_le (ts(m \<mapsto> (t, l))) (ts'(m \<mapsto> (t, l')))"
  by (simp add: transforms_le_def)

lemma decrease_le:
  assumes "lives_le l l'"
  shows "decrease_rtp l = Ok k \<Longrightarrow> \<exists>k'. decrease_rtp l' = Ok k' \<and> lives_le k k'"
    "decrease_rtcp l = Ok k \<Longrightarrow> \<exists>k'. decrease_rtcp l' = Ok k' \<and> lives_le k k'"
proof -
  have le: "unat (l_rtp l) \<le> unat (l_rtp l')" "unat (l_rtcp l) \<le> unat (l_rtcp l')"
    using assms by (simp_all add: lives_le_def word_le_nat_alt)
  show "\<exists>k'. decrease_rtp l' = Ok k' \<and> lives_le k k'" if "decrease_rtp l = Ok k"
    using that le
    by (auto simp: decrease_rtp_def lives_le_def Let_def word_le_nat_alt unat_pred unat_eq_zero
        simp flip: unat_eq_zero split: if_splits)
  show "\<exists>k'. decrease_rtcp l' = Ok k' \<and> lives_le k k'" if "decrease_rtcp l = Ok k"
    using that le
    by (auto simp: decrease_rtcp_def lives_le_def Let_def word_le_nat_alt unat_pred unat_eq_zero
        simp flip: unat_eq_zero split: if_splits)
qed

section \<open>The simulation\<close>

lemma send_rtp_le:
  assumes le: "send_le s s'" and run: "send_rtp_protect B C h p m s = (s1, calls, Ok q)"
  shows "\<exists>s1' calls'. send_rtp_protect B C h p m s' = (s1', calls', Ok q) \<and> send_le s1 s1'"
  using run
proof (rule send_rtp_protect_Ok)
  fix t l k i
  assume step: "b_transforms (s_base s) m = Some (t, l)" "i = rtp_estimate_index (b_rtp_index (s_base s)) (seq_num h)"
    "b_allow_send_repeat (s_base s) \<or> \<not> rtp_seen_index B (b_rtp_index (s_base s)) i"
    "transform_rtp_protect C t p h (ucast (drop_bit 16 i)) = Ok q" "decrease_rtp l = Ok k"
    "s1 = s\<lparr>s_base := with_index B (with_lives (s_base s) m t k) i\<rparr>"
  from le obtain ts where s': "s' = s\<lparr>s_base := (s_base s)\<lparr>b_transforms := ts\<rparr>\<rparr>" and ts: "transforms_le (b_transforms (s_base s)) ts"
    by (auto simp: send_le_def)
  obtain l' where l': "ts m = Some (t, l')" "lives_le l l'"
    by (rule transforms_le_entry [OF ts step(1)])
  obtain k' where k': "decrease_rtp l' = Ok k'" "lives_le k k'"
    using decrease_le(1) [OF l'(2) step(5)] by blast
  have "l_rtp l' \<noteq> 0" using k'(1) by (metis decrease_Panic_iff(1) result.distinct(3))
  then have limit: "snd (check_key_limit (s_base s') True m) = Ok ()"
    using l'(1) by (simp add: check_key_limit_Ok_iff lives_left_def unat_gt_0 s')
  let ?s1 = "s'\<lparr>s_base := with_index B (with_lives (s_base s') m t k') i\<rparr>"
  have "\<exists>calls'. send_rtp_protect B C h p m s' = (?s1, calls', Ok q)"
    using limit l'(1) k'(1) step(2-4)
    by (auto simp: send_rtp_protect_def Let_def split_beta s' with_index_def with_lives_def)
  moreover have "send_le s1 ?s1"
    unfolding send_le_def
    by (rule exI [of _ "ts(m \<mapsto> (t, k'))"])
      (simp add: step(6) s' with_index_def with_lives_def transforms_le_upd [OF ts k'(2)])
  ultimately show ?thesis by blast
qed

lemma send_rtcp_le:
  assumes le: "send_le s s'" and run: "send_rtcp_protect C h p m s = (s1, calls, Ok q)"
  shows "\<exists>s1' calls'. send_rtcp_protect C h p m s' = (s1', calls', Ok q) \<and> send_le s1 s1'"
  using run
proof (rule send_rtcp_protect_Ok)
  fix t l k
  assume step: "b_transforms (s_base s) m = Some (t, l)" "transform_rtcp_protect C t p h (s_rtcp_index s) = Ok q"
    "decrease_rtcp l = Ok k"
    "s1 = s\<lparr>s_base := with_lives (s_base s) m t k, s_rtcp_index := (s_rtcp_index s + 1) AND 0x7fffffff\<rparr>"
  from le obtain ts where s': "s' = s\<lparr>s_base := (s_base s)\<lparr>b_transforms := ts\<rparr>\<rparr>" and ts: "transforms_le (b_transforms (s_base s)) ts"
    by (auto simp: send_le_def)
  obtain l' where l': "ts m = Some (t, l')" "lives_le l l'"
    by (rule transforms_le_entry [OF ts step(1)])
  obtain k' where k': "decrease_rtcp l' = Ok k'" "lives_le k k'"
    using decrease_le(2) [OF l'(2) step(3)] by blast
  have "l_rtcp l' \<noteq> 0" using k'(1) by (metis decrease_Panic_iff(2) result.distinct(3))
  then have limit: "snd (check_key_limit (s_base s') False m) = Ok ()"
    using l'(1) by (simp add: check_key_limit_Ok_iff lives_left_def unat_gt_0 s')
  let ?s1 = "s'\<lparr>s_base := with_lives (s_base s') m t k', s_rtcp_index := (s_rtcp_index s' + 1) AND 0x7fffffff\<rparr>"
  have "\<exists>calls'. send_rtcp_protect C h p m s' = (?s1, calls', Ok q)"
    using limit l'(1) k'(1) step(2)
    by (auto simp: send_rtcp_protect_def Let_def split_beta s' with_lives_def)
  moreover have "send_le s1 ?s1"
    unfolding send_le_def
    by (rule exI [of _ "ts(m \<mapsto> (t, k'))"])
      (simp add: step(4) s' with_lives_def transforms_le_upd [OF ts k'(2)])
  ultimately show ?thesis by blast
qed

lemma insert_transforms_le:
  assumes "\<And>k k'. k \<in> set ks \<Longrightarrow> key_le k k' \<Longrightarrow> new' k' = new k"
  shows "list_all2 key_le ks ks' \<Longrightarrow> transforms_le ts ts' \<Longrightarrow> insert_transforms new ks ts = Ok out \<Longrightarrow>
    \<exists>out'. insert_transforms new' ks' ts' = Ok out' \<and> transforms_le out out'"
  using assms
proof (induction ks arbitrary: ks' ts ts')
  case Nil
  then show ?case by simp
next
  case (Cons k ks)
  from Cons.prems(1) obtain k' ks1 where ks': "ks' = k' # ks1" and k: "key_le k k'" and ks1: "list_all2 key_le ks ks1"
    by (auto simp: list_all2_Cons1)
  from Cons.prems(3) obtain t where t: "new k = Ok t"
    and rest: "insert_transforms new ks (ts(mk_mki k \<mapsto> (t, mk_lifetime k))) = Ok out"
    by (auto simp: outcome_simps)
  have same: "mk_mki k' = mk_mki k" "lives_le (mk_lifetime k) (mk_lifetime k')"
    using k by (auto simp: key_le_def)
  have "\<exists>out'. insert_transforms new' ks1 (ts'(mk_mki k' \<mapsto> (t, mk_lifetime k'))) = Ok out' \<and> transforms_le out out'"
    unfolding same(1)
    by (rule Cons.IH [OF ks1 transforms_le_upd [OF Cons.prems(2) same(2)] rest]) (simp add: Cons.prems(4))
  then show ?case
    using Cons.prems(4) [of k k'] k t by (simp add: ks')
qed

lemma send_new_le:
  assumes le: "config_le cfg cfg'" and new: "send_new B C ssrc cfg h = Ok stream"
  shows "\<exists>stream'. send_new B C ssrc cfg' h = Ok stream' \<and> send_le stream stream'"
proof -
  from le obtain ks where cfg': "cfg' = cfg\<lparr>sc_keys := ks\<rparr>" and keys: "list_all2 key_le (sc_keys cfg) ks"
    by (auto simp: config_le_def)
  from new obtain b where b: "base_new B C ssrc cfg h = Ok b" "stream = \<lparr>s_base = b, s_rtcp_index = 0\<rparr>"
    by (auto simp: send_new_def outcome_simps)
  from b(1) obtain ts k where ts: "get_transforms C cfg = Ok ts" and k: "slice_at (sc_keys cfg) 0 = Ok k"
    and b_eq: "b = \<lparr>b_ssrc = ssrc, b_transforms = ts, b_mki_len = (case mk_mki k of None \<Rightarrow> 0 | Some m \<Rightarrow> length m),
         b_rtp_index = rtp_replay_new B (sc_replay_window_size cfg),
         b_key_limit_handler = h, b_allow_send_repeat = sc_allow_send_repeat cfg\<rparr>"
    by (auto simp: base_new_def outcome_simps)
  have tr: "new_transform C cfg' k' = new_transform C cfg k" if "key_le k k'" for k k'
    using that by (auto simp: new_transform_def key_le_def cfg')
  obtain ts' where ts': "get_transforms C cfg' = Ok ts'" "transforms_le ts ts'"
    using insert_transforms_le [of "sc_keys cfg" "new_transform C cfg'" "new_transform C cfg", OF tr keys
        transforms_le_refl ts [unfolded get_transforms_def]]
    by (auto simp: get_transforms_def cfg')
  obtain k' where k': "slice_at (sc_keys cfg') 0 = Ok k'" "mk_mki k' = mk_mki k"
    using k keys by (cases "sc_keys cfg"; cases ks) (auto simp: slice_at_def key_le_def cfg')
  have "send_new B C ssrc cfg' h = Ok (stream\<lparr>s_base := (s_base stream)\<lparr>b_transforms := ts'\<rparr>\<rparr>)"
    using ts' k' by (simp add: send_new_def base_new_def b(2) b_eq cfg')
  moreover have "send_le stream (stream\<lparr>s_base := (s_base stream)\<lparr>b_transforms := ts'\<rparr>\<rparr>)"
    using ts'(2) by (auto simp: send_le_def b(2) b_eq)
  ultimately show ?thesis by blast
qed

section \<open>Sessions\<close>

lemma get_stream_le:
  assumes le: "session_le s s'" and get: "get_stream (send_ops B C) ssrc s = (s1, Ok (stream, ft, pending))"
  shows "\<exists>s1' stream'. get_stream (send_ops B C) ssrc s' = (s1', Ok (stream', ft, pending)) \<and>
    send_le stream stream' \<and> session_le s1 s1'"
proof (cases "streams s ssrc")
  case (Some x)
  have "rel_option (rel_prod send_le (=)) (streams s ssrc) (streams s' ssrc)" using le by (simp add: session_le_def)
  with Some get le show ?thesis
    by (auto simp: get_stream_def option_rel_Some1 split: prod.splits)
next
  case None
  have none: "streams s' ssrc = None"
    using le None by (simp add: session_le_def) (metis option.rel_distinct(1) option.exhaust)
  from get None obtain cfg where cfg: "template_config s = Some cfg"
    and new: "send_new B C ssrc cfg (key_limit_handler s) = Ok stream"
    and s1: "s1 = s\<lparr>streams := (streams s)(ssrc \<mapsto> (stream, True))\<rparr>" and ft: "ft" "pending"
    by (auto simp: get_stream_def send_ops_def outcome_simps split: result.splits)
  have h: "key_limit_handler s' = key_limit_handler s" and "rel_option config_le (template_config s) (template_config s')"
    using le by (simp_all add: session_le_def)
  then obtain cfg' where cfg': "template_config s' = Some cfg'" "config_le cfg cfg'"
    using cfg by (auto simp: option_rel_Some1)
  obtain stream' where new': "send_new B C ssrc cfg' (key_limit_handler s') = Ok stream'" "send_le stream stream'"
    using send_new_le [OF cfg'(2) new] h by auto
  have "get_stream (send_ops B C) ssrc s' = (s'\<lparr>streams := (streams s')(ssrc \<mapsto> (stream', True))\<rparr>, Ok (stream', True, True))"
    using none cfg'(1) new'(1) by (simp add: get_stream_def send_ops_def)
  moreover have "session_le s1 (s'\<lparr>streams := (streams s')(ssrc \<mapsto> (stream', True))\<rparr>)"
    using le new'(2) by (simp add: session_le_def s1)
  ultimately show ?thesis using ft new'(2) by simp
qed

lemma on_stream_le:
  assumes le: "session_le s s'" and run: "on_stream (send_ops B C) ssrc f s = (s1, calls, Ok q)"
    and f: "\<And>t t' t1 calls. send_le t t' \<Longrightarrow> f t = (t1, calls, Ok q) \<Longrightarrow>
      \<exists>t1' calls'. f t' = (t1', calls', Ok q) \<and> send_le t1 t1'"
  shows "\<exists>s1' calls'. on_stream (send_ops B C) ssrc f s' = (s1', calls', Ok q) \<and> session_le s1 s1'"
  using run
proof (rule on_stream_Ok)
  fix stream ft s0 stream1
  assume get: "get_stream (send_ops B C) ssrc s = (s0, Ok (stream, ft, streams s ssrc = None))"
    and fs: "f stream = (stream1, calls, Ok q)" and s1: "s1 = s0\<lparr>streams := (streams s0)(ssrc \<mapsto> (stream1, ft))\<rparr>"
  from get_stream_le [OF le get] obtain s0' stream' where
    get': "get_stream (send_ops B C) ssrc s' = (s0', Ok (stream', ft, streams s ssrc = None))"
    "send_le stream stream'" "session_le s0 s0'" by blast
  from f [OF get'(2) fs] obtain stream1' calls' where
    "f stream' = (stream1', calls', Ok q)" "send_le stream1 stream1'" by blast
  with get' show ?thesis by (auto simp: on_stream_def s1 session_le_def)
qed

lemma protect_packet_le:
  assumes "session_le s s'" "protect_packet B C p s = (s1, calls, Ok q)"
  shows "\<exists>s1' calls'. protect_packet B C p s' = (s1', calls', Ok q) \<and> session_le s1 s1'"
proof (cases p)
  case (OutRtp plain m)
  then obtain h where "rtp_header_new plain = Ok h"
    "on_stream (send_ops B C) (rtp_ssrc h) (send_rtp_protect B C h plain m) s = (s1, calls, Ok q)"
    using assms(2) by (auto simp: rtp_protect_mki_def outcome_simps)
  with on_stream_le [OF assms(1) this(2) send_rtp_le] show ?thesis
    by (simp add: OutRtp rtp_protect_mki_def)
next
  case (OutRtcp plain m)
  then obtain h where "rtcp_header_new plain = Ok h"
    "on_stream (send_ops B C) (rtcp_ssrc h) (send_rtcp_protect C h plain m) s = (s1, calls, Ok q)"
    using assms(2) by (auto simp: rtcp_protect_mki_def outcome_simps)
  with on_stream_le [OF assms(1) this(2) send_rtcp_le] show ?thesis
    by (simp add: OutRtcp rtcp_protect_mki_def)
qed

text \<open>A refusal takes lives at most.\<close>

lemma kill_transforms_le:
  "transforms_le ts ts' \<Longrightarrow> ts m = Some (t, l) \<Longrightarrow> transforms_le (ts(m \<mapsto> (t, l\<lparr>l_rtp := 0, l_rtcp := 0\<rparr>))) ts'"
  by (auto simp: transforms_le_def lives_le_def option_rel_Some1 elim!: allE [of _ m])

lemma send_kill_le:
  assumes "send_le s s'"
  shows "send_le (fst (send_kill_session_keys m s)) s'"
proof -
  from assms obtain ts where s': "s' = s\<lparr>s_base := (s_base s)\<lparr>b_transforms := ts\<rparr>\<rparr>" and ts: "transforms_le (b_transforms (s_base s)) ts"
    by (auto simp: send_le_def)
  show ?thesis
  proof (cases "b_transforms (s_base s) m")
    case None
    then show ?thesis using assms by (simp add: send_kill_session_keys_def base_kill_session_keys_def)
  next
    case (Some x)
    obtain t l where x: "x = (t, l)" by (cases x)
    have "send_le (s\<lparr>s_base := (s_base s)\<lparr>b_transforms := (b_transforms (s_base s))(m \<mapsto> (t, l\<lparr>l_rtp := 0, l_rtcp := 0\<rparr>))\<rparr>\<rparr>) s'"
      unfolding send_le_def s'
      by (rule exI [of _ ts]) (use kill_transforms_le [OF ts] Some x in simp)
    then show ?thesis using Some x by (simp add: send_kill_session_keys_def base_kill_session_keys_def)
  qed
qed

lemma set_lives_zero_le: "list_all2 key_le ks ks' \<Longrightarrow> list_all2 key_le (fst (set_lives_mki_loop ks 0 0 0 0 m)) ks'"
proof (induction ks arbitrary: ks')
  case Nil
  then show ?case by simp
next
  case (Cons k ks)
  have "lives_accepted 0 0 0 0" by (simp add: lives_accepted_def)
  with Cons show ?case
    by (auto simp: list_all2_Cons1 mk_set_keys_lifetime_eq split_beta key_le_def lives_le_def)
qed

lemma kill_key_le:
  assumes "session_le s s'"
  shows "session_le (kill_key (send_ops B C) m s) s'"
proof -
  have "rel_option (rel_prod send_le (=)) (streams (kill_key (send_ops B C) m s) ssrc) (streams s' ssrc)" for ssrc
  proof -
    have "rel_option (rel_prod send_le (=)) (streams s ssrc) (streams s' ssrc)" using assms by (simp add: session_le_def)
    then show ?thesis
      by (auto simp: kill_key_def kill_templated_def send_ops_def send_kill_le option_rel_Some1
          split: option.split bool.split) blast
  qed
  moreover have "rel_option config_le (template_config (kill_key (send_ops B C) m s)) (template_config s')"
  proof (cases "template_config s")
    case None
    then show ?thesis using assms by (simp add: session_le_def kill_key_def)
  next
    case (Some cfg)
    then obtain cfg' where "template_config s' = Some cfg'" "config_le cfg cfg'"
      using assms by (auto simp: session_le_def option_rel_Some1)
    then show ?thesis
      using Some by (auto simp: kill_key_def config_le_def sc_set_keys_lifetime_mki_def split_beta set_lives_zero_le)
  qed
  ultimately show ?thesis using assms by (simp add: session_le_def kill_key_def)
qed

lemma protect_packet_error_le:
  assumes le: "session_le s s'" and err: "protect_packet B C p s = (s1, calls, Err e)"
  shows "session_le s1 s'"
proof -
  have "s1 = s \<or> (\<exists>m. s1 = kill_key (send_ops B C) m s)"
    using err
    by (cases p) (auto simp: rtp_protect_mki_def rtcp_protect_mki_def send_fails_unchanged
        dest!: try_in_Err_header on_stream_error(1) [rotated])
  then show ?thesis using le kill_key_le by auto
qed

section \<open>A whole transmission\<close>

text \<open>
  Protect each packet and hand it to the receiver; a packet the sender refuses is not sent. The result is
  what the receiver made of each protected packet. A panic, which no reachable session shows, would end the
  program.
\<close>

fun transmit :: "'b biguint \<Rightarrow> crypto \<Rightarrow> outgoing list \<Rightarrow> 'b send_session \<Rightarrow> 'b recv_session \<Rightarrow>
    (bytes \<times> bytes result) list" where
  "transmit B C [] s r = []"
| "transmit B C (o1 # os) s r =
     (case protect_packet B C o1 s of
        (s', _, Ok q) \<Rightarrow>
          let (r', _, res) = unprotect_packet B C o1 q r in (plain_packet o1, res) # transmit B C os s' r'
      | (s', _, Err e) \<Rightarrow> transmit B C os s' r
      | (s', _, Panic) \<Rightarrow> [])"

lemma unprotect_packet_lockstep:
  assumes B: "biguint_laws B" and C: "crypto_laws C" and step: "sessions_in_step B s r"
    and run: "protect_packet B C p s = (s', calls, Ok q)"
  shows "\<exists>r' calls'. unprotect_packet B C p q r = (r', calls', Ok (plain_packet p)) \<and> sessions_in_step B s' r'"
  using run rtp_session_lockstep [OF B C step] rtcp_session_lockstep [OF B C step] by (cases p) simp_all

lemma transmit_delivers:
  assumes B: "biguint_laws B" and C: "crypto_laws C" and "session_le s s'" "sessions_in_step B s' r"
  shows "\<forall>(p, res) \<in> set (transmit B C os s r). res = Ok p"
  using assms(3,4)
proof (induction os arbitrary: s s' r)
  case Nil
  then show ?case by simp
next
  case (Cons p ps)
  obtain s1 calls res where run: "protect_packet B C p s = (s1, calls, res)"
    by (cases "protect_packet B C p s")
  show ?case
  proof (cases res)
    case (Ok q)
    then obtain s1' calls' where run': "protect_packet B C p s' = (s1', calls', Ok q)" and le: "session_le s1 s1'"
      using protect_packet_le [OF Cons.prems(1)] run by blast
    from unprotect_packet_lockstep [OF B C Cons.prems(2) run'] obtain r' calls'' where
      "unprotect_packet B C p q r = (r', calls'', Ok (plain_packet p))" "sessions_in_step B s1' r'" by blast
    then show ?thesis using run Ok Cons.IH [OF le] by simp
  next
    case (Err e)
    then show ?thesis
      using run Cons.IH [OF protect_packet_error_le [OF Cons.prems(1)] Cons.prems(2)] by simp
  qed (use run in simp)
qed

end
