(* ===== verification/Srtp_Whole_Streams.thy ===== *)
theory Srtp_Whole_Streams
  imports Srtp_Transmission
begin

text \<open>
  Availability over a whole stream: a sender whose packets carry consecutive sequence numbers is
  never refused while its key has lives left, through any number of rollovers of the sequence
  number, and the receiver gives every packet back.
\<close>

section \<open>A stream that is ready for the next index\<close>

text \<open>
  A stream whose newest index is \<open>newest\<close> reads the index \<open>i\<close> off a sequence number: it is near, or the stream
  is new and the ROC is still 0.
\<close>

definition reads_index :: "nat \<Rightarrow> nat \<Rightarrow> bool" where
  "reads_index newest i \<longleftrightarrow> i < newest + 32768 \<and> newest < i + 32768 \<or> newest = 0 \<and> i < 65536"

lemma estimate_reads_index:
  assumes db: "pending_roc db = None" "unat (r_index db) < 2 ^ 48"
    and i: "reads_index (unat (r_index db)) i" "unat seq = i mod 65536" "i < 2 ^ 64"
  shows "rtp_estimate_index db seq = word_of_nat i"
proof -
  have "unat (rtp_estimate_index db seq) = i"
    using i(1) estimate_index_exact [OF db _ _ i(2)] unat_estimate_index [OF db, of seq] i(2)
    by (auto simp: reads_index_def estimate_nat_def)
  moreover have "unat (word_of_nat i :: u64) = i"
    using i(3) by (simp add: unat_of_nat take_bit_nat_eq_self)
  ultimately show ?thesis by (metis word_unat_eq_iff)
qed

text \<open>The stream can send index \<open>i\<close> next, and has \<open>n\<close> lives left for it and its successors.\<close>

definition ready :: "'b biguint \<Rightarrow> mki \<Rightarrow> nat \<Rightarrow> nat \<Rightarrow> 'b send_stream \<Rightarrow> bool" where
  "ready B m i n s \<longleftrightarrow>
     pending_roc (b_rtp_index (s_base s)) = None \<and>
     unat (r_index (b_rtp_index (s_base s))) \<le> i \<and> reads_index (unat (r_index (b_rtp_index (s_base s)))) i \<and>
     \<not> rtp_seen_index B (b_rtp_index (s_base s)) (word_of_nat i) \<and>
     (\<exists>t l. b_transforms (s_base s) m = Some (t, l) \<and> n \<le> unat (l_rtp l))"

lemma rtp_add_index_newer:
  assumes "r_index db \<le> i"
  shows "r_index (rtp_add_index B db i) = i" "pending_roc (rtp_add_index B db i) = None"
  using assms by (auto simp: rtp_add_index_def Let_def)

lemma rtp_seen_newer: "r_index db < i \<Longrightarrow> \<not> rtp_seen_index B db i"
  by (simp add: rtp_seen_index_def)

lemma ready_new:
  assumes B: "biguint_laws B" and C: "crypto_laws C" and cfg: "valid_config cfg" "sc_replay_window_size cfg \<noteq> 0"
    and new: "send_new B C ssrc cfg h = Ok s" and k: "k \<in> set (sc_keys cfg)" and i: "i < 2 ^ 16"
  shows "ready B (mk_mki k) i (unat (l_rtp (mk_lifetime k))) s"
proof -
  from new obtain b where b: "base_new B C ssrc cfg h = Ok b" "s_base s = b"
    by (auto simp: send_new_def outcome_simps)
  from b(1) obtain ts where ts: "get_transforms C cfg = Ok ts" "b_transforms b = ts"
    "b_rtp_index b = rtp_replay_new B (sc_replay_window_size cfg)"
    by (rule base_new_Ok) auto
  have "mk_mki k \<in> dom ts"
    using get_transforms_dom [OF ts(1)] k by blast
  then obtain t l where entry: "ts (mk_mki k) = Some (t, l)" by auto
  then obtain k' where "k' \<in> set (sc_keys cfg)" "mk_mki k' = mk_mki k" "mk_lifetime k' = l"
    using get_transforms_entry [OF ts(1)] by blast
  with k valid_config_distinct [OF cfg(1)] have "l = mk_lifetime k"
    by (metis distinct_map inj_onD)
  moreover have "\<not> rtp_seen_index B (b_rtp_index b) (word_of_nat i)"
    using rtp_seen_refines [OF rtp_rel_new [OF B], of i "sc_replay_window_size cfg"] i cfg(2)
    by (simp add: ts(3) win_seen_def win_empty_def unat_eq_zero)
  ultimately show ?thesis
    using entry i by (simp add: ready_def reads_index_def b(2) ts(2) ts(3) rtp_replay_new_def)
qed

lemma ready_index:
  assumes "ready B m i n s" "i < 2 ^ 48" "unat seq = i mod 65536"
  shows "rtp_estimate_index (b_rtp_index (s_base s)) seq = word_of_nat i"
  by (rule estimate_reads_index) (use assms in \<open>simp_all add: ready_def\<close>)

lemma ready_send:
  assumes B: "biguint_laws B" and C: "crypto_laws C" and s: "send_ok B s" "ready B m i (Suc n) s"
    and i: "i < 2 ^ 48" and seq: "unat (seq_num h) = i mod 65536"
    and len: "header_len h \<le> length p" "length p \<le> max_message"
  shows "\<exists>s' calls q. send_rtp_protect B C h p m s = (s', calls, Ok q) \<and> ready B m (Suc i) n s'"
proof -
  let ?db = "b_rtp_index (s_base s)"
  from s(2) obtain t l where entry: "b_transforms (s_base s) m = Some (t, l)" "Suc n \<le> unat (l_rtp l)"
    and db: "pending_roc ?db = None" "unat (r_index ?db) \<le> i"
    and fresh: "\<not> rtp_seen_index B ?db (word_of_nat i)"
    by (auto simp: ready_def)
  have i64: "unat (word_of_nat i :: u64) = i"
    using i by (simp add: unat_of_nat take_bit_nat_eq_self)
  note est = ready_index [OF s(2) i seq]
  have "0 < lives_left (s_base s) True m"
    using entry by (simp add: lives_left_def)
  then obtain s' calls q where run: "send_rtp_protect B C h p m s = (s', calls, Ok q)"
    using send_rtp_total [OF C s(1) entry(1) _ len] fresh est by auto
  then have "ready B m (Suc i) n s'"
  proof (rule send_rtp_protect_Ok)
    fix t' l0 l' j
    assume step: "b_transforms (s_base s) m = Some (t', l0)" "j = rtp_estimate_index ?db (seq_num h)"
      "decrease_rtp l0 = Ok l'" "s' = s\<lparr>s_base := with_index B (with_lives (s_base s) m t' l') j\<rparr>"
    have j: "r_index ?db \<le> j"
      using db(2) i64 by (simp add: step(2) est word_le_nat_alt)
    have "unat (word_of_nat (Suc i) :: u64) = Suc i"
      using i by (simp add: unat_of_nat take_bit_nat_eq_self del: of_nat_Suc)
    then have "j < word_of_nat (Suc i)"
      using i64 by (simp add: step(2) est word_less_nat_alt del: of_nat_Suc)
    then have "\<not> rtp_seen_index B (rtp_add_index B ?db j) (word_of_nat (Suc i))"
      by (simp add: rtp_seen_newer rtp_add_index_newer(1) [OF j] del: of_nat_Suc)
    moreover have "n \<le> unat (l_rtp l')"
      using decrease_rtp_Ok(1) [OF step(3)] entry step(1) by simp
    ultimately show ?thesis
      using i64 rtp_add_index_newer [OF j, of B] by (simp add: ready_def reads_index_def step(4) step(2) est del: of_nat_Suc)
  qed
  with run show ?thesis by blast
qed

section \<open>A session that is ready\<close>

text \<open>The stream of the SSRC is there, or a packet of it will spawn it.\<close>

definition session_ready :: "'b biguint \<Rightarrow> crypto \<Rightarrow> u32 \<Rightarrow> mki \<Rightarrow> nat \<Rightarrow> nat \<Rightarrow> 'b send_session \<Rightarrow> bool" where
  "session_ready B C ssrc m i n s \<longleftrightarrow>
     (case get_stream (send_ops B C) ssrc s of (_, Ok (stream, _, _)) \<Rightarrow> ready B m i n stream | _ \<Rightarrow> False)"

lemma session_ready_send:
  assumes B: "biguint_laws B" and C: "crypto_laws C" and st: "sessions_in_step B s r"
    and s: "session_ready B C (rtp_ssrc h) m i (Suc n) s" and i: "i < 2 ^ 48"
    and p: "rtp_header_new p = Ok h" "unat (seq_num h) = i mod 65536" "length p \<le> max_message"
  shows "\<exists>s' calls q. rtp_protect_mki B C p m s = (s', calls, Ok q) \<and> session_ready B C (rtp_ssrc h) m (Suc i) n s'"
proof -
  from s obtain s1 stream ft pending where
    get: "get_stream (send_ops B C) (rtp_ssrc h) s = (s1, Ok (stream, ft, pending))" and stream: "ready B m i (Suc n) stream"
    by (auto simp: session_ready_def split: prod.splits result.splits)
  from get_stream_lockstep [OF B C st get] have "send_ok B stream"
    by (auto simp: in_step_def)
  from ready_send [OF B C this stream i p(2) rtp_header_len_bounds(2) [OF p(1)] p(3)]
  obtain stream' calls q where run: "send_rtp_protect B C h p m stream = (stream', calls, Ok q)"
    and next_one: "ready B m (Suc i) n stream'" by blast
  let ?s' = "s1\<lparr>streams := (streams s1)(rtp_ssrc h \<mapsto> (stream', ft))\<rparr>"
  have "rtp_protect_mki B C p m s = (?s', calls, Ok q)"
    using get run by (simp add: rtp_protect_mki_def p(1) on_stream_def)
  moreover have "session_ready B C (rtp_ssrc h) m (Suc i) n ?s'"
    using next_one by (simp add: session_ready_def get_stream_def)
  ultimately show ?thesis by blast
qed

section \<open>The whole stream\<close>

text \<open>Packets of one SSRC whose sequence numbers count from \<open>i\<close>, modulo \<open>2^16\<close>.\<close>

fun consecutive :: "u32 \<Rightarrow> nat \<Rightarrow> bytes list \<Rightarrow> bool" where
  "consecutive ssrc i [] \<longleftrightarrow> True"
| "consecutive ssrc i (p # ps) \<longleftrightarrow>
     (case rtp_header_new p of
        Ok h \<Rightarrow> rtp_ssrc h = ssrc \<and> unat (seq_num h) = i mod 65536
      | _ \<Rightarrow> False) \<and> length p \<le> max_message \<and> consecutive ssrc (Suc i) ps"

lemma consecutive_delivered:
  assumes B: "biguint_laws B" and C: "crypto_laws C"
  shows "sessions_in_step B s r \<Longrightarrow> consecutive ssrc i ps \<Longrightarrow> session_ready B C ssrc m i n s \<Longrightarrow>
    length ps \<le> n \<Longrightarrow> i + length ps \<le> 2 ^ 48 \<Longrightarrow>
    transmit B C (map (\<lambda>p. OutRtp p m) ps) s r = map (\<lambda>p. (p, Ok p)) ps"
proof (induction ps arbitrary: s r i n)
  case Nil
  then show ?case by simp
next
  case (Cons p ps)
  obtain n' where n: "n = Suc n'" using Cons.prems(4) by (cases n) auto
  from Cons.prems(2) obtain h where h: "rtp_header_new p = Ok h" "rtp_ssrc h = ssrc"
    "unat (seq_num h) = i mod 65536" "length p \<le> max_message" "consecutive ssrc (Suc i) ps"
    by (auto split: result.splits)
  have "i < 2 ^ 48" using Cons.prems(5) by simp
  with session_ready_send [OF B C Cons.prems(1) _ _ h(1,3,4), of m n'] Cons.prems(3)
  obtain s' calls q where run: "rtp_protect_mki B C p m s = (s', calls, Ok q)"
    and s': "session_ready B C ssrc m (Suc i) n' s'"
    by (auto simp: h(2) n)
  from rtp_session_lockstep [OF B C Cons.prems(1) run] obtain r' calls' where
    recv: "rtp_unprotect B C q r = (r', calls', Ok p)" and st: "sessions_in_step B s' r'" by blast
  have "transmit B C (map (\<lambda>p. OutRtp p m) ps) s' r' = map (\<lambda>p. (p, Ok p)) ps"
    by (rule Cons.IH [OF st h(5) s']) (use Cons.prems(4,5) n in simp_all)
  with run recv show ?case by simp
qed

text \<open>Two new sessions with one configuration.\<close>

lemma new_session_ready:
  assumes B: "biguint_laws B" and C: "crypto_laws C" and cfg: "deliverable cfg"
    and add: "add_stream (send_ops B C) [] order x cfg session_new = (s, Ok ())" "x \<in> {None, Some ssrc}"
    and family: "is_gcm (sc_rtp_profile cfg) = is_gcm (sc_rtcp_profile cfg)"
    and k: "k \<in> set (sc_keys cfg)" and i: "i < 2 ^ 16"
  shows "session_ready B C ssrc (mk_mki k) i (unat (l_rtp (mk_lifetime k))) s"
proof -
  have ok: "config_ok cfg" "valid_config cfg" "sc_replay_window_size cfg \<noteq> 0"
    using cfg by (simp_all add: deliverable_def config_ok_def)
  have valid: "validate cfg = Ok ()" using ok(2) by (simp add: validate_iff)
  obtain stream where new: "send_new B C ssrc cfg False = Ok stream"
    using base_new_outcome [OF C ok(1), of B ssrc False] family by (auto simp: send_new_def)
  from ready_new [OF B C ok(2,3) new k i] show ?thesis
    using add new valid by (auto simp: session_ready_def add_stream_def session_new_def get_stream_def send_ops_def)
qed

lemma whole_stream:
  assumes B: "biguint_laws B" and C: "crypto_laws C" and cfg: "deliverable cfg"
    and family: "is_gcm (sc_rtp_profile cfg) = is_gcm (sc_rtcp_profile cfg)"
    and key: "key \<in> set (sc_keys cfg)" and x: "x \<in> {None, Some ssrc}"
    and ps: "consecutive ssrc i ps" "i < 2 ^ 16" "length ps \<le> unat (l_rtp (mk_lifetime key))" "i + length ps \<le> 2 ^ 48"
  shows "transmit B C (map (\<lambda>p. OutRtp p (mk_mki key)) ps)
      (fst (add_stream (send_ops B C) [] order x cfg session_new))
      (fst (add_stream (recv_ops B C) [] order' x cfg session_new)) = map (\<lambda>p. (p, Ok p)) ps"
proof -
  have ok: "config_ok cfg" using cfg by (simp add: deliverable_def)
  obtain s where s: "add_stream (send_ops B C) [] order x cfg session_new = (s, Ok ())"
    using add_stream_succeeds(1) [OF C ok family] by blast
  obtain r where r: "add_stream (recv_ops B C) [] order' x cfg session_new = (r, Ok ())"
    using add_stream_succeeds(2) [OF C ok family] by blast
  from consecutive_delivered [OF B C add_stream_lockstep [OF B C cfg s r] ps(1)
      new_session_ready [OF B C cfg s x family key ps(2)] ps(3,4)]
  show ?thesis by (simp add: s r)
qed

end
