(* ===== verification/Srtp_Reordered.thy ===== *)
theory Srtp_Reordered
  imports Srtp_Whole_Streams
begin

text \<open>
  Reordering and loss over whole sessions: after any number of packets in order, the packets of a
  block no longer than the replay window may come to the receiver in any order, and some of them not
  at all. Each that comes is given back, and refused when it comes again.
\<close>

section \<open>Lists of packets through sessions\<close>

fun protect_all ::
    "'b biguint \<Rightarrow> crypto \<Rightarrow> mki \<Rightarrow> bytes list \<Rightarrow> 'b send_session \<Rightarrow> 'b send_session \<times> bytes result list" where
  "protect_all B C m [] s = (s, [])"
| "protect_all B C m (p # ps) s =
     (let (s, _, r) = rtp_protect_mki B C p m s; (s, rs) = protect_all B C m ps s in (s, r # rs))"

fun unprotect_all ::
    "'b biguint \<Rightarrow> crypto \<Rightarrow> bytes list \<Rightarrow> 'b recv_session \<Rightarrow> 'b recv_session \<times> bytes result list" where
  "unprotect_all B C [] s = (s, [])"
| "unprotect_all B C (q # qs) s =
     (let (s, _, r) = rtp_unprotect B C q s; (s, rs) = unprotect_all B C qs s in (s, r # rs))"

lemma protect_all_append:
  "protect_all B C m (ps @ ps') s =
     (let (s, rs) = protect_all B C m ps s; (s, rs') = protect_all B C m ps' s in (s, rs @ rs'))"
  by (induction ps arbitrary: s) (simp_all add: split_beta Let_def)

lemma unprotect_all_append:
  "unprotect_all B C (qs @ qs') s =
     (let (s, rs) = unprotect_all B C qs s; (s, rs') = unprotect_all B C qs' s in (s, rs @ rs'))"
  by (induction qs arbitrary: s) (simp_all add: split_beta Let_def)

lemma stream_for_lockstep:
  assumes "biguint_laws B" "crypto_laws C" "sessions_in_step B s r" "stream_for (send_ops B C) ssrc s = Some stream"
  shows "\<exists>v. stream_for (recv_ops B C) ssrc r = Some v \<and> in_step B stream v"
  using assms(4) get_stream_lockstep [OF assms(1-3)] unfolding stream_for_iff by blast

section \<open>The sender\<close>

text \<open>\<open>q\<close> is the packet \<open>p\<close> of the SSRC, protected with index \<open>i\<close> by the transform \<open>t\<close>.\<close>

definition sealed :: "crypto \<Rightarrow> transform \<Rightarrow> u32 \<Rightarrow> bytes \<Rightarrow> nat \<Rightarrow> bytes \<Rightarrow> bool" where
  "sealed C t ssrc p i q \<longleftrightarrow>
     (\<exists>h. rtp_header_new p = Ok h \<and> rtp_ssrc h = ssrc \<and> unat (seq_num h) = i mod 65536 \<and>
        transform_rtp_protect C t p h (ucast (drop_bit 16 (word_of_nat i :: u64))) = Ok q)"

text \<open>A sending stream at index \<open>i\<close>, with \<open>n\<close> lives, the transform \<open>t\<close> and a window of \<open>w\<close> indices.\<close>

definition sender_at ::
    "'b biguint \<Rightarrow> mki \<Rightarrow> transform \<Rightarrow> nat \<Rightarrow> nat \<Rightarrow> nat \<Rightarrow> 'b send_stream \<Rightarrow> bool" where
  "sender_at B m t w i n s \<longleftrightarrow>
     ready B m i n s \<and> (\<exists>l. b_transforms (s_base s) m = Some (t, l)) \<and>
     r_mask (b_rtp_index (s_base s)) = big_mask B w"

lemma sender_at_step:
  assumes B: "biguint_laws B" and C: "crypto_laws C" and s: "send_ok B s" "sender_at B m t w i (Suc n) s"
    and i: "i < 2 ^ 48" and h: "rtp_header_new p = Ok h" "unat (seq_num h) = i mod 65536" and len: "length p \<le> max_message"
  obtains s' calls q where "send_rtp_protect B C h p m s = (s', calls, Ok q)" "sender_at B m t w (Suc i) n s'"
    "unat (r_index (b_rtp_index (s_base s'))) = i" "sealed C t (rtp_ssrc h) p i q"
proof -
  have ready: "ready B m i (Suc n) s" using s(2) by (simp add: sender_at_def)
  note est = ready_index [OF ready i h(2)]
  have i64: "unat (word_of_nat i :: u64) = i"
    using i by (simp add: unat_of_nat take_bit_nat_eq_self)
  obtain s' calls q where run: "send_rtp_protect B C h p m s = (s', calls, Ok q)" and next_one: "ready B m (Suc i) n s'"
    using ready_send [OF B C s(1) ready i h(2) rtp_header_len_bounds(2) [OF h(1)] len] by blast
  from run show thesis
  proof (rule send_rtp_protect_Ok)
    fix t' l l' j
    assume step: "b_transforms (s_base s) m = Some (t', l)"
      "j = rtp_estimate_index (b_rtp_index (s_base s)) (seq_num h)"
      "transform_rtp_protect C t' p h (ucast (drop_bit 16 j)) = Ok q"
      "s' = s\<lparr>s_base := with_index B (with_lives (s_base s) m t' l') j\<rparr>"
    have t': "t' = t" using s(2) step(1) by (auto simp: sender_at_def)
    have "r_index (b_rtp_index (s_base s)) \<le> word_of_nat i"
      using ready i64 by (simp add: ready_def word_le_nat_alt)
    then have "unat (r_index (b_rtp_index (s_base s'))) = i"
      using i64 by (simp add: step(2,4) est rtp_add_index_newer)
    moreover have "sender_at B m t w (Suc i) n s'"
      using next_one s(2) by (simp add: sender_at_def step(4) t')
    moreover have "sealed C t (rtp_ssrc h) p i q"
      using h step(3) by (simp add: sealed_def step(2) est t')
    ultimately show thesis using run by (intro that)
  qed
qed

text \<open>
  A run of packets leaves the sender sealed one after the other; a receiver in step with the sender gives
  them back in order and stays in step.
\<close>

lemma sender_run:
  assumes B: "biguint_laws B" and C: "crypto_laws C"
  shows "sessions_in_step B s r \<Longrightarrow> stream_for (send_ops B C) ssrc s = Some stream \<Longrightarrow> sender_at B m t w i n stream \<Longrightarrow>
    consecutive ssrc i ps \<Longrightarrow> length ps \<le> n \<Longrightarrow> i + length ps \<le> 2 ^ 48 \<Longrightarrow>
    \<exists>s' r' qs stream'. protect_all B C m ps s = (s', map Ok qs) \<and> length qs = length ps \<and>
      (\<forall>j < length ps. sealed C t ssrc (ps ! j) (i + j) (qs ! j)) \<and>
      unprotect_all B C qs r = (r', map Ok ps) \<and> sessions_in_step B s' r' \<and>
      stream_for (send_ops B C) ssrc s' = Some stream' \<and> sender_at B m t w (i + length ps) (n - length ps) stream' \<and>
      (if ps = [] then stream' = stream else Suc (unat (r_index (b_rtp_index (s_base stream')))) = i + length ps)"
proof (induction ps arbitrary: s r stream i n)
  case Nil
  then show ?case by (auto intro: exI [of _ s])
next
  case (Cons p ps)
  obtain n' where n: "n = Suc n'" using Cons.prems(5) by (cases n) auto
  from Cons.prems(4) obtain h where h: "rtp_header_new p = Ok h" "rtp_ssrc h = ssrc" "unat (seq_num h) = i mod 65536"
    "length p \<le> max_message" and ps: "consecutive ssrc (Suc i) ps"
    by (auto split: result.splits)
  have "send_ok B stream"
    using stream_for_lockstep [OF B C Cons.prems(1,2)] by (auto simp: in_step_def)
  from sender_at_step [OF B C this Cons.prems(3) [unfolded n] _ h(1,3,4)] Cons.prems(6)
  obtain stream1 calls q where run: "send_rtp_protect B C h p m stream = (stream1, calls, Ok q)"
    and stream1: "sender_at B m t w (Suc i) n' stream1" "unat (r_index (b_rtp_index (s_base stream1))) = i"
    and q: "sealed C t ssrc p i q"
    by (auto simp: h(2))
  from on_stream_runs [OF Cons.prems(2), of "send_rtp_protect B C h p m"] run
  obtain s1 where s1: "rtp_protect_mki B C p m s = (s1, calls, Ok q)" "stream_for (send_ops B C) ssrc s1 = Some stream1"
    by (auto simp: rtp_protect_mki_def h(1,2))
  from rtp_session_lockstep [OF B C Cons.prems(1) s1(1)] obtain r1 calls' where
    r1: "rtp_unprotect B C q r = (r1, calls', Ok p)" and step1: "sessions_in_step B s1 r1" by blast
  have "length ps \<le> n'" "Suc i + length ps \<le> 2 ^ 48" using Cons.prems(5,6) n by simp_all
  from Cons.IH [OF step1 s1(2) stream1(1) ps this] obtain s' r' qs stream' where
    all: "protect_all B C m ps s1 = (s', map Ok qs)" "length qs = length ps"
      "\<forall>j < length ps. sealed C t ssrc (ps ! j) (Suc i + j) (qs ! j)"
      "unprotect_all B C qs r1 = (r', map Ok ps)" "sessions_in_step B s' r'"
      "stream_for (send_ops B C) ssrc s' = Some stream'" "sender_at B m t w (Suc i + length ps) (n' - length ps) stream'"
      "if ps = [] then stream' = stream1 else Suc (unat (r_index (b_rtp_index (s_base stream')))) = Suc i + length ps"
    by blast
  have "sealed C t ssrc ((p # ps) ! j) (i + j) ((q # qs) ! j)" if "j < length (p # ps)" for j
    using that q all(3) by (cases j) auto
  moreover have "Suc (unat (r_index (b_rtp_index (s_base stream')))) = i + length (p # ps)"
    using all(8) stream1(2) by (simp split: if_splits)
  ultimately show ?case
    using all s1(1) r1 n by (intro exI [of _ s'] exI [of _ r'] exI [of _ "q # qs"] exI [of _ stream']) simp
qed

section \<open>The receiver\<close>

text \<open>
  A receiving stream awaits the \<open>n\<close> packets from index \<open>i\<close> on, and has the ones in \<open>got\<close>: it has the lives for
  the others, its newest index is near to all of them and its window reaches back to the first.
\<close>

definition awaits ::
    "'b biguint \<Rightarrow> mki \<Rightarrow> transform \<Rightarrow> nat \<Rightarrow> nat \<Rightarrow> nat set \<Rightarrow> 'b recv_stream \<Rightarrow> bool" where
  "awaits B m t i n got v \<longleftrightarrow>
     recv_ok B v \<and> mki_aligned v t m \<and> got \<subseteq> {..<n} \<and> pending_roc (b_rtp_index (v_base v)) = None \<and>
     (\<exists>l. b_transforms (v_base v) m = Some (t, l) \<and> n \<le> unat (l_rtp l) + card got) \<and>
     (\<exists>w. rtp_rel B (b_rtp_index (v_base v)) w \<and> n \<le> w_size w \<and> w_top w < i + n \<and> i + n \<le> w_top w + 32768 \<and>
        (\<forall>j < n. i + j \<in> w_hits w \<longleftrightarrow> j \<in> got))"

lemma awaits_start:
  assumes B: "biguint_laws B" and step: "in_step B s v" and s: "sender_at B m t w i n s"
    and n: "0 < n" "n \<le> w" "i + n \<le> unat (r_index (b_rtp_index (s_base s))) + 32768" "i + n \<le> 2 ^ 48"
  shows "awaits B m t i n {} v"
proof -
  let ?db = "b_rtp_index (s_base s)"
  from s have ready: "pending_roc ?db = None" "unat (r_index ?db) \<le> i" "\<not> rtp_seen_index B ?db (word_of_nat i)"
    and mask: "r_mask ?db = big_mask B w"
    and lives: "\<exists>l. b_transforms (s_base s) m = Some (t, l) \<and> n \<le> unat (l_rtp l)"
    by (auto simp: sender_at_def ready_def)
  from step have v: "recv_ok B v" "b_transforms (v_base v) = b_transforms (s_base s)" "b_rtp_index (v_base v) = ?db"
    and aligned: "mki_aligned v t m"
    using lives by (auto simp: in_step_def)
  obtain spec where rel: "rtp_rel B ?db spec" using rtp_rel_exists [OF B mask] by blast
  then have top: "w_top spec = unat (r_index ?db)" and ok: "win_ok spec" and mask': "big_mask B w = big_mask B (w_size spec)"
    using mask by (simp_all add: rtp_rel_def)
  have size: "w_size spec = w"
    using big_simps(3) [OF B] mask' by metis
  have "i < 2 ^ 64" using n by simp
  then have "\<not> win_seen spec i" using rtp_seen_refines [OF rel] ready(3) by simp
  then have fresh: "i + j \<notin> w_hits spec" for j
    using ok ready(2) top by (cases "j = 0") (auto simp: win_seen_def win_ok_def)
  have "\<exists>w'. rtp_rel B (b_rtp_index (v_base v)) w' \<and> n \<le> w_size w' \<and> w_top w' < i + n \<and> i + n \<le> w_top w' + 32768 \<and>
      (\<forall>j < n. i + j \<in> w_hits w' \<longleftrightarrow> j \<in> {})"
    using rel size top ready(2) n fresh by (intro exI [of _ spec]) (simp add: v(3))
  then show ?thesis
    using v aligned lives ready(1) by (simp add: awaits_def)
qed

text \<open>A packet that was not there is accepted and recorded.\<close>

lemma awaits_index:
  assumes "awaits B m t i n got v" "j < n" "n < 32768" "i + n \<le> 2 ^ 48" "unat seq = (i + j) mod 65536"
  shows "rtp_estimate_index (b_rtp_index (v_base v)) seq = word_of_nat (i + j)"
    and "rtp_seen_index B (b_rtp_index (v_base v)) (word_of_nat (i + j)) \<longleftrightarrow> j \<in> got"
proof -
  let ?db = "b_rtp_index (v_base v)"
  from assms(1) obtain w where rel: "rtp_rel B ?db w" and w: "n \<le> w_size w" "w_top w < i + n" "i + n \<le> w_top w + 32768"
    and hits: "\<forall>j < n. i + j \<in> w_hits w \<longleftrightarrow> j \<in> got" and pending: "pending_roc ?db = None"
    by (auto simp: awaits_def)
  have top: "unat (r_index ?db) = w_top w" and ok: "win_ok w"
    using rel by (simp_all add: rtp_rel_def)
  have "unat (rtp_estimate_index ?db seq) = i + j"
    by (rule estimate_index_exact [OF pending]) (use assms(2-5) w top in simp_all)
  moreover have "unat (word_of_nat (i + j) :: u64) = i + j"
    using assms(2,4) by (simp add: unat_of_nat take_bit_nat_eq_self del: of_nat_add)
  ultimately show "rtp_estimate_index ?db seq = word_of_nat (i + j)"
    by (metis word_unat_eq_iff)
  have "i + j < 2 ^ 64" using assms(2,4) by simp
  from rtp_seen_refines [OF rel this]
  have "rtp_seen_index B ?db (word_of_nat (i + j)) \<longleftrightarrow> win_seen w (i + j)" .
  also have "\<dots> \<longleftrightarrow> j \<in> got"
    using hits assms(2) w ok by (auto simp: win_seen_def win_ok_def)
  finally show "rtp_seen_index B ?db (word_of_nat (i + j)) \<longleftrightarrow> j \<in> got" .
qed

lemma awaits_accepts:
  assumes C: "crypto_laws C" and v: "awaits B m t i n got v" and j: "j < n" "j \<notin> got" "n < 32768" "i + n \<le> 2 ^ 48"
    and q: "sealed C t ssrc p (i + j) q"
  obtains h v' calls where "rtp_header_new q = Ok h" "rtp_ssrc h = ssrc"
    "recv_rtp_unprotect B C h q v = (v', calls, Ok p)" "awaits B m t i n (insert j got) v'"
proof -
  let ?db = "b_rtp_index (v_base v)" and ?i = "word_of_nat (i + j) :: u64"
  from q obtain h where h: "rtp_header_new p = Ok h" "rtp_ssrc h = ssrc" "unat (seq_num h) = (i + j) mod 65536"
    and cipher: "transform_rtp_protect C t p h (ucast (drop_bit 16 ?i)) = Ok q"
    by (auto simp: sealed_def)
  note index = awaits_index [OF v j(1,3,4) h(3)]
  from v obtain l w where al: "mki_aligned v t m" and ok: "recv_ok B v" and got: "got \<subseteq> {..<n}"
    and entry: "b_transforms (v_base v) m = Some (t, l)" "n \<le> unat (l_rtp l) + card got"
    and rel: "rtp_rel B ?db w" and w: "n \<le> w_size w" "w_top w < i + n" "i + n \<le> w_top w + 32768"
    and hits: "\<forall>j < n. i + j \<in> w_hits w \<longleftrightarrow> j \<in> got"
    by (auto simp: awaits_def)
  have fin: "finite got" using got by (rule finite_subset) simp
  have "card (insert j got) \<le> card {..<n}" using got j(1) by (intro card_mono) auto
  then have "card got < n" using fin j(2) by simp
  then have alive: "l_rtp l \<noteq> 0" using entry(2) by (auto simp: unat_eq_zero)
  have t: "transform_ok t"
    using ok base_ok_entry [OF _ entry(1)] by (auto simp: recv_ok_def)
  have fresh: "\<not> rtp_seen_index B ?db ?i" using index(2) j(2) by simp
  note del = rtp_delivery [OF C t al entry(1) alive h(1) cipher index(1) fresh]
  obtain l' calls where l': "decrease_rtp l = Ok l'"
    and recv: "recv_rtp_unprotect B C h q v = (v\<lparr>v_base := with_index B (with_lives (v_base v) m t l') ?i\<rparr>, calls, Ok p)"
    using del(2) by blast
  let ?v' = "v\<lparr>v_base := with_index B (with_lives (v_base v) m t l') ?i\<rparr>"
  have "i + j < 2 ^ 64" using j(1,4) by simp
  from rtp_add_refines [OF rel this] have rel': "rtp_rel B (rtp_add_index B ?db ?i) (win_add w (i + j))" .
  have "\<exists>w'. rtp_rel B (b_rtp_index (v_base ?v')) w' \<and> n \<le> w_size w' \<and> w_top w' < i + n \<and> i + n \<le> w_top w' + 32768 \<and>
      (\<forall>k < n. i + k \<in> w_hits w' \<longleftrightarrow> k \<in> insert j got)"
    using rel' w hits j(1) by (intro exI [of _ "win_add w (i + j)"]) auto
  moreover have "n \<le> unat (l_rtp l') + card (insert j got)"
    using entry(2) decrease_rtp_Ok(1) [OF l'] fin j(2) by simp
  moreover have "pending_roc (rtp_add_index B ?db ?i) = None"
    by (simp add: rtp_add_index_def Let_def)
  ultimately have "awaits B m t i n (insert j got) ?v'"
    using recv_ok_step(1) [OF ok recv] al got j(1) by (simp add: awaits_def mki_aligned_def)
  with del(1) h(2) recv show thesis by (intro that)
qed

text \<open>A packet that came before is refused.\<close>

lemma awaits_refuses:
  assumes C: "crypto_laws C" and v: "awaits B m t i n got v" and j: "j \<in> got" "n < 32768" "i + n \<le> 2 ^ 48"
    and q: "sealed C t ssrc p (i + j) q"
  obtains h where "rtp_header_new q = Ok h" "rtp_ssrc h = ssrc"
    "recv_rtp_unprotect B C h q v = (v, [], Err InvalidPacketIndex)"
proof -
  from q obtain h where h: "rtp_header_new p = Ok h" "rtp_ssrc h = ssrc" "unat (seq_num h) = (i + j) mod 65536"
    and cipher: "transform_rtp_protect C t p h (ucast (drop_bit 16 (word_of_nat (i + j) :: u64))) = Ok q"
    by (auto simp: sealed_def)
  have "j < n" using v j(1) by (auto simp: awaits_def)
  note index = awaits_index [OF v this j(2,3) h(3)]
  from v obtain l where "recv_ok B v" "b_transforms (v_base v) m = Some (t, l)" by (auto simp: awaits_def)
  then have "transform_ok t" using base_ok_entry [of B "v_base v" m t l] by (simp add: recv_ok_def)
  then have "rtp_header_new q = Ok h"
    using dyn.rtp_header_kept [of C t p h, OF _ h(1) cipher] C by simp
  moreover have "rtp_seen_index B (b_rtp_index (v_base v)) (rtp_estimate_index (b_rtp_index (v_base v)) (seq_num h))"
    using index j(1) by (simp del: of_nat_add)
  then have "recv_rtp_unprotect B C h q v = (v, [], Err InvalidPacketIndex)"
    by (simp add: recv_rtp_unprotect_def Let_def)
  ultimately show thesis using h(2) by (intro that)
qed

section \<open>Sessions\<close>

lemma receiver_run:
  assumes C: "crypto_laws C" and n: "n < 32768" "i + n \<le> 2 ^ 48"
    and sealed: "\<forall>j < n. sealed C t ssrc (ps ! j) (i + j) (qs ! j)"
  shows "stream_for (recv_ops B C) ssrc r = Some v \<Longrightarrow> awaits B m t i n got v \<Longrightarrow> distinct js \<Longrightarrow>
    set js \<subseteq> {..<n} - got \<Longrightarrow>
    \<exists>r' v'. unprotect_all B C (map ((!) qs) js) r = (r', map (\<lambda>j. Ok (ps ! j)) js) \<and>
      stream_for (recv_ops B C) ssrc r' = Some v' \<and> awaits B m t i n (got \<union> set js) v'"
proof (induction js arbitrary: r v got)
  case Nil
  then show ?case by simp
next
  case (Cons j js)
  have j: "j < n" "j \<notin> got" and q: "sealed C t ssrc (ps ! j) (i + j) (qs ! j)"
    using Cons.prems(4) sealed by auto
  obtain h v1 calls where h: "rtp_header_new (qs ! j) = Ok h" "rtp_ssrc h = ssrc"
    and run: "recv_rtp_unprotect B C h (qs ! j) v = (v1, calls, Ok (ps ! j))" and v1: "awaits B m t i n (insert j got) v1"
    by (rule awaits_accepts [OF C Cons.prems(2) j n q])
  from on_stream_runs [OF Cons.prems(1), of "recv_rtp_unprotect B C h (qs ! j)"] run obtain r1 where
    r1: "rtp_unprotect B C (qs ! j) r = (r1, calls, Ok (ps ! j))" "stream_for (recv_ops B C) ssrc r1 = Some v1"
    by (auto simp: rtp_unprotect_def h)
  have "distinct js" "set js \<subseteq> {..<n} - insert j got" using Cons.prems(3,4) by auto
  from Cons.IH [OF r1(2) v1 this] obtain r' v' where
    "unprotect_all B C (map ((!) qs) js) r1 = (r', map (\<lambda>j. Ok (ps ! j)) js)"
    "stream_for (recv_ops B C) ssrc r' = Some v'" "awaits B m t i n (insert j got \<union> set js) v'"
    by blast
  with r1(1) show ?case by (intro exI [of _ r'] exI [of _ v']) simp
qed

text \<open>The stream that two new sessions start with.\<close>

lemma new_sender_at:
  assumes B: "biguint_laws B" and C: "crypto_laws C" and cfg: "deliverable cfg"
    and add: "add_stream (send_ops B C) [] order x cfg session_new = (s, Ok ())" "x \<in> {None, Some ssrc}"
    and family: "is_gcm (sc_rtp_profile cfg) = is_gcm (sc_rtcp_profile cfg)"
    and k: "k \<in> set (sc_keys cfg)" and i: "i < 2 ^ 16"
  obtains stream t where "stream_for (send_ops B C) ssrc s = Some stream" "r_index (b_rtp_index (s_base stream)) = 0"
    "sender_at B (mk_mki k) t (unat (sc_replay_window_size cfg)) i (unat (l_rtp (mk_lifetime k))) stream"
proof -
  have ok: "config_ok cfg" "valid_config cfg" "sc_replay_window_size cfg \<noteq> 0"
    using cfg by (simp_all add: deliverable_def config_ok_def)
  have valid: "validate cfg = Ok ()" using ok(2) by (simp add: validate_iff)
  obtain stream where new: "send_new B C ssrc cfg False = Ok stream"
    using base_new_outcome [OF C ok(1), of B ssrc False] family by (auto simp: send_new_def)
  have "stream_for (send_ops B C) ssrc s = Some stream"
    using add new valid by (auto simp: stream_for_def add_stream_def session_new_def get_stream_def send_ops_def)
  moreover have ready: "ready B (mk_mki k) i (unat (l_rtp (mk_lifetime k))) stream"
    by (rule ready_new [OF B C ok(2,3) new k i])
  moreover have "b_rtp_index (s_base stream) = rtp_replay_new B (sc_replay_window_size cfg)"
    using new by (auto simp: send_new_def outcome_simps elim: base_new_Ok)
  moreover obtain t l where "b_transforms (s_base stream) (mk_mki k) = Some (t, l)"
    using ready by (auto simp: ready_def)
  ultimately show thesis
    using that [of stream t] by (simp add: sender_at_def rtp_replay_new_def big_mask_def)
qed

lemma consecutive_append:
  "consecutive ssrc i (ps @ ps') \<longleftrightarrow> consecutive ssrc i ps \<and> consecutive ssrc (i + length ps) ps'"
  by (induction ps arbitrary: i) auto

lemma reordered_block:
  assumes B: "biguint_laws B" and C: "crypto_laws C" and cfg: "deliverable cfg"
    and family: "is_gcm (sc_rtp_profile cfg) = is_gcm (sc_rtcp_profile cfg)"
    and key: "key \<in> set (sc_keys cfg)" and x: "x \<in> {None, Some ssrc}"
    and ps: "consecutive ssrc i (ps @ block)" "i < 2 ^ 16" "length (ps @ block) \<le> unat (l_rtp (mk_lifetime key))"
      "i + length (ps @ block) \<le> 2 ^ 48"
    and n: "length block \<le> unat (sc_replay_window_size cfg)" "length block < 32768" "ps = [] \<longrightarrow> i + length block \<le> 32768"
    and s: "add_stream (send_ops B C) [] order x cfg session_new = (s, Ok ())"
    and r: "add_stream (recv_ops B C) [] order' x cfg session_new = (r, Ok ())"
  obtains s' qs r' blk where "protect_all B C (mk_mki key) (ps @ block) s = (s', map Ok (qs @ blk))"
    "length qs = length ps" "length blk = length block" "unprotect_all B C qs r = (r', map Ok ps)"
    "\<And>js. distinct js \<Longrightarrow> set js \<subseteq> {..<length block} \<Longrightarrow>
      \<exists>r''. unprotect_all B C (map ((!) blk) js) r' = (r'', map (\<lambda>j. Ok (block ! j)) js) \<and>
        (\<forall>j \<in> set js. snd (snd (rtp_unprotect B C (blk ! j) r'')) = Err InvalidPacketIndex)"
proof -
  let ?m = "mk_mki key" and ?w = "unat (sc_replay_window_size cfg)" and ?n = "length block" and ?i = "i + length ps"
  let ?lives = "unat (l_rtp (mk_lifetime key))"
  note step0 = add_stream_lockstep [OF B C cfg s r]
  obtain stream t where stream: "stream_for (send_ops B C) ssrc s = Some stream" "r_index (b_rtp_index (s_base stream)) = 0"
    "sender_at B ?m t ?w i ?lives stream"
    by (rule new_sender_at [OF B C cfg s x family key ps(2)])
  have run: "consecutive ssrc i ps" "consecutive ssrc ?i block" "length ps \<le> ?lives" "i + length ps \<le> 2 ^ 48"
    "?n \<le> ?lives - length ps" "?i + ?n \<le> 2 ^ 48"
    using ps by (simp_all add: consecutive_append)
  from sender_run [OF B C step0 stream(1,3) run(1,3,4)] obtain s1 r1 qs stream1 where
    first: "protect_all B C ?m ps s = (s1, map Ok qs)" "length qs = length ps" "unprotect_all B C qs r = (r1, map Ok ps)"
    and step1: "sessions_in_step B s1 r1" and stream1: "stream_for (send_ops B C) ssrc s1 = Some stream1"
      "sender_at B ?m t ?w ?i (?lives - length ps) stream1"
      "if ps = [] then stream1 = stream else Suc (unat (r_index (b_rtp_index (s_base stream1)))) = ?i"
    by blast
  from sender_run [OF B C step1 stream1(1,2) run(2,5,6)] obtain s2 blk where
    second: "protect_all B C ?m block s1 = (s2, map Ok blk)" "length blk = ?n"
    and sealed: "\<forall>j < ?n. sealed C t ssrc (block ! j) (?i + j) (blk ! j)"
    by blast
  show thesis
  proof (rule that [OF _ first(2) second(2) first(3)])
    show "protect_all B C ?m (ps @ block) s = (s2, map Ok (qs @ blk))"
      using first(1) second(1) by (simp add: protect_all_append)
  next
    fix js assume js: "distinct js" "set js \<subseteq> {..<?n}"
    show "\<exists>r''. unprotect_all B C (map ((!) blk) js) r1 = (r'', map (\<lambda>j. Ok (block ! j)) js) \<and>
        (\<forall>j \<in> set js. snd (snd (rtp_unprotect B C (blk ! j) r'')) = Err InvalidPacketIndex)"
    proof (cases "js = []")
      case False
      then have "0 < ?n" using js(2) by (cases js) auto
      obtain v where v: "stream_for (recv_ops B C) ssrc r1 = Some v" "in_step B stream1 v"
        using stream_for_lockstep [OF B C step1 stream1(1)] by blast
      have "sender_at B ?m t ?w ?i ?n stream1"
        using stream1(2) run(5) by (auto simp: sender_at_def ready_def)
      moreover have "?i + ?n \<le> unat (r_index (b_rtp_index (s_base stream1))) + 32768"
        using stream1(3) stream(2) n(2,3) by (cases "ps = []") auto
      ultimately have await: "awaits B ?m t ?i ?n {} v"
        using awaits_start [OF B v(2) _ \<open>0 < ?n\<close> n(1) _ run(6)] by blast
      from receiver_run [OF C n(2) run(6) sealed v(1) await js(1)] js(2) obtain r2 v2 where
        r2: "unprotect_all B C (map ((!) blk) js) r1 = (r2, map (\<lambda>j. Ok (block ! j)) js)"
          "stream_for (recv_ops B C) ssrc r2 = Some v2" "awaits B ?m t ?i ?n (set js) v2"
        by auto
      have "snd (snd (rtp_unprotect B C (blk ! j) r2)) = Err InvalidPacketIndex" if got: "j \<in> set js" for j
      proof -
        have sealed_j: "sealed C t ssrc (block ! j) (?i + j) (blk ! j)" using got js(2) sealed by auto
        obtain h where "rtp_header_new (blk ! j) = Ok h" "rtp_ssrc h = ssrc"
          "recv_rtp_unprotect B C h (blk ! j) v2 = (v2, [], Err InvalidPacketIndex)"
          by (rule awaits_refuses [OF C r2(3) got n(2) run(6) sealed_j])
        with on_stream_refuses [OF r2(2), of "recv_rtp_unprotect B C h (blk ! j)"] show ?thesis
          by (simp add: rtp_unprotect_def)
      qed
      with r2(1) show ?thesis by blast
    qed simp
  qed
qed

end
