(* ===== verification/Srtp_Follow_Ups.thy ===== *)
theory Srtp_Follow_Ups
  imports Srtp_Whole_Streams
begin

text \<open>
  Two calls in a row: the packet after \<^verbatim>\<open>set_roc\<close>, and a packet that is protected a second time.
\<close>

section \<open>A packet after \<^verbatim>\<open>set_roc\<close>\<close>

lemma pending_index_roc:
  "ucast (drop_bit 16 (push_bit 16 (ucast (roc :: u32)) OR ucast (seq :: u16) :: u64)) = roc"
proof -
  have "unat (ucast (drop_bit 16 (push_bit 16 (ucast roc) OR ucast seq :: u64)) :: u32) = unat roc"
    unfolding unat_roc pending_index_nat using unat_bounds(2) [of seq] unat_bounds(3) [of roc] by simp
  then show ?thesis by (rule unsigned_word_eqI)
qed

lemma roc_of_newest:
  assumes "unat (r_index db) < 2 ^ 48" "rtp_get_roc db \<le> roc"
  shows "rtp_get_roc (rtp_add_index B db (push_bit 16 (ucast roc) OR ucast (seq :: u16))) = roc"
proof -
  let ?i = "push_bit 16 (ucast roc) OR ucast seq :: u64"
  have "r_index (rtp_add_index B db ?i) = (if r_index db < ?i then ?i else r_index db)"
    by (simp add: rtp_add_index_def Let_def)
  then have "rtp_get_roc (rtp_add_index B db ?i) = (if r_index db < ?i then roc else rtp_get_roc db)"
    using pending_index_roc [of roc seq] by (cases "r_index db < ?i") (simp_all only: rtp_get_roc_def if_True if_False)
  moreover have "roc \<le> rtp_get_roc db" if "\<not> r_index db < ?i"
  proof -
    have "unat ?i div 65536 \<le> unat (r_index db) div 65536"
      using that by (simp add: div_le_mono not_less word_le_nat_alt)
    moreover have "unat ?i div 65536 = unat roc"
      using unat_bounds(2) [of seq] by (simp add: pending_index_nat)
    moreover have "unat (rtp_get_roc db) = unat (r_index db) div 65536"
      using assms(1) by (simp add: rtp_get_roc_def unat_roc)
    ultimately show ?thesis by (simp add: word_le_nat_alt)
  qed
  ultimately show ?thesis using assms(2) by auto
qed

lemma seen_set_roc: "rtp_seen_index B (rtp_set_roc db roc) i = rtp_seen_index B db i"
  by (simp add: rtp_seen_index_def rtp_set_roc_def)

lemma set_roc_refused:
  "streams r ssrc = None \<Longrightarrow> set_roc ssrc roc r = (r, Err StreamNotFound)"
  "streams r ssrc = Some (v, ft) \<Longrightarrow> roc < recv_get_roc v \<Longrightarrow> set_roc ssrc roc r = (r, Err InvalidPacketIndex)"
  by (simp_all add: set_roc_def recv_set_roc_def session_streams_triv)

lemma set_roc_accepted:
  "streams r ssrc = Some (v, ft) \<Longrightarrow> recv_get_roc v \<le> roc \<Longrightarrow> \<exists>r'. set_roc ssrc roc r = (r', Ok ())"
  by (simp add: set_roc_def recv_set_roc_def)

lemma set_roc_next:
  assumes C: "crypto_laws C" and v: "streams r ssrc = Some (v, ft)" "unat (r_index (b_rtp_index (v_base v))) < 2 ^ 48"
    and roc: "set_roc ssrc roc r = (r', Ok ())"
    and t: "transform_ok t" "mki_aligned v t m" "b_transforms (v_base v) m = Some (t, l)" "l_rtp l \<noteq> 0"
    and p: "rtp_header_new p = Ok h" "rtp_ssrc h = ssrc" "transform_rtp_protect C t p h roc = Ok q"
    and i: "unat i = unat roc * 65536 + unat (seq_num h)" "\<not> rtp_seen_index B (b_rtp_index (v_base v)) i"
  shows "\<exists>r'' calls. rtp_unprotect B C q r' = (r'', calls, Ok p) \<and> get_roc (recv_ops B C) ssrc r'' = Ok roc"
proof -
  let ?i = "push_bit 16 (ucast roc) OR ucast (seq_num h) :: u64"
  let ?v = "v\<lparr>v_base := (v_base v)\<lparr>b_rtp_index := rtp_set_roc (b_rtp_index (v_base v)) roc\<rparr>\<rparr>"
  let ?r = "r\<lparr>streams := (streams r)(ssrc \<mapsto> (?v, ft))\<rparr>"
  have i': "i = ?i"
    using i(1) by (simp add: word_unat_eq_iff pending_index_nat)
  have r': "r' = ?r" "recv_get_roc v \<le> roc"
    using v(1) roc by (auto simp: set_roc_def recv_set_roc_def split: if_splits)
  have est: "rtp_estimate_index (b_rtp_index (v_base ?v)) (seq_num h) = ?i"
    by (simp add: rtp_set_roc_def rtp_estimate_index_def)
  have fresh: "\<not> rtp_seen_index B (b_rtp_index (v_base ?v)) ?i"
    using i(2) by (simp add: i' seen_set_roc)
  have q: "transform_rtp_protect C t p h (ucast (drop_bit 16 ?i)) = Ok q"
    using p(3) by (simp only: pending_index_roc)
  have al: "mki_aligned ?v t m" "b_transforms (v_base ?v) m = Some (t, l)"
    using t by (simp_all add: mki_aligned_def)
  note delivery = rtp_delivery [OF C t(1) al t(4) p(1) q est fresh]
  from delivery(2) obtain l' calls where run: "recv_rtp_unprotect B C h q ?v =
      (?v\<lparr>v_base := with_index B (with_lives (v_base ?v) m t l') ?i\<rparr>, calls, Ok p)" (is "_ = (?v', _, _)")
    by blast
  have "rtp_unprotect B C q ?r = (?r\<lparr>streams := (streams ?r)(ssrc \<mapsto> (?v', ft))\<rparr>, calls, Ok p)"
    using delivery(1) run p(2) by (simp add: rtp_unprotect_def on_stream_def get_stream_def)
  moreover have "recv_get_roc ?v' = roc"
  proof -
    have "rtp_get_roc (rtp_set_roc (b_rtp_index (v_base v)) roc) \<le> roc"
      using r'(2) by (simp add: rtp_set_roc_def rtp_get_roc_def recv_get_roc_def base_get_roc_def)
    moreover have "unat (r_index (rtp_set_roc (b_rtp_index (v_base v)) roc)) < 2 ^ 48"
      using v(2) by (simp add: rtp_set_roc_def)
    ultimately show ?thesis
      using roc_of_newest by (simp add: recv_get_roc_def base_get_roc_def with_index_def with_lives_def)
  qed
  ultimately show ?thesis
    unfolding r'(1) by (simp add: get_roc_def recv_ops_def)
qed

section \<open>A packet that is protected again\<close>

lemma send_again:
  assumes B: "biguint_laws B" and db: "pending_roc (b_rtp_index (s_base s)) = None"
      "unat (rtp_estimate_index (b_rtp_index (s_base s)) (seq_num h)) < 2 ^ 48"
    and run: "send_rtp_protect B C h p m s = (s', calls, Ok q)"
  shows "\<not> b_allow_send_repeat (s_base s) \<Longrightarrow> send_rtp_protect B C h p m s' = (s', [], Err InvalidPacketIndex)"
    and "b_allow_send_repeat (s_base s) \<Longrightarrow> 0 < lives_left (s_base s') True m \<Longrightarrow>
      \<exists>s'' calls'. send_rtp_protect B C h p m s' = (s'', calls', Ok q)"
proof -
  from run obtain t l l' i where entry: "b_transforms (s_base s) m = Some (t, l)"
    and i: "i = rtp_estimate_index (b_rtp_index (s_base s)) (seq_num h)"
    and q: "transform_rtp_protect C t p h (ucast (drop_bit 16 i)) = Ok q"
    and s': "s' = s\<lparr>s_base := with_index B (with_lives (s_base s) m t l') i\<rparr>"
    by (rule send_rtp_protect_Ok)
  have b': "b_rtp_index (s_base s') = rtp_add_index B (b_rtp_index (s_base s)) i"
      "b_allow_send_repeat (s_base s') = b_allow_send_repeat (s_base s)" "b_transforms (s_base s') m = Some (t, l')"
    by (simp_all add: s' with_index_def with_lives_def)
  have i': "rtp_estimate_index (rtp_add_index B (b_rtp_index (s_base s)) i) (seq_num h) = i"
    by (rule estimate_again [OF db(1) i]) (use db(2) i in simp)
  show "\<not> b_allow_send_repeat (s_base s) \<Longrightarrow> send_rtp_protect B C h p m s' = (s', [], Err InvalidPacketIndex)"
    using rtp_add_seen [OF B] by (simp add: send_rtp_protect_def Let_def i' b')
  assume rep: "b_allow_send_repeat (s_base s)" and alive: "0 < lives_left (s_base s') True m"
  then have "snd (check_key_limit (s_base s') True m) = Ok ()" by (simp add: check_key_limit_Ok_iff)
  moreover have "l_rtp l' \<noteq> 0" using alive b'(3) by (auto simp: lives_left_def)
  then obtain l'' where "decrease_rtp l' = Ok l''" by (cases "decrease_rtp l'") auto
  ultimately show "\<exists>s'' calls'. send_rtp_protect B C h p m s' = (s'', calls', Ok q)"
    using rep q by (simp add: send_rtp_protect_def Let_def i' b' split_beta)
qed

lemma protect_again:
  assumes B: "biguint_laws B" and p: "rtp_header_new p = Ok h"
    and t: "stream_for (send_ops B C) (rtp_ssrc h) s = Some t" "pending_roc (b_rtp_index (s_base t)) = None"
      "unat (rtp_estimate_index (b_rtp_index (s_base t)) (seq_num h)) < 2 ^ 48"
    and run: "rtp_protect_mki B C p m s = (s', calls, Ok q)"
  shows "\<exists>t'. stream_for (send_ops B C) (rtp_ssrc h) s' = Some t' \<and>
    (\<not> b_allow_send_repeat (s_base t) \<longrightarrow> snd (snd (rtp_protect_mki B C p m s')) = Err InvalidPacketIndex) \<and>
    (b_allow_send_repeat (s_base t) \<and> 0 < lives_left (s_base t') True m \<longrightarrow>
      snd (snd (rtp_protect_mki B C p m s')) = Ok q)"
proof -
  obtain t' calls1 r where f: "send_rtp_protect B C h p m t = (t', calls1, r)"
    by (cases "send_rtp_protect B C h p m t")
  have r: "r = Ok q"
    using run t(1) f by (cases r) (auto simp: rtp_protect_mki_def p stream_for_iff on_stream_def)
  from on_stream_runs [OF t(1), of "send_rtp_protect B C h p m", OF f [unfolded r]] run have t': "stream_for (send_ops B C) (rtp_ssrc h) s' = Some t'"
    by (auto simp: rtp_protect_mki_def p)
  note again = send_again [OF B t(2,3) f [unfolded r]]
  have "snd (snd (rtp_protect_mki B C p m s')) = Err InvalidPacketIndex" if "\<not> b_allow_send_repeat (s_base t)"
    using on_stream_refuses [OF t', of "send_rtp_protect B C h p m", OF again(1) [OF that]] by (simp add: rtp_protect_mki_def p)
  moreover have "snd (snd (rtp_protect_mki B C p m s')) = Ok q"
    if rep: "b_allow_send_repeat (s_base t)" "0 < lives_left (s_base t') True m"
  proof -
    obtain t'' calls' where "send_rtp_protect B C h p m t' = (t'', calls', Ok q)"
      using again(2) [OF rep] by blast
    from on_stream_runs [OF t', of "send_rtp_protect B C h p m", OF this] obtain s'' where
      "on_stream (send_ops B C) (rtp_ssrc h) (send_rtp_protect B C h p m) s' = (s'', calls', Ok q)" by blast
    then show ?thesis by (simp add: rtp_protect_mki_def p)
  qed
  ultimately show ?thesis using t' by (intro exI [of _ t'] conjI impI) simp_all
qed

end
