(* ===== verification/Srtp_Standards.thy ===== *)
theory Srtp_Standards
  imports Srtp_External
begin

text \<open>
  The published algorithms behind the external crates, as an instance of the record \<open>crypto\<close>: AES
  (FIPS 197) in counter mode and in Galois/counter mode (SP 800-38A, SP 800-38D), SHA-1 (FIPS 180-4) and
  HMAC (FIPS 198-1). They are written from the standards, not from the code of the crates, which is
  not part of the repository. The development stays generic in \<open>crypto\<close>; this instance shows that
  the hypotheses \<open>crypto_laws\<close> hold of the algorithms the crates name, and lets the test vectors of
  the repository be evaluated. It is written on Booleans, which the simplifier computes fast.
\<close>

section \<open>Bits, bytes and words\<close>

fun xor_bit :: "bool \<Rightarrow> bool \<Rightarrow> bool" where
  "xor_bit True True = False"
| "xor_bit True False = True"
| "xor_bit False True = True"
| "xor_bit False False = False"

text \<open>The most significant bit first; a word has the most significant byte first.\<close>

datatype byte = Byte bool bool bool bool bool bool bool bool
datatype w32 = W byte byte byte byte
datatype block = Block w32 w32 w32 w32

definition byte_zero :: byte where
  "byte_zero = Byte False False False False False False False False"

definition w_zero :: w32 where "w_zero = W byte_zero byte_zero byte_zero byte_zero"
definition block_zero :: block where "block_zero = Block w_zero w_zero w_zero w_zero"

definition to_byte :: "u8 \<Rightarrow> byte" where
  "to_byte w = (let k = uint w in
     Byte (bit k 7) (bit k 6) (bit k 5) (bit k 4) (bit k 3) (bit k 2) (bit k 1) (bit k 0))"

fun add_bit :: "int \<Rightarrow> bool \<Rightarrow> int" where
  "add_bit k b = (if b then 2 * k + 1 else 2 * k)"

fun from_byte :: "byte \<Rightarrow> u8" where
  "from_byte (Byte a b c d e f g h) = word_of_int (foldl add_bit 0 [a, b, c, d, e, f, g, h])"

definition to_w32 :: "u8 \<Rightarrow> u8 \<Rightarrow> u8 \<Rightarrow> u8 \<Rightarrow> w32" where
  "to_w32 a b c d = W (to_byte a) (to_byte b) (to_byte c) (to_byte d)"

fun to_words :: "bytes \<Rightarrow> w32 list" where
  "to_words (a # b # c # d # bs) = to_w32 a b c d # to_words bs"
| "to_words _ = []"

fun to_blocks :: "w32 list \<Rightarrow> block list" where
  "to_blocks (a # b # c # d # ws) = Block a b c d # to_blocks ws"
| "to_blocks _ = []"

fun from_w32 :: "w32 \<Rightarrow> bytes" where
  "from_w32 (W a b c d) = [from_byte a, from_byte b, from_byte c, from_byte d]"

fun from_block :: "block \<Rightarrow> bytes" where
  "from_block (Block a b c d) = from_w32 a @ from_w32 b @ from_w32 c @ from_w32 d"

lemma length_from_w32 [simp]: "length (from_w32 w) = 4"
  by (cases w) simp

lemma length_from_block [simp]: "length (from_block b) = 16"
  by (cases b) simp

fun byte_xor :: "byte \<Rightarrow> byte \<Rightarrow> byte" where
  "byte_xor (Byte a b c d e f g h) (Byte i j k l m n p q) =
     Byte (xor_bit a i) (xor_bit b j) (xor_bit c k) (xor_bit d l)
       (xor_bit e m) (xor_bit f n) (xor_bit g p) (xor_bit h q)"

fun w_xor :: "w32 \<Rightarrow> w32 \<Rightarrow> w32" where
  "w_xor (W a b c d) (W e f g h) = W (byte_xor a e) (byte_xor b f) (byte_xor c g) (byte_xor d h)"

fun block_xor :: "block \<Rightarrow> block \<Rightarrow> block" where
  "block_xor (Block a b c d) (Block e f g h) = Block (w_xor a e) (w_xor b f) (w_xor c g) (w_xor d h)"

text \<open>Addition modulo \<open>2^32\<close>: a full adder, its chain on bytes with the carry, and on words.\<close>

fun add_bits :: "bool \<Rightarrow> bool \<Rightarrow> bool \<Rightarrow> bool \<times> bool" where
  "add_bits False False c = (False, c)"
| "add_bits False True c = (c, \<not> c)"
| "add_bits True False c = (c, \<not> c)"
| "add_bits True True c = (True, c)"

fun byte_add :: "bool \<Rightarrow> byte \<Rightarrow> byte \<Rightarrow> bool \<times> byte" where
  "byte_add c (Byte a7 a6 a5 a4 a3 a2 a1 a0) (Byte b7 b6 b5 b4 b3 b2 b1 b0) =
     (let (c, s0) = add_bits a0 b0 c; (c, s1) = add_bits a1 b1 c; (c, s2) = add_bits a2 b2 c;
          (c, s3) = add_bits a3 b3 c; (c, s4) = add_bits a4 b4 c; (c, s5) = add_bits a5 b5 c;
          (c, s6) = add_bits a6 b6 c; (c, s7) = add_bits a7 b7 c
      in (c, Byte s7 s6 s5 s4 s3 s2 s1 s0))"

fun w_add :: "w32 \<Rightarrow> w32 \<Rightarrow> w32" where
  "w_add (W a3 a2 a1 a0) (W b3 b2 b1 b0) =
     (let (c, s0) = byte_add False a0 b0; (c, s1) = byte_add c a1 b1;
          (c, s2) = byte_add c a2 b2; (c, s3) = byte_add c a3 b3
      in W s3 s2 s1 s0)"

text \<open>Shifts by one bit; the bit that comes in is an argument.\<close>

fun byte_left :: "byte \<Rightarrow> bool \<Rightarrow> byte" where
  "byte_left (Byte a b c d e f g h) x = Byte b c d e f g h x"

fun byte_right :: "bool \<Rightarrow> byte \<Rightarrow> byte" where
  "byte_right x (Byte a b c d e f g h) = Byte x a b c d e f g"

fun msb :: "byte \<Rightarrow> bool" where "msb (Byte a b c d e f g h) = a"
fun lsb :: "byte \<Rightarrow> bool" where "lsb (Byte a b c d e f g h) = h"

fun rotl :: "w32 \<Rightarrow> w32" where
  "rotl (W a b c d) =
     W (byte_left a (msb b)) (byte_left b (msb c)) (byte_left c (msb d)) (byte_left d (msb a))"

fun rotr :: "w32 \<Rightarrow> w32" where
  "rotr (W a b c d) =
     W (byte_right (lsb d) a) (byte_right (lsb a) b) (byte_right (lsb b) c) (byte_right (lsb c) d)"

fun w_right :: "bool \<Rightarrow> w32 \<Rightarrow> w32" where
  "w_right x (W a b c d) =
     W (byte_right x a) (byte_right (lsb a) b) (byte_right (lsb b) c) (byte_right (lsb c) d)"

fun w_lsb :: "w32 \<Rightarrow> bool" where "w_lsb (W a b c d) = lsb d"

section \<open>AES\<close>

subsection \<open>The field of 256 elements\<close>

fun xtime :: "byte \<Rightarrow> byte" where
  "xtime (Byte a b c d e f g h) = Byte b c d (xor_bit e a) (xor_bit f a) g (xor_bit h a) a"

fun mul_step :: "byte \<Rightarrow> bool \<Rightarrow> byte \<Rightarrow> byte" where
  "mul_step x True y = byte_xor (xtime y) x"
| "mul_step x False y = xtime y"

fun byte_mul :: "byte \<Rightarrow> byte \<Rightarrow> byte" where
  "byte_mul x (Byte a b c d e f g h) =
     mul_step x h (mul_step x g (mul_step x f (mul_step x e
       (mul_step x d (mul_step x c (mul_step x b (mul_step x a byte_zero)))))))"

text \<open>Squaring is linear.\<close>

fun byte_square :: "byte \<Rightarrow> byte" where
  "byte_square (Byte a b c d e f g h) =
     Byte (xor_bit a b) (xor_bit c e) (xor_bit b c) (xor_bit a (xor_bit d f))
       (xor_bit (xor_bit a b) (xor_bit c d)) (xor_bit c g) (xor_bit (xor_bit a b) d) (xor_bit (xor_bit b d) h)"

text \<open>The inverse is the 254th power.\<close>

definition byte_inverse :: "byte \<Rightarrow> byte" where
  "byte_inverse x =
     (let x2 = byte_square x; x3 = byte_mul x x2; x12 = byte_square (byte_square x3); x15 = byte_mul x3 x12;
          x240 = byte_square (byte_square (byte_square (byte_square x15)))
      in byte_mul (byte_mul x240 x12) x2)"

fun byte_rotl :: "byte \<Rightarrow> byte" where
  "byte_rotl (Byte a b c d e f g h) = Byte b c d e f g h a"

definition sbox :: "byte \<Rightarrow> byte" where
  "sbox x =
     (let y = byte_inverse x; y1 = byte_rotl y; y2 = byte_rotl y1; y3 = byte_rotl y2; y4 = byte_rotl y3 in
      byte_xor y (byte_xor y1 (byte_xor y2 (byte_xor y3 (byte_xor y4
        (Byte False True True False False False True True))))))"

subsection \<open>Key expansion\<close>

fun sub_word :: "w32 \<Rightarrow> w32" where
  "sub_word (W a b c d) = W (sbox a) (sbox b) (sbox c) (sbox d)"

fun rot_word :: "w32 \<Rightarrow> w32" where
  "rot_word (W a b c d) = W b c d a"

fun chain_words :: "w32 \<Rightarrow> w32 list \<Rightarrow> w32 list" where
  "chain_words t [] = []"
| "chain_words t (w # ws) = (let u = w_xor w t in u # chain_words u ws)"

text \<open>The next words of the schedule, as many as the key has; a 256-bit key substitutes in between.\<close>

definition next_words :: "byte \<Rightarrow> w32 list \<Rightarrow> w32 list" where
  "next_words rc ws =
     (let t = w_xor (sub_word (rot_word (last ws))) (W rc byte_zero byte_zero byte_zero) in
      if length ws = 8 then
        let us = chain_words t (take 4 ws) in us @ chain_words (sub_word (last us)) (drop 4 ws)
      else chain_words t ws)"

fun schedule :: "byte \<Rightarrow> nat \<Rightarrow> w32 list \<Rightarrow> w32 list" where
  "schedule rc 0 ws = ws"
| "schedule rc (Suc n) ws = ws @ schedule (xtime rc) n (next_words rc ws)"

fun round_keys :: "aes_variant \<Rightarrow> bytes \<Rightarrow> block list" where
  "round_keys Aes128 key = take 11 (to_blocks (schedule (to_byte 1) 10 (to_words key)))"
| "round_keys Aes192 key = take 13 (to_blocks (schedule (to_byte 1) 8 (to_words key)))"
| "round_keys Aes256 key = take 15 (to_blocks (schedule (to_byte 1) 7 (to_words key)))"

subsection \<open>The cipher\<close>

fun sub_bytes :: "block \<Rightarrow> block" where
  "sub_bytes (Block a b c d) = Block (sub_word a) (sub_word b) (sub_word c) (sub_word d)"

fun shift_rows :: "block \<Rightarrow> block" where
  "shift_rows (Block (W a0 a1 a2 a3) (W b0 b1 b2 b3) (W c0 c1 c2 c3) (W d0 d1 d2 d3)) =
     Block (W a0 b1 c2 d3) (W b0 c1 d2 a3) (W c0 d1 a2 b3) (W d0 a1 b2 c3)"

fun mix_column :: "w32 \<Rightarrow> w32" where
  "mix_column (W a b c d) =
     (let t = byte_xor (byte_xor a b) (byte_xor c d) in
      W (byte_xor (byte_xor a t) (xtime (byte_xor a b))) (byte_xor (byte_xor b t) (xtime (byte_xor b c)))
        (byte_xor (byte_xor c t) (xtime (byte_xor c d))) (byte_xor (byte_xor d t) (xtime (byte_xor d a))))"

fun mix_columns :: "block \<Rightarrow> block" where
  "mix_columns (Block a b c d) = Block (mix_column a) (mix_column b) (mix_column c) (mix_column d)"

fun aes_rounds :: "block \<Rightarrow> block list \<Rightarrow> block" where
  "aes_rounds s [] = s"
| "aes_rounds s [k] = block_xor (shift_rows (sub_bytes s)) k"
| "aes_rounds s (k # ks) = aes_rounds (block_xor (mix_columns (shift_rows (sub_bytes s))) k) ks"

definition aes_encrypt :: "block list \<Rightarrow> block \<Rightarrow> block" where
  "aes_encrypt ks b = (case ks of [] \<Rightarrow> b | k # ks \<Rightarrow> aes_rounds (block_xor b k) ks)"

section \<open>Counter mode\<close>

text \<open>The counter is the last word of the block, as in \<^verbatim>\<open>Ctr32BE\<close> and in GCM.\<close>

fun inc32 :: "block \<Rightarrow> block" where
  "inc32 (Block a b c d) = Block a b c (w_add d (to_w32 0 0 0 1))"

definition first_block :: "bytes \<Rightarrow> block" where
  "first_block bs = (case to_blocks (to_words bs) of [] \<Rightarrow> block_zero | b # _ \<Rightarrow> b)"

function ctr_xor :: "block list \<Rightarrow> block \<Rightarrow> bytes \<Rightarrow> bytes" where
  "ctr_xor ks c data =
     (if data = [] then []
      else map2 (XOR) (take 16 data) (from_block (aes_encrypt ks c)) @ ctr_xor ks (inc32 c) (drop 16 data))"
  by pat_completeness auto
termination by (relation "measure (\<lambda>(ks, c, data). length data)") (auto simp: neq_Nil_conv)

declare ctr_xor.simps [simp del]

text \<open>A key stream has \<open>2^32\<close> blocks.\<close>

definition stream_left :: "bytes \<Rightarrow> bool" where
  "stream_left data \<longleftrightarrow> int (length data) \<le> 0x1000000000"

definition std_aes_ctr :: "aes_variant \<Rightarrow> bytes \<Rightarrow> bytes \<Rightarrow> bytes \<Rightarrow> bytes option" where
  "std_aes_ctr v key iv data =
     (if stream_left data then Some (ctr_xor (round_keys v key) (first_block iv) data) else None)"

lemma length_ctr_xor [simp]: "length (ctr_xor ks c data) = length data"
proof (induction ks c data rule: ctr_xor.induct)
  case (1 ks c data)
  show ?case
  proof (cases "data = []")
    case False
    then show ?thesis
      using 1 by (subst ctr_xor.simps) simp
  qed (simp add: ctr_xor.simps)
qed

lemma xor_twice: "length ks = 16 \<Longrightarrow> length d \<le> 16 \<Longrightarrow> map2 (XOR) (map2 (XOR) d ks) ks = (d :: bytes)"
  by (rule nth_equalityI) (simp_all add: xor.assoc)

lemma ctr_xor_involution: "ctr_xor ks c (ctr_xor ks c data) = data"
proof (induction ks c data rule: ctr_xor.induct)
  case (1 ks c data)
  show ?case
  proof (cases "data = []")
    case False
    let ?k = "from_block (aes_encrypt ks c)"
    let ?h = "map2 (XOR) (take 16 data) ?k" and ?t = "ctr_xor ks (inc32 c) (drop 16 data)"
    have unfold: "ctr_xor ks c data = ?h @ ?t"
      using False by (subst ctr_xor.simps) simp
    have cut: "take 16 (?h @ ?t) = ?h" "drop 16 (?h @ ?t) = ?t"
      by (cases "16 \<le> length data"; simp add: min_def ctr_xor.simps)+
    have "length (?h @ ?t) = length data"
      using length_ctr_xor [of ks c data] by (simp only: unfold)
    then have "?h @ ?t \<noteq> []" using False by (metis length_0_conv)
    then have "ctr_xor ks c (?h @ ?t) = map2 (XOR) ?h ?k @ ctr_xor ks (inc32 c) ?t"
      by (subst ctr_xor.simps) (simp only: cut if_False)
    also have "\<dots> = take 16 data @ drop 16 data"
      using 1 [OF False] by (simp only: xor_twice length_from_block length_take min.cobounded2)
    finally show ?thesis by (simp add: unfold)
  qed (simp add: ctr_xor.simps)
qed

section \<open>Galois/counter mode\<close>

text \<open>Multiplication in the field of \<open>2^128\<close> elements: both operands have the first bit as the constant term.\<close>

fun gf_shift :: "block \<Rightarrow> block" where
  "gf_shift (Block a b c d) =
     (case w_right False a of W x y z w \<Rightarrow>
        Block (W (if w_lsb d then byte_xor x (Byte True True True False False False False True) else x) y z w)
          (w_right (w_lsb a) b) (w_right (w_lsb b) c) (w_right (w_lsb c) d))"

fun gf_step :: "bool \<Rightarrow> block \<times> block \<Rightarrow> block \<times> block" where
  "gf_step b (v, z) = (gf_shift v, if b then block_xor z v else z)"

fun gf_byte :: "byte \<Rightarrow> block \<times> block \<Rightarrow> block \<times> block" where
  "gf_byte (Byte a b c d e f g h) s =
     gf_step h (gf_step g (gf_step f (gf_step e (gf_step d (gf_step c (gf_step b (gf_step a s)))))))"

fun gf_word :: "w32 \<Rightarrow> block \<times> block \<Rightarrow> block \<times> block" where
  "gf_word (W a b c d) s = gf_byte d (gf_byte c (gf_byte b (gf_byte a s)))"

fun gf_mul :: "block \<Rightarrow> block \<Rightarrow> block" where
  "gf_mul (Block a b c d) y = snd (gf_word d (gf_word c (gf_word b (gf_word a (y, block_zero)))))"

fun ghash :: "block \<Rightarrow> block list \<Rightarrow> block \<Rightarrow> block" where
  "ghash h [] y = y"
| "ghash h (x # xs) y = ghash h xs (gf_mul (block_xor y x) h)"

definition pad16 :: "bytes \<Rightarrow> bytes" where
  "pad16 bs = bs @ replicate ((16 - length bs mod 16) mod 16) 0"

definition be64 :: "nat \<Rightarrow> bytes" where
  "be64 n = (let w = word_of_int (int n) :: u64 in to_be_bytes32 (ucast (drop_bit 32 w)) @ to_be_bytes32 (ucast w))"

definition gcm_tag :: "block list \<Rightarrow> block \<Rightarrow> bytes \<Rightarrow> bytes \<Rightarrow> bytes" where
  "gcm_tag ks j0 ad c =
     (let h = aes_encrypt ks block_zero;
          s = ghash h (to_blocks (to_words (pad16 ad @ pad16 c @ be64 (8 * length ad) @ be64 (8 * length c)))) block_zero
      in from_block (block_xor (aes_encrypt ks j0) s))"

definition gcm_j0 :: "bytes \<Rightarrow> block" where
  "gcm_j0 nonce = first_block (nonce @ [0, 0, 0, 1])"

definition std_gcm_encrypt :: "aes_variant \<Rightarrow> bytes \<Rightarrow> bytes \<Rightarrow> bytes \<Rightarrow> bytes \<Rightarrow> (bytes \<times> bytes) option" where
  "std_gcm_encrypt v key nonce ad data =
     (if stream_left ad \<and> stream_left data then
        let ks = round_keys v key; j0 = gcm_j0 nonce; c = ctr_xor ks (inc32 j0) data
        in Some (c, gcm_tag ks j0 ad c)
      else None)"

definition std_gcm_decrypt :: "aes_variant \<Rightarrow> bytes \<Rightarrow> bytes \<Rightarrow> bytes \<Rightarrow> bytes \<Rightarrow> bytes \<Rightarrow> bytes option" where
  "std_gcm_decrypt v key nonce ad c tag =
     (if stream_left ad \<and> stream_left c then
        let ks = round_keys v key; j0 = gcm_j0 nonce
        in if tag = gcm_tag ks j0 ad c then Some (ctr_xor ks (inc32 j0) c) else None
      else None)"

section \<open>SHA-1 and HMAC\<close>

fun choose_bit :: "bool \<Rightarrow> bool \<Rightarrow> bool \<Rightarrow> bool" where
  "choose_bit True b c = b"
| "choose_bit False b c = c"

fun parity_bit :: "bool \<Rightarrow> bool \<Rightarrow> bool \<Rightarrow> bool" where
  "parity_bit a b c = xor_bit a (xor_bit b c)"

fun majority_bit :: "bool \<Rightarrow> bool \<Rightarrow> bool \<Rightarrow> bool" where
  "majority_bit True b c = (b \<or> c)"
| "majority_bit False b c = (b \<and> c)"

fun byte_map3 :: "(bool \<Rightarrow> bool \<Rightarrow> bool \<Rightarrow> bool) \<Rightarrow> byte \<Rightarrow> byte \<Rightarrow> byte \<Rightarrow> byte" where
  "byte_map3 F (Byte a b c d e f g h) (Byte i j k l m n p q) (Byte r s t u v w x y) =
     Byte (F a i r) (F b j s) (F c k t) (F d l u) (F e m v) (F f n w) (F g p x) (F h q y)"

fun w_map3 :: "(bool \<Rightarrow> bool \<Rightarrow> bool \<Rightarrow> bool) \<Rightarrow> w32 \<Rightarrow> w32 \<Rightarrow> w32 \<Rightarrow> w32" where
  "w_map3 F (W a b c d) (W e f g h) (W i j k l) =
     W (byte_map3 F a e i) (byte_map3 F b f j) (byte_map3 F c g k) (byte_map3 F d h l)"

type_synonym sha1_state = "w32 \<times> w32 \<times> w32 \<times> w32 \<times> w32"

text \<open>Rounds with one function and one constant; the message schedule is a window of 16 words.\<close>

fun sha1_rounds ::
    "(bool \<Rightarrow> bool \<Rightarrow> bool \<Rightarrow> bool) \<Rightarrow> w32 \<Rightarrow> nat \<Rightarrow> sha1_state \<times> w32 list \<Rightarrow> sha1_state \<times> w32 list" where
  "sha1_rounds F k 0 st = st"
| "sha1_rounds F k (Suc n)
     ((a, b, c, d, e), [m0, m1, m2, m3, m4, m5, m6, m7, m8, m9, m10, m11, m12, m13, m14, m15]) =
     sha1_rounds F k n
       ((w_add (w_add (rotl (rotl (rotl (rotl (rotl a))))) (w_map3 F b c d)) (w_add (w_add e k) m0),
         a, rotr (rotr b), c, d),
        [m1, m2, m3, m4, m5, m6, m7, m8, m9, m10, m11, m12, m13, m14, m15,
         rotl (w_xor (w_xor m13 m8) (w_xor m2 m0))])"

fun sha1_add :: "sha1_state \<Rightarrow> sha1_state \<Rightarrow> sha1_state" where
  "sha1_add (a, b, c, d, e) (a', b', c', d', e') = (w_add a a', w_add b b', w_add c c', w_add d d', w_add e e')"

definition sha1_compress :: "sha1_state \<Rightarrow> w32 list \<Rightarrow> sha1_state" where
  "sha1_compress h ws = sha1_add h (fst
     (sha1_rounds parity_bit (to_w32 0xca 0x62 0xc1 0xd6) 20
     (sha1_rounds majority_bit (to_w32 0x8f 0x1b 0xbc 0xdc) 20
     (sha1_rounds parity_bit (to_w32 0x6e 0xd9 0xeb 0xa1) 20
     (sha1_rounds choose_bit (to_w32 0x5a 0x82 0x79 0x99) 20 (h, ws))))))"

function sha1_blocks :: "sha1_state \<Rightarrow> w32 list \<Rightarrow> sha1_state" where
  "sha1_blocks h ws = (if ws = [] then h else sha1_blocks (sha1_compress h (take 16 ws)) (drop 16 ws))"
  by pat_completeness auto
termination by (relation "measure (\<lambda>(h, ws). length ws)") (auto simp: neq_Nil_conv)

declare sha1_blocks.simps [simp del]

definition sha1_init :: sha1_state where
  "sha1_init = (to_w32 0x67 0x45 0x23 0x01, to_w32 0xef 0xcd 0xab 0x89, to_w32 0x98 0xba 0xdc 0xfe,
     to_w32 0x10 0x32 0x54 0x76, to_w32 0xc3 0xd2 0xe1 0xf0)"

definition sha1_pad :: "bytes \<Rightarrow> bytes" where
  "sha1_pad msg = msg @ [0x80] @ replicate ((119 - length msg mod 64) mod 64) 0 @ be64 (8 * length msg)"

fun sha1_digest :: "sha1_state \<Rightarrow> bytes" where
  "sha1_digest (a, b, c, d, e) = from_w32 a @ from_w32 b @ from_w32 c @ from_w32 d @ from_w32 e"

definition sha1 :: "bytes \<Rightarrow> bytes" where
  "sha1 msg = sha1_digest (sha1_blocks sha1_init (to_words (sha1_pad msg)))"

definition hmac_key :: "bytes \<Rightarrow> bytes" where
  "hmac_key key = (let k = (if 64 < length key then sha1 key else key) in k @ replicate (64 - length k) 0)"

definition std_hmac_sha1 :: "bytes \<Rightarrow> bytes \<Rightarrow> bytes option" where
  "std_hmac_sha1 key msg =
     (let k = hmac_key key in
      Some (sha1 (map2 (XOR) k (replicate 64 0x5c) @ sha1 (map2 (XOR) k (replicate 64 0x36) @ msg))))"

lemma length_sha1 [simp]: "length (sha1 msg) = 20"
  by (cases "sha1_blocks sha1_init (to_words (sha1_pad msg))") (simp add: sha1_def)

section \<open>The instance\<close>

definition std_crypto :: crypto where
  "std_crypto =
     \<lparr>aes_ctr = std_aes_ctr,
      hmac_sha1 = std_hmac_sha1,
      gcm_encrypt = std_gcm_encrypt,
      gcm_decrypt = std_gcm_decrypt,
      ct_eq = (=)\<rparr>"

lemma stream_left_max: "length d \<le> max_message \<Longrightarrow> stream_left d"
  by (simp add: stream_left_def max_message_def)

lemma stream_left_ctr [simp]: "stream_left (ctr_xor ks c d) = stream_left d"
  by (simp add: stream_left_def)

lemma length_gcm_tag [simp]: "length (gcm_tag ks j0 ad c) = 16"
  by (simp add: gcm_tag_def Let_def)

lemma std_ctr_laws: "ctr_laws std_crypto"
  by (auto simp: ctr_laws_def std_crypto_def std_aes_ctr_def ctr_xor_involution stream_left_max
      split: if_splits)

lemma std_hmac_laws: "hmac_laws std_crypto"
  by (simp add: hmac_laws_def std_crypto_def std_hmac_sha1_def Let_def)

lemma std_gcm_laws: "gcm_laws std_crypto"
  by (auto simp: gcm_laws_def std_crypto_def std_gcm_encrypt_def std_gcm_decrypt_def Let_def
      ctr_xor_involution stream_left_max split: if_splits)

lemma std_crypto_laws: "crypto_laws std_crypto"
  using std_ctr_laws std_hmac_laws std_gcm_laws by (simp add: crypto_laws_def) (simp add: std_crypto_def)

end
