(* ===== verification/Srtp_Test_Vectors.thy ===== *)
theory Srtp_Test_Vectors
  imports Srtp_Standards Srtp_Transform
begin

text \<open>
  The packets and keys of the unit tests of \<^verbatim>\<open>key_derivation.rs\<close>, \<^verbatim>\<open>transform/aes_cm_sha1.rs\<close>,
  \<^verbatim>\<open>transform/aes_gcm.rs\<close> and \<^verbatim>\<open>stream.rs\<close>, which repeat the same literals, and the values of the
  published algorithms on them: session keys, key streams and authentication codes, each evaluated once.
\<close>

section \<open>Literals of the tests\<close>

text \<open>The packets of libsrtp's test driver, plain and protected with each family of profiles.\<close>

definition key_128 :: bytes where
  "key_128 = [0xe1, 0xf9, 0x7a, 0x0d, 0x3e, 0x01, 0x8b, 0xe0, 0xd6, 0x4f, 0xa3, 0x2c, 0x06, 0xde, 0x41, 0x39]"

definition salt_128 :: bytes where
  "salt_128 = [0x0e, 0xc6, 0x75, 0xad, 0x49, 0x8a, 0xfe, 0xeb, 0xb6, 0x96, 0x0b, 0x3a, 0xab, 0xe6]"

definition key_192 :: bytes where
  "key_192 = [0x73, 0xed, 0xc6, 0x6c, 0x4f, 0xa1, 0x57, 0x76, 0xfb, 0x57, 0xf9, 0x50, 0x5c, 0x17, 0x13, 0x65,
              0x50, 0xff, 0xda, 0x71, 0xf3, 0xe8, 0xe5, 0xf1]"

definition salt_192 :: bytes where
  "salt_192 = [0xc8, 0x52, 0x2f, 0x3a, 0xcd, 0x4c, 0xe8, 0x6d, 0x5a, 0xdd, 0x78, 0xed, 0xbb, 0x11]"

definition key_256 :: bytes where
  "key_256 = [0xf0, 0xf0, 0x49, 0x14, 0xb5, 0x13, 0xf2, 0x76, 0x3a, 0x1b, 0x1f, 0xa1, 0x30, 0xf1, 0x0e, 0x29,
              0x98, 0xf6, 0xf6, 0xe4, 0x3e, 0x43, 0x09, 0xd1, 0xe6, 0x22, 0xa0, 0xe3, 0x32, 0xb9, 0xf1, 0xb6]"

definition salt_256 :: bytes where
  "salt_256 = [0x3b, 0x04, 0x80, 0x3d, 0xe5, 0x1e, 0xe7, 0xc9, 0x64, 0x23, 0xab, 0x5b, 0x78, 0xd2]"

definition driver_rtp :: bytes where
  "driver_rtp = [0x80, 0x0f, 0x12, 0x34, 0xde, 0xca, 0xfb, 0xad, 0xca, 0xfe, 0xba, 0xbe, 0xab, 0xab, 0xab, 0xab,
                 0xab, 0xab, 0xab, 0xab, 0xab, 0xab, 0xab, 0xab, 0xab, 0xab, 0xab, 0xab]"

definition driver_rtcp :: bytes where
  "driver_rtcp = [0x81, 0xc8, 0x00, 0x0b, 0xca, 0xfe, 0xba, 0xbe, 0xab, 0xab, 0xab, 0xab, 0xab, 0xab, 0xab, 0xab,
                  0xab, 0xab, 0xab, 0xab, 0xab, 0xab, 0xab, 0xab]"

definition null_srtp :: bytes where
  "null_srtp = [0x80, 0x0f, 0x12, 0x34, 0xde, 0xca, 0xfb, 0xad, 0xca, 0xfe, 0xba, 0xbe, 0xab, 0xab, 0xab, 0xab,
                0xab, 0xab, 0xab, 0xab, 0xab, 0xab, 0xab, 0xab, 0xab, 0xab, 0xab, 0xab, 0xab, 0xa1, 0x36, 0x27,
                0x0b, 0x67, 0x91, 0x34, 0xce, 0x9b]"

definition null_srtcp :: bytes where
  "null_srtcp = [0x81, 0xc8, 0x00, 0x0b, 0xca, 0xfe, 0xba, 0xbe, 0xab, 0xab, 0xab, 0xab, 0xab, 0xab, 0xab, 0xab,
                 0xab, 0xab, 0xab, 0xab, 0xab, 0xab, 0xab, 0xab, 0x00, 0x00, 0x00, 0x01, 0xfe, 0x88, 0xc7, 0xfd,
                 0xfd, 0x37, 0xeb, 0xce, 0x61, 0x5d]"

definition aes128_srtp :: bytes where
  "aes128_srtp = [0x80, 0x0f, 0x12, 0x34, 0xde, 0xca, 0xfb, 0xad, 0xca, 0xfe, 0xba, 0xbe, 0x4e, 0x55, 0xdc, 0x4c,
                  0xe7, 0x99, 0x78, 0xd8, 0x8c, 0xa4, 0xd2, 0x15, 0x94, 0x9d, 0x24, 0x02, 0xb7, 0x8d, 0x6a, 0xcc,
                  0x99, 0xea, 0x17, 0x9b, 0x8d, 0xbb]"

definition aes128_srtcp :: bytes where
  "aes128_srtcp = [0x81, 0xc8, 0x00, 0x0b, 0xca, 0xfe, 0xba, 0xbe, 0x71, 0x28, 0x03, 0x5b, 0xe4, 0x87, 0xb9, 0xbd,
                   0xbe, 0xf8, 0x90, 0x41, 0xf9, 0x77, 0xa5, 0xa8, 0x80, 0x00, 0x00, 0x01, 0x99, 0x3e, 0x08, 0xcd,
                   0x54, 0xd6, 0xc1, 0x23, 0x07, 0x98]"

definition aes256_srtp :: bytes where
  "aes256_srtp = [0x80, 0x0f, 0x12, 0x34, 0xde, 0xca, 0xfb, 0xad, 0xca, 0xfe, 0xba, 0xbe, 0xf1, 0xd9, 0xde, 0x17,
                  0xff, 0x25, 0x1f, 0xf1, 0xaa, 0x00, 0x77, 0x74, 0xb0, 0xb4, 0xb4, 0x0d, 0xa0, 0x8d, 0x9d, 0x9a,
                  0x5b, 0x3a, 0x55, 0xd8, 0x87, 0x3b]"

definition mki_srtp :: bytes where
  "mki_srtp = [0x80, 0x0f, 0x12, 0x34, 0xde, 0xca, 0xfb, 0xad, 0xca, 0xfe, 0xba, 0xbe, 0x4e, 0x55, 0xdc, 0x4c,
               0xe7, 0x99, 0x78, 0xd8, 0x8c, 0xa4, 0xd2, 0x15, 0x94, 0x9d, 0x24, 0x02, 0xe1, 0xf9, 0x7a, 0x0d,
               0xb7, 0x8d, 0x6a, 0xcc, 0x99, 0xea, 0x17, 0x9b, 0x8d, 0xbb]"

definition mki_srtcp :: bytes where
  "mki_srtcp = [0x81, 0xc8, 0x00, 0x0b, 0xca, 0xfe, 0xba, 0xbe, 0x71, 0x28, 0x03, 0x5b, 0xe4, 0x87, 0xb9, 0xbd,
                0xbe, 0xf8, 0x90, 0x41, 0xf9, 0x77, 0xa5, 0xa8, 0x80, 0x00, 0x00, 0x01, 0xe1, 0xf9, 0x7a, 0x0d,
                0x99, 0x3e, 0x08, 0xcd, 0x54, 0xd6, 0xc1, 0x23, 0x07, 0x98]"

text \<open>RFC 6188, 7.3: session keys given directly.\<close>

definition session_key_192 :: bytes where
  "session_key_192 = [0xea, 0xb2, 0x34, 0x76, 0x4e, 0x51, 0x7b, 0x2d, 0x3d, 0x16, 0x0d, 0x58, 0x7d, 0x8c, 0x86, 0x21,
                      0x97, 0x40, 0xf6, 0x5f, 0x99, 0xb6, 0xbc, 0xf7]"

definition session_salt_192 :: bytes where
  "session_salt_192 = [0xf0, 0xf1, 0xf2, 0xf3, 0xf4, 0xf5, 0xf6, 0xf7, 0xf8, 0xf9, 0xfa, 0xfb, 0xfc, 0xfd]"

definition aes192_rtp :: bytes where
  "aes192_rtp = [0x80, 0x0f, 0x00, 0x00, 0xde, 0xca, 0xfb, 0xad, 0x00, 0x00, 0x00, 0x00, 0x00, 0x00, 0x00, 0x00,
                 0x00, 0x00, 0x00, 0x00, 0x00, 0x00, 0x00, 0x00, 0x00, 0x00, 0x00, 0x00, 0x00, 0x00, 0x00, 0x00,
                 0x00, 0x00, 0x00, 0x00, 0x00, 0x00, 0x00, 0x00, 0x00, 0x00, 0x00, 0x00, 0x00, 0x00, 0x00, 0x00,
                 0x00, 0x00, 0x00, 0x00, 0x00, 0x00, 0x00, 0x00, 0x00, 0x00, 0x00, 0x00]"

definition aes192_srtp :: bytes where
  "aes192_srtp = [0x80, 0x0f, 0x00, 0x00, 0xde, 0xca, 0xfb, 0xad, 0x00, 0x00, 0x00, 0x00, 0x35, 0x09, 0x6c, 0xba,
                  0x46, 0x10, 0x02, 0x8d, 0xc1, 0xb5, 0x75, 0x03, 0x80, 0x4c, 0xe3, 0x7c, 0x5d, 0xe9, 0x86, 0x29,
                  0x1d, 0xcc, 0xe1, 0x61, 0xd5, 0x16, 0x5e, 0xc4, 0x56, 0x8f, 0x5c, 0x9a, 0x47, 0x4a, 0x40, 0xc7,
                  0x78, 0x94, 0xbc, 0x17, 0x18, 0x02, 0x02, 0x27, 0x2a, 0x4c, 0x26, 0x4d]"

text \<open>RFC 7714, 16 and 17.\<close>

definition gcm_key_128 :: bytes where
  "gcm_key_128 = [0x00, 0x01, 0x02, 0x03, 0x04, 0x05, 0x06, 0x07, 0x08, 0x09, 0x0a, 0x0b, 0x0c, 0x0d, 0x0e, 0x0f]"

definition gcm_key_256 :: bytes where
  "gcm_key_256 = [0x00, 0x01, 0x02, 0x03, 0x04, 0x05, 0x06, 0x07, 0x08, 0x09, 0x0a, 0x0b, 0x0c, 0x0d, 0x0e, 0x0f,
                  0x10, 0x11, 0x12, 0x13, 0x14, 0x15, 0x16, 0x17, 0x18, 0x19, 0x1a, 0x1b, 0x1c, 0x1d, 0x1e, 0x1f]"

definition gcm_salt :: bytes where
  "gcm_salt = [0x51, 0x75, 0x69, 0x64, 0x20, 0x70, 0x72, 0x6f, 0x20, 0x71, 0x75, 0x6f]"

definition gcm_rtp :: bytes where
  "gcm_rtp = [0x80, 0x40, 0xf1, 0x7b, 0x80, 0x41, 0xf8, 0xd3, 0x55, 0x01, 0xa0, 0xb2, 0x47, 0x61, 0x6c, 0x6c,
              0x69, 0x61, 0x20, 0x65, 0x73, 0x74, 0x20, 0x6f, 0x6d, 0x6e, 0x69, 0x73, 0x20, 0x64, 0x69, 0x76,
              0x69, 0x73, 0x61, 0x20, 0x69, 0x6e, 0x20, 0x70, 0x61, 0x72, 0x74, 0x65, 0x73, 0x20, 0x74, 0x72,
              0x65, 0x73]"

definition gcm_rtcp :: bytes where
  "gcm_rtcp = [0x81, 0xc8, 0x00, 0x0d, 0x4d, 0x61, 0x72, 0x73, 0x4e, 0x54, 0x50, 0x31, 0x4e, 0x54, 0x50, 0x32,
               0x52, 0x54, 0x50, 0x20, 0x00, 0x00, 0x04, 0x2a, 0x00, 0x00, 0xe9, 0x30, 0x4c, 0x75, 0x6e, 0x61,
               0xde, 0xad, 0xbe, 0xef, 0xde, 0xad, 0xbe, 0xef, 0xde, 0xad, 0xbe, 0xef, 0xde, 0xad, 0xbe, 0xef,
               0xde, 0xad, 0xbe, 0xef]"

definition gcm128_srtp :: bytes where
  "gcm128_srtp = [0x80, 0x40, 0xf1, 0x7b, 0x80, 0x41, 0xf8, 0xd3, 0x55, 0x01, 0xa0, 0xb2, 0xf2, 0x4d, 0xe3, 0xa3,
                  0xfb, 0x34, 0xde, 0x6c, 0xac, 0xba, 0x86, 0x1c, 0x9d, 0x7e, 0x4b, 0xca, 0xbe, 0x63, 0x3b, 0xd5,
                  0x0d, 0x29, 0x4e, 0x6f, 0x42, 0xa5, 0xf4, 0x7a, 0x51, 0xc7, 0xd1, 0x9b, 0x36, 0xde, 0x3a, 0xdf,
                  0x88, 0x33, 0x89, 0x9d, 0x7f, 0x27, 0xbe, 0xb1, 0x6a, 0x91, 0x52, 0xcf, 0x76, 0x5e, 0xe4, 0x39,
                  0x0c, 0xce]"

definition gcm128_srtcp :: bytes where
  "gcm128_srtcp = [0x81, 0xc8, 0x00, 0x0d, 0x4d, 0x61, 0x72, 0x73, 0x63, 0xe9, 0x48, 0x85, 0xdc, 0xda, 0xb6, 0x7c,
                   0xa7, 0x27, 0xd7, 0x66, 0x2f, 0x6b, 0x7e, 0x99, 0x7f, 0xf5, 0xc0, 0xf7, 0x6c, 0x06, 0xf3, 0x2d,
                   0xc6, 0x76, 0xa5, 0xf1, 0x73, 0x0d, 0x6f, 0xda, 0x4c, 0xe0, 0x9b, 0x46, 0x86, 0x30, 0x3d, 0xed,
                   0x0b, 0xb9, 0x27, 0x5b, 0xc8, 0x4a, 0xa4, 0x58, 0x96, 0xcf, 0x4d, 0x2f, 0xc5, 0xab, 0xf8, 0x72,
                   0x45, 0xd9, 0xea, 0xde, 0x80, 0x00, 0x05, 0xd4]"

definition gcm256_srtp :: bytes where
  "gcm256_srtp = [0x80, 0x40, 0xf1, 0x7b, 0x80, 0x41, 0xf8, 0xd3, 0x55, 0x01, 0xa0, 0xb2, 0x32, 0xb1, 0xde, 0x78,
                  0xa8, 0x22, 0xfe, 0x12, 0xef, 0x9f, 0x78, 0xfa, 0x33, 0x2e, 0x33, 0xaa, 0xb1, 0x80, 0x12, 0x38,
                  0x9a, 0x58, 0xe2, 0xf3, 0xb5, 0x0b, 0x2a, 0x02, 0x76, 0xff, 0xae, 0x0f, 0x1b, 0xa6, 0x37, 0x99,
                  0xb8, 0x7b, 0x7a, 0xa3, 0xdb, 0x36, 0xdf, 0xff, 0xd6, 0xb0, 0xf9, 0xbb, 0x78, 0x78, 0xd7, 0xa7,
                  0x6c, 0x13]"

definition gcm256_srtcp :: bytes where
  "gcm256_srtcp = [0x81, 0xc8, 0x00, 0x0d, 0x4d, 0x61, 0x72, 0x73, 0xd5, 0x0a, 0xe4, 0xd1, 0xf5, 0xce, 0x5d, 0x30,
                   0x4b, 0xa2, 0x97, 0xe4, 0x7d, 0x47, 0x0c, 0x28, 0x2c, 0x3e, 0xce, 0x5d, 0xbf, 0xfe, 0x0a, 0x50,
                   0xa2, 0xea, 0xa5, 0xc1, 0x11, 0x05, 0x55, 0xbe, 0x84, 0x15, 0xf6, 0x58, 0xc6, 0x1d, 0xe0, 0x47,
                   0x6f, 0x1b, 0x6f, 0xad, 0x1d, 0x1e, 0xb3, 0x0c, 0x44, 0x46, 0x83, 0x9f, 0x57, 0xff, 0x6f, 0x6c,
                   0xb2, 0x6a, 0xc3, 0xbe, 0x80, 0x00, 0x05, 0xd4]"

section \<open>Derived keys\<close>

lemma kdf_128:
  "aes_cm_kdf std_crypto RtpEncrypt key_128 salt_128 = Ok
     [0xc6, 0x1e, 0x7a, 0x93, 0x74, 0x4f, 0x39, 0xee, 0x10, 0x73, 0x4a, 0xfe, 0x3f, 0xf7, 0xa0, 0x87]"
  "aes_cm_kdf std_crypto RtpAuthTag key_128 salt_128 = Ok
     [0xce, 0xbe, 0x32, 0x1f, 0x6f, 0xf7, 0x71, 0x6b, 0x6f, 0xd4, 0xab, 0x49, 0xaf, 0x25, 0x6a, 0x15,
      0x6d, 0x38, 0xba, 0xa4]"
  "aes_cm_kdf std_crypto RtpSalt key_128 salt_128 = Ok
     [0x30, 0xcb, 0xbc, 0x08, 0x86, 0x3d, 0x8c, 0x85, 0xd4, 0x9d, 0xb3, 0x4a, 0x9a, 0xe1]"
  "aes_cm_kdf std_crypto RtcpEncrypt key_128 salt_128 = Ok
     [0x4c, 0x1a, 0xa4, 0x5a, 0x81, 0xf7, 0x3d, 0x61, 0xc8, 0x00, 0xbb, 0xb0, 0x0f, 0xbb, 0x1e, 0xaa]"
  "aes_cm_kdf std_crypto RtcpAuthTag key_128 salt_128 = Ok
     [0x8d, 0x54, 0x53, 0x4f, 0xeb, 0x49, 0xae, 0x8e, 0x79, 0x93, 0xa6, 0xbd, 0x0b, 0x84, 0x4f, 0xc3,
      0x23, 0xa9, 0x3d, 0xfd]"
  "aes_cm_kdf std_crypto RtcpSalt key_128 salt_128 = Ok
     [0x95, 0x81, 0xc7, 0xad, 0x87, 0xb3, 0xe5, 0x30, 0xbf, 0x3e, 0x44, 0x54, 0xa8, 0xb3]"
  by code_simp+

lemma kdf_192:
  "aes_cm_kdf std_crypto RtpEncrypt key_192 salt_192 = Ok
     [0x31, 0x87, 0x47, 0x36, 0xa8, 0xf1, 0x14, 0x38, 0x70, 0xc2, 0x6e, 0x48, 0x57, 0xd8, 0xa5, 0xb2,
      0xc4, 0xa3, 0x54, 0x40, 0x7f, 0xaa, 0xda, 0xbb]"
  "aes_cm_kdf std_crypto RtpAuthTag key_192 salt_192 = Ok
     [0x35, 0x5b, 0x10, 0x97, 0x3c, 0xd9, 0x5b, 0x9e, 0xac, 0xf4, 0x06, 0x1c, 0x7e, 0x1a, 0x71, 0x51,
      0xe7, 0xcf, 0xbf, 0xcb]"
  "aes_cm_kdf std_crypto RtpSalt key_192 salt_192 = Ok
     [0x23, 0x72, 0xb8, 0x2d, 0x63, 0x9b, 0x6d, 0x85, 0x03, 0xa4, 0x7a, 0xdc, 0x0a, 0x6c]"
  by code_simp+

lemma kdf_256:
  "aes_cm_kdf std_crypto RtpEncrypt key_256 salt_256 = Ok
     [0x5b, 0xa1, 0x06, 0x4e, 0x30, 0xec, 0x51, 0x61, 0x3c, 0xad, 0x92, 0x6c, 0x5a, 0x28, 0xef, 0x73,
      0x1e, 0xc7, 0xfb, 0x39, 0x7f, 0x70, 0xa9, 0x60, 0x65, 0x3c, 0xaf, 0x06, 0x55, 0x4c, 0xd8, 0xc4]"
  "aes_cm_kdf std_crypto RtpAuthTag key_256 salt_256 = Ok
     [0xfd, 0x9c, 0x32, 0xd3, 0x9e, 0xd5, 0xfb, 0xb5, 0xa9, 0xdc, 0x96, 0xb3, 0x08, 0x18, 0x45, 0x4d,
      0x13, 0x13, 0xdc, 0x05]"
  "aes_cm_kdf std_crypto RtpSalt key_256 salt_256 = Ok
     [0xfa, 0x31, 0x79, 0x16, 0x85, 0xca, 0x44, 0x4a, 0x9e, 0x07, 0xc6, 0xc6, 0x4e, 0x93]"
  by code_simp+

section \<open>Key streams and codes\<close>

lemma ctr_rtp_128:
  "aes_ctr std_crypto Aes128
    [0xc6, 0x1e, 0x7a, 0x93, 0x74, 0x4f, 0x39, 0xee, 0x10, 0x73, 0x4a, 0xfe, 0x3f, 0xf7, 0xa0, 0x87]
    [0x30, 0xcb, 0xbc, 0x08, 0x4c, 0xc3, 0x36, 0x3b, 0xd4, 0x9d, 0xb3, 0x4a, 0x88, 0xd5, 0x00, 0x00]
    [0xab, 0xab, 0xab, 0xab, 0xab, 0xab, 0xab, 0xab, 0xab, 0xab, 0xab, 0xab, 0xab, 0xab, 0xab, 0xab] =
   Some [0x4e, 0x55, 0xdc, 0x4c, 0xe7, 0x99, 0x78, 0xd8, 0x8c, 0xa4, 0xd2, 0x15, 0x94, 0x9d, 0x24, 0x02]"
  by code_simp

lemma ctr_rtcp_128:
  "aes_ctr std_crypto Aes128
    [0x4c, 0x1a, 0xa4, 0x5a, 0x81, 0xf7, 0x3d, 0x61, 0xc8, 0x00, 0xbb, 0xb0, 0x0f, 0xbb, 0x1e, 0xaa]
    [0x95, 0x81, 0xc7, 0xad, 0x4d, 0x4d, 0x5f, 0x8e, 0xbf, 0x3e, 0x44, 0x54, 0xa8, 0xb2, 0x00, 0x00]
    [0xab, 0xab, 0xab, 0xab, 0xab, 0xab, 0xab, 0xab, 0xab, 0xab, 0xab, 0xab, 0xab, 0xab, 0xab, 0xab] =
   Some [0x71, 0x28, 0x03, 0x5b, 0xe4, 0x87, 0xb9, 0xbd, 0xbe, 0xf8, 0x90, 0x41, 0xf9, 0x77, 0xa5, 0xa8]"
  by code_simp

lemma ctr_rtp_192:
  "aes_ctr std_crypto Aes192
    [0xea, 0xb2, 0x34, 0x76, 0x4e, 0x51, 0x7b, 0x2d, 0x3d, 0x16, 0x0d, 0x58, 0x7d, 0x8c, 0x86, 0x21,
     0x97, 0x40, 0xf6, 0x5f, 0x99, 0xb6, 0xbc, 0xf7]
    [0xf0, 0xf1, 0xf2, 0xf3, 0xf4, 0xf5, 0xf6, 0xf7, 0xf8, 0xf9, 0xfa, 0xfb, 0xfc, 0xfd, 0x00, 0x00]
    [0x00, 0x00, 0x00, 0x00, 0x00, 0x00, 0x00, 0x00, 0x00, 0x00, 0x00, 0x00, 0x00, 0x00, 0x00, 0x00,
     0x00, 0x00, 0x00, 0x00, 0x00, 0x00, 0x00, 0x00, 0x00, 0x00, 0x00, 0x00, 0x00, 0x00, 0x00, 0x00,
     0x00, 0x00, 0x00, 0x00, 0x00, 0x00, 0x00, 0x00, 0x00, 0x00, 0x00, 0x00, 0x00, 0x00, 0x00, 0x00] =
   Some [0x35, 0x09, 0x6c, 0xba, 0x46, 0x10, 0x02, 0x8d, 0xc1, 0xb5, 0x75, 0x03, 0x80, 0x4c, 0xe3, 0x7c,
         0x5d, 0xe9, 0x86, 0x29, 0x1d, 0xcc, 0xe1, 0x61, 0xd5, 0x16, 0x5e, 0xc4, 0x56, 0x8f, 0x5c, 0x9a,
         0x47, 0x4a, 0x40, 0xc7, 0x78, 0x94, 0xbc, 0x17, 0x18, 0x02, 0x02, 0x27, 0x2a, 0x4c, 0x26, 0x4d]"
  by code_simp

lemma ctr_rtp_256:
  "aes_ctr std_crypto Aes256
    [0x5b, 0xa1, 0x06, 0x4e, 0x30, 0xec, 0x51, 0x61, 0x3c, 0xad, 0x92, 0x6c, 0x5a, 0x28, 0xef, 0x73,
     0x1e, 0xc7, 0xfb, 0x39, 0x7f, 0x70, 0xa9, 0x60, 0x65, 0x3c, 0xaf, 0x06, 0x55, 0x4c, 0xd8, 0xc4]
    [0xfa, 0x31, 0x79, 0x16, 0x4f, 0x34, 0xfe, 0xf4, 0x9e, 0x07, 0xc6, 0xc6, 0x5c, 0xa7, 0x00, 0x00]
    [0xab, 0xab, 0xab, 0xab, 0xab, 0xab, 0xab, 0xab, 0xab, 0xab, 0xab, 0xab, 0xab, 0xab, 0xab, 0xab] =
   Some [0xf1, 0xd9, 0xde, 0x17, 0xff, 0x25, 0x1f, 0xf1, 0xaa, 0x00, 0x77, 0x74, 0xb0, 0xb4, 0xb4, 0x0d]"
  by code_simp

lemma hmac_null_rtp:
  "hmac_sha1 std_crypto
    [0xce, 0xbe, 0x32, 0x1f, 0x6f, 0xf7, 0x71, 0x6b, 0x6f, 0xd4, 0xab, 0x49, 0xaf, 0x25, 0x6a, 0x15,
     0x6d, 0x38, 0xba, 0xa4]
    [0x80, 0x0f, 0x12, 0x34, 0xde, 0xca, 0xfb, 0xad, 0xca, 0xfe, 0xba, 0xbe, 0xab, 0xab, 0xab, 0xab,
     0xab, 0xab, 0xab, 0xab, 0xab, 0xab, 0xab, 0xab, 0xab, 0xab, 0xab, 0xab, 0x00, 0x00, 0x00, 0x00] =
   Some [0xab, 0xa1, 0x36, 0x27, 0x0b, 0x67, 0x91, 0x34, 0xce, 0x9b, 0xae, 0x09, 0x11, 0x82, 0x32, 0x61,
         0x7a, 0x1d, 0x85, 0xa3]"
  by code_simp

lemma hmac_null_rtcp:
  "hmac_sha1 std_crypto
    [0x8d, 0x54, 0x53, 0x4f, 0xeb, 0x49, 0xae, 0x8e, 0x79, 0x93, 0xa6, 0xbd, 0x0b, 0x84, 0x4f, 0xc3,
     0x23, 0xa9, 0x3d, 0xfd]
    [0x81, 0xc8, 0x00, 0x0b, 0xca, 0xfe, 0xba, 0xbe, 0xab, 0xab, 0xab, 0xab, 0xab, 0xab, 0xab, 0xab,
     0xab, 0xab, 0xab, 0xab, 0xab, 0xab, 0xab, 0xab, 0x00, 0x00, 0x00, 0x01] =
   Some [0xfe, 0x88, 0xc7, 0xfd, 0xfd, 0x37, 0xeb, 0xce, 0x61, 0x5d, 0xcc, 0xd5, 0x4d, 0x10, 0x62, 0x40,
         0x5a, 0xdc, 0x1d, 0x7a]"
  by code_simp

lemma hmac_rtp_128:
  "hmac_sha1 std_crypto
    [0xce, 0xbe, 0x32, 0x1f, 0x6f, 0xf7, 0x71, 0x6b, 0x6f, 0xd4, 0xab, 0x49, 0xaf, 0x25, 0x6a, 0x15,
     0x6d, 0x38, 0xba, 0xa4]
    [0x80, 0x0f, 0x12, 0x34, 0xde, 0xca, 0xfb, 0xad, 0xca, 0xfe, 0xba, 0xbe, 0x4e, 0x55, 0xdc, 0x4c,
     0xe7, 0x99, 0x78, 0xd8, 0x8c, 0xa4, 0xd2, 0x15, 0x94, 0x9d, 0x24, 0x02, 0x00, 0x00, 0x00, 0x00] =
   Some [0xb7, 0x8d, 0x6a, 0xcc, 0x99, 0xea, 0x17, 0x9b, 0x8d, 0xbb, 0x96, 0x7d, 0x18, 0x12, 0x96, 0x6a,
         0x17, 0x23, 0x09, 0x89]"
  by code_simp

lemma hmac_rtcp_128:
  "hmac_sha1 std_crypto
    [0x8d, 0x54, 0x53, 0x4f, 0xeb, 0x49, 0xae, 0x8e, 0x79, 0x93, 0xa6, 0xbd, 0x0b, 0x84, 0x4f, 0xc3,
     0x23, 0xa9, 0x3d, 0xfd]
    [0x81, 0xc8, 0x00, 0x0b, 0xca, 0xfe, 0xba, 0xbe, 0x71, 0x28, 0x03, 0x5b, 0xe4, 0x87, 0xb9, 0xbd,
     0xbe, 0xf8, 0x90, 0x41, 0xf9, 0x77, 0xa5, 0xa8, 0x80, 0x00, 0x00, 0x01] =
   Some [0x99, 0x3e, 0x08, 0xcd, 0x54, 0xd6, 0xc1, 0x23, 0x07, 0x98, 0x87, 0xe9, 0xfc, 0x45, 0x2b, 0x31,
         0xd5, 0x39, 0x3f, 0xa4]"
  by code_simp

lemma hmac_short_rtp_128:
  "hmac_sha1 std_crypto
    [0xce, 0xbe, 0x32, 0x1f, 0x6f, 0xf7, 0x71, 0x6b, 0x6f, 0xd4, 0xab, 0x49, 0xaf, 0x25, 0x6a, 0x15,
     0x6d, 0x38, 0xba, 0xa4]
    [0x80, 0x0f, 0x12, 0x34, 0xde, 0xca, 0xfb, 0xad, 0xca, 0xfe, 0xba, 0xbe, 0x4e, 0x55, 0xdc, 0x4c,
     0xe7, 0x99, 0x78, 0xd8, 0x8c, 0xa4, 0xd2, 0x15, 0x94, 0x9d, 0x24, 0x00, 0x00, 0x00, 0x00] =
   Some [0x55, 0xa1, 0x0c, 0xdc, 0x54, 0xdc, 0xf9, 0x52, 0xa8, 0xca, 0xc2, 0x32, 0x77, 0x6a, 0xdc, 0x04,
         0x26, 0x9a, 0x8b, 0x90]"
  by code_simp

lemma hmac_short_rtcp_128:
  "hmac_sha1 std_crypto
    [0x8d, 0x54, 0x53, 0x4f, 0xeb, 0x49, 0xae, 0x8e, 0x79, 0x93, 0xa6, 0xbd, 0x0b, 0x84, 0x4f, 0xc3,
     0x23, 0xa9, 0x3d, 0xfd]
    [0x81, 0xc8, 0x00, 0x0b, 0xca, 0xfe, 0xba, 0xbe, 0x71, 0x28, 0x03, 0x5b, 0xe4, 0x87, 0xb9, 0xbd,
     0xbe, 0xf8, 0x90, 0x41, 0xf9, 0x77, 0xa5, 0xa8, 0x80, 0x00, 0x00] =
   Some [0xc4, 0x89, 0x4b, 0xf7, 0xf4, 0x7f, 0xf3, 0xad, 0xc1, 0x34, 0xe3, 0x94, 0xbb, 0x91, 0x74, 0xc8,
         0xc4, 0x42, 0xb9, 0x29]"
  by code_simp

lemma hmac_rtp_256:
  "hmac_sha1 std_crypto
    [0xfd, 0x9c, 0x32, 0xd3, 0x9e, 0xd5, 0xfb, 0xb5, 0xa9, 0xdc, 0x96, 0xb3, 0x08, 0x18, 0x45, 0x4d,
     0x13, 0x13, 0xdc, 0x05]
    [0x80, 0x0f, 0x12, 0x34, 0xde, 0xca, 0xfb, 0xad, 0xca, 0xfe, 0xba, 0xbe, 0xf1, 0xd9, 0xde, 0x17,
     0xff, 0x25, 0x1f, 0xf1, 0xaa, 0x00, 0x77, 0x74, 0xb0, 0xb4, 0xb4, 0x0d, 0x00, 0x00, 0x00, 0x00] =
   Some [0xa0, 0x8d, 0x9d, 0x9a, 0x5b, 0x3a, 0x55, 0xd8, 0x87, 0x3b, 0x74, 0xd9, 0x31, 0xfd, 0x9f, 0x4f,
         0xf1, 0x72, 0x9d, 0x2c]"
  by code_simp

lemma gcm_rtp_128:
  "gcm_encrypt std_crypto Aes128
    [0x00, 0x01, 0x02, 0x03, 0x04, 0x05, 0x06, 0x07, 0x08, 0x09, 0x0a, 0x0b, 0x0c, 0x0d, 0x0e, 0x0f]
    [0x51, 0x75, 0x3c, 0x65, 0x80, 0xc2, 0x72, 0x6f, 0x20, 0x71, 0x84, 0x14]
    [0x80, 0x40, 0xf1, 0x7b, 0x80, 0x41, 0xf8, 0xd3, 0x55, 0x01, 0xa0, 0xb2]
    [0x47, 0x61, 0x6c, 0x6c, 0x69, 0x61, 0x20, 0x65, 0x73, 0x74, 0x20, 0x6f, 0x6d, 0x6e, 0x69, 0x73,
     0x20, 0x64, 0x69, 0x76, 0x69, 0x73, 0x61, 0x20, 0x69, 0x6e, 0x20, 0x70, 0x61, 0x72, 0x74, 0x65,
     0x73, 0x20, 0x74, 0x72, 0x65, 0x73] =
   Some ([0xf2, 0x4d, 0xe3, 0xa3, 0xfb, 0x34, 0xde, 0x6c, 0xac, 0xba, 0x86, 0x1c, 0x9d, 0x7e, 0x4b, 0xca,
          0xbe, 0x63, 0x3b, 0xd5, 0x0d, 0x29, 0x4e, 0x6f, 0x42, 0xa5, 0xf4, 0x7a, 0x51, 0xc7, 0xd1, 0x9b,
          0x36, 0xde, 0x3a, 0xdf, 0x88, 0x33],
     [0x89, 0x9d, 0x7f, 0x27, 0xbe, 0xb1, 0x6a, 0x91, 0x52, 0xcf, 0x76, 0x5e, 0xe4, 0x39, 0x0c, 0xce])"
  by code_simp

lemma gcm_rtcp_128:
  "gcm_encrypt std_crypto Aes128
    [0x00, 0x01, 0x02, 0x03, 0x04, 0x05, 0x06, 0x07, 0x08, 0x09, 0x0a, 0x0b, 0x0c, 0x0d, 0x0e, 0x0f]
    [0x51, 0x75, 0x24, 0x05, 0x52, 0x03, 0x72, 0x6f, 0x20, 0x71, 0x70, 0xbb]
    [0x81, 0xc8, 0x00, 0x0d, 0x4d, 0x61, 0x72, 0x73, 0x80, 0x00, 0x05, 0xd4]
    [0x4e, 0x54, 0x50, 0x31, 0x4e, 0x54, 0x50, 0x32, 0x52, 0x54, 0x50, 0x20, 0x00, 0x00, 0x04, 0x2a,
     0x00, 0x00, 0xe9, 0x30, 0x4c, 0x75, 0x6e, 0x61, 0xde, 0xad, 0xbe, 0xef, 0xde, 0xad, 0xbe, 0xef,
     0xde, 0xad, 0xbe, 0xef, 0xde, 0xad, 0xbe, 0xef, 0xde, 0xad, 0xbe, 0xef] =
   Some ([0x63, 0xe9, 0x48, 0x85, 0xdc, 0xda, 0xb6, 0x7c, 0xa7, 0x27, 0xd7, 0x66, 0x2f, 0x6b, 0x7e, 0x99,
          0x7f, 0xf5, 0xc0, 0xf7, 0x6c, 0x06, 0xf3, 0x2d, 0xc6, 0x76, 0xa5, 0xf1, 0x73, 0x0d, 0x6f, 0xda,
          0x4c, 0xe0, 0x9b, 0x46, 0x86, 0x30, 0x3d, 0xed, 0x0b, 0xb9, 0x27, 0x5b],
     [0xc8, 0x4a, 0xa4, 0x58, 0x96, 0xcf, 0x4d, 0x2f, 0xc5, 0xab, 0xf8, 0x72, 0x45, 0xd9, 0xea, 0xde])"
  by code_simp

lemma gcm_rtp_256:
  "gcm_encrypt std_crypto Aes256
    [0x00, 0x01, 0x02, 0x03, 0x04, 0x05, 0x06, 0x07, 0x08, 0x09, 0x0a, 0x0b, 0x0c, 0x0d, 0x0e, 0x0f,
     0x10, 0x11, 0x12, 0x13, 0x14, 0x15, 0x16, 0x17, 0x18, 0x19, 0x1a, 0x1b, 0x1c, 0x1d, 0x1e, 0x1f]
    [0x51, 0x75, 0x3c, 0x65, 0x80, 0xc2, 0x72, 0x6f, 0x20, 0x71, 0x84, 0x14]
    [0x80, 0x40, 0xf1, 0x7b, 0x80, 0x41, 0xf8, 0xd3, 0x55, 0x01, 0xa0, 0xb2]
    [0x47, 0x61, 0x6c, 0x6c, 0x69, 0x61, 0x20, 0x65, 0x73, 0x74, 0x20, 0x6f, 0x6d, 0x6e, 0x69, 0x73,
     0x20, 0x64, 0x69, 0x76, 0x69, 0x73, 0x61, 0x20, 0x69, 0x6e, 0x20, 0x70, 0x61, 0x72, 0x74, 0x65,
     0x73, 0x20, 0x74, 0x72, 0x65, 0x73] =
   Some ([0x32, 0xb1, 0xde, 0x78, 0xa8, 0x22, 0xfe, 0x12, 0xef, 0x9f, 0x78, 0xfa, 0x33, 0x2e, 0x33, 0xaa,
          0xb1, 0x80, 0x12, 0x38, 0x9a, 0x58, 0xe2, 0xf3, 0xb5, 0x0b, 0x2a, 0x02, 0x76, 0xff, 0xae, 0x0f,
          0x1b, 0xa6, 0x37, 0x99, 0xb8, 0x7b],
     [0x7a, 0xa3, 0xdb, 0x36, 0xdf, 0xff, 0xd6, 0xb0, 0xf9, 0xbb, 0x78, 0x78, 0xd7, 0xa7, 0x6c, 0x13])"
  by code_simp

lemma gcm_rtcp_256:
  "gcm_encrypt std_crypto Aes256
    [0x00, 0x01, 0x02, 0x03, 0x04, 0x05, 0x06, 0x07, 0x08, 0x09, 0x0a, 0x0b, 0x0c, 0x0d, 0x0e, 0x0f,
     0x10, 0x11, 0x12, 0x13, 0x14, 0x15, 0x16, 0x17, 0x18, 0x19, 0x1a, 0x1b, 0x1c, 0x1d, 0x1e, 0x1f]
    [0x51, 0x75, 0x24, 0x05, 0x52, 0x03, 0x72, 0x6f, 0x20, 0x71, 0x70, 0xbb]
    [0x81, 0xc8, 0x00, 0x0d, 0x4d, 0x61, 0x72, 0x73, 0x80, 0x00, 0x05, 0xd4]
    [0x4e, 0x54, 0x50, 0x31, 0x4e, 0x54, 0x50, 0x32, 0x52, 0x54, 0x50, 0x20, 0x00, 0x00, 0x04, 0x2a,
     0x00, 0x00, 0xe9, 0x30, 0x4c, 0x75, 0x6e, 0x61, 0xde, 0xad, 0xbe, 0xef, 0xde, 0xad, 0xbe, 0xef,
     0xde, 0xad, 0xbe, 0xef, 0xde, 0xad, 0xbe, 0xef, 0xde, 0xad, 0xbe, 0xef] =
   Some ([0xd5, 0x0a, 0xe4, 0xd1, 0xf5, 0xce, 0x5d, 0x30, 0x4b, 0xa2, 0x97, 0xe4, 0x7d, 0x47, 0x0c, 0x28,
          0x2c, 0x3e, 0xce, 0x5d, 0xbf, 0xfe, 0x0a, 0x50, 0xa2, 0xea, 0xa5, 0xc1, 0x11, 0x05, 0x55, 0xbe,
          0x84, 0x15, 0xf6, 0x58, 0xc6, 0x1d, 0xe0, 0x47, 0x6f, 0x1b, 0x6f, 0xad],
     [0x1d, 0x1e, 0xb3, 0x0c, 0x44, 0x46, 0x83, 0x9f, 0x57, 0xff, 0x6f, 0x6c, 0xb2, 0x6a, 0xc3, 0xbe])"
  by code_simp

end
