(* ===== verification/Srtp_Known_Answers.thy ===== *)
theory Srtp_Known_Answers
  imports Srtp_Test_Vectors Srtp_Config
begin

text \<open>
  The unit tests with known answers of \<^verbatim>\<open>key_derivation.rs\<close>, \<^verbatim>\<open>transform/aes_cm_sha1.rs\<close> and
  \<^verbatim>\<open>transform/aes_gcm.rs\<close>, one definition per test with its steps in their order: a test returns \<open>Ok ()\<close>
  when it passes, an error where its \<^verbatim>\<open>?\<close> would leave it, and panics where an assertion fails. Each
  passes with the published algorithms: the derivation of keys, the initialisation vectors, what is
  authenticated and the layout of the packets of the model are those of the standards, byte for byte.
\<close>

definition assert_eq :: "'a \<Rightarrow> 'a \<Rightarrow> unit result" where
  "assert_eq x y = expect (x = y)"

lemma assert_eq_same [simp]: "assert_eq x x = Ok ()"
  by (simp add: assert_eq_def)

section \<open>Key derivation\<close>

definition aes_cm_128_session_keys :: "crypto \<Rightarrow> unit result" where
  "aes_cm_128_session_keys C =
     and_then (aes_cm_kdf C RtpEncrypt key_128 salt_128) (\<lambda>session_key.
     and_then (assert_eq session_key
       [0xc6, 0x1e, 0x7a, 0x93, 0x74, 0x4f, 0x39, 0xee, 0x10, 0x73, 0x4a, 0xfe, 0x3f, 0xf7, 0xa0, 0x87]) (\<lambda>_.
     and_then (aes_cm_kdf C RtpSalt key_128 salt_128) (\<lambda>session_salt.
     and_then (assert_eq session_salt
       [0x30, 0xcb, 0xbc, 0x08, 0x86, 0x3d, 0x8c, 0x85, 0xd4, 0x9d, 0xb3, 0x4a, 0x9a, 0xe1]) (\<lambda>_.
     and_then (aes_cm_kdf C RtpAuthTag key_128 salt_128) (\<lambda>session_auth_key.
     assert_eq session_auth_key
       [0xce, 0xbe, 0x32, 0x1f, 0x6f, 0xf7, 0x71, 0x6b, 0x6f, 0xd4, 0xab, 0x49, 0xaf, 0x25, 0x6a, 0x15,
        0x6d, 0x38, 0xba, 0xa4])))))"

definition aes_cm_192_session_keys :: "crypto \<Rightarrow> unit result" where
  "aes_cm_192_session_keys C =
     and_then (aes_cm_kdf C RtpEncrypt key_192 salt_192) (\<lambda>session_key.
     and_then (assert_eq session_key
       [0x31, 0x87, 0x47, 0x36, 0xa8, 0xf1, 0x14, 0x38, 0x70, 0xc2, 0x6e, 0x48, 0x57, 0xd8, 0xa5, 0xb2,
        0xc4, 0xa3, 0x54, 0x40, 0x7f, 0xaa, 0xda, 0xbb]) (\<lambda>_.
     and_then (aes_cm_kdf C RtpSalt key_192 salt_192) (\<lambda>session_salt.
     and_then (assert_eq session_salt
       [0x23, 0x72, 0xb8, 0x2d, 0x63, 0x9b, 0x6d, 0x85, 0x03, 0xa4, 0x7a, 0xdc, 0x0a, 0x6c]) (\<lambda>_.
     and_then (aes_cm_kdf C RtpAuthTag key_192 salt_192) (\<lambda>session_auth_key.
     assert_eq session_auth_key
       [0x35, 0x5b, 0x10, 0x97, 0x3c, 0xd9, 0x5b, 0x9e, 0xac, 0xf4, 0x06, 0x1c, 0x7e, 0x1a, 0x71, 0x51,
        0xe7, 0xcf, 0xbf, 0xcb])))))"

definition aes_cm_256_session_keys :: "crypto \<Rightarrow> unit result" where
  "aes_cm_256_session_keys C =
     and_then (aes_cm_kdf C RtpEncrypt key_256 salt_256) (\<lambda>session_key.
     and_then (assert_eq session_key
       [0x5b, 0xa1, 0x06, 0x4e, 0x30, 0xec, 0x51, 0x61, 0x3c, 0xad, 0x92, 0x6c, 0x5a, 0x28, 0xef, 0x73,
        0x1e, 0xc7, 0xfb, 0x39, 0x7f, 0x70, 0xa9, 0x60, 0x65, 0x3c, 0xaf, 0x06, 0x55, 0x4c, 0xd8, 0xc4]) (\<lambda>_.
     and_then (aes_cm_kdf C RtpSalt key_256 salt_256) (\<lambda>session_salt.
     and_then (assert_eq session_salt
       [0xfa, 0x31, 0x79, 0x16, 0x85, 0xca, 0x44, 0x4a, 0x9e, 0x07, 0xc6, 0xc6, 0x4e, 0x93]) (\<lambda>_.
     and_then (aes_cm_kdf C RtpAuthTag key_256 salt_256) (\<lambda>session_auth_key.
     assert_eq session_auth_key
       [0xfd, 0x9c, 0x32, 0xd3, 0x9e, 0xd5, 0xfb, 0xb5, 0xa9, 0xdc, 0x96, 0xb3, 0x08, 0x18, 0x45, 0x4d,
        0x13, 0x13, 0xdc, 0x05])))))"

lemma kdf_tests_pass:
  "aes_cm_128_session_keys std_crypto = Ok ()"
  "aes_cm_192_session_keys std_crypto = Ok ()"
  "aes_cm_256_session_keys std_crypto = Ok ()"
  by (simp_all add: aes_cm_128_session_keys_def aes_cm_192_session_keys_def aes_cm_256_session_keys_def
      kdf_128 kdf_192 kdf_256)

section \<open>The transform with counter mode and HMAC\<close>

definition cm_nullcipher :: "crypto \<Rightarrow> unit result" where
  "cm_nullcipher C =
     and_then (cm_new C key_128 salt_128 None NullCipherHmacSha180 NullCipherHmacSha180) (\<lambda>e.
     and_then (rtp_header_new driver_rtp) (\<lambda>hdr.
     and_then (rtcp_header_new driver_rtcp) (\<lambda>rtcp_hdr.
     and_then (cm_rtp_protect C e driver_rtp hdr 0) (\<lambda>srtp_packet.
     and_then (assert_eq srtp_packet null_srtp) (\<lambda>_.
     and_then (cm_rtp_unprotect C e srtp_packet hdr 0) (\<lambda>rtp_packet.
     and_then (assert_eq rtp_packet driver_rtp) (\<lambda>_.
     and_then (cm_rtcp_protect C e driver_rtcp rtcp_hdr 1) (\<lambda>srtcp_packet.
     and_then (assert_eq srtcp_packet null_srtcp) (\<lambda>_.
     and_then (cm_rtcp_unprotect C e srtcp_packet rtcp_hdr 1 14) (\<lambda>rtcp_packet.
     assert_eq rtcp_packet driver_rtcp))))))))))"

text \<open>The steps that the tests share: RTP with one profile, its outcome a prefix of the full packet.\<close>

definition cm_rtp_round_trip ::
    "crypto \<Rightarrow> aes_cm_sha1 \<Rightarrow> bytes \<Rightarrow> rtp_header \<Rightarrow> bytes \<Rightarrow> bytes result" where
  "cm_rtp_round_trip C e plain hdr expected =
     and_then (cm_rtp_protect C e plain hdr 0) (\<lambda>srtp_packet.
     and_then (assert_eq srtp_packet expected) (\<lambda>_.
     and_then (cm_rtp_unprotect C e srtp_packet hdr 0) (\<lambda>rtp_packet.
     and_then (assert_eq rtp_packet plain) (\<lambda>_. Ok srtp_packet))))"

definition flip_last :: "bytes \<Rightarrow> nat \<Rightarrow> bytes" where
  "flip_last packet n = (let i = length packet - n in packet[i := packet ! i XOR 0xff])"

definition cm_aes128 :: "crypto \<Rightarrow> unit result" where
  "cm_aes128 C =
     and_then (rtp_header_new driver_rtp) (\<lambda>hdr.
     and_then (rtcp_header_new driver_rtcp) (\<lambda>rtcp_hdr.
     and_then (cm_new C key_128 salt_128 None Aes128CmNullAuth Aes128CmHmacSha180) (\<lambda>e.
     and_then (cm_rtp_round_trip C e driver_rtp hdr (take 28 aes128_srtp)) (\<lambda>_.
     and_then (cm_new C key_128 salt_128 None Aes128CmHmacSha132 Aes128CmHmacSha180) (\<lambda>e.
     and_then (cm_rtp_round_trip C e driver_rtp hdr (take 32 aes128_srtp)) (\<lambda>_.
     and_then (cm_new C key_128 salt_128 None Aes128CmHmacSha180 Aes128CmHmacSha180) (\<lambda>e.
     and_then (cm_rtp_round_trip C e driver_rtp hdr aes128_srtp) (\<lambda>srtp_packet.
     and_then (cm_rtcp_protect C e driver_rtcp rtcp_hdr 1) (\<lambda>srtcp_packet.
     and_then (assert_eq srtcp_packet aes128_srtcp) (\<lambda>_.
     and_then (cm_rtcp_unprotect C e srtcp_packet rtcp_hdr 1 14) (\<lambda>rtcp_packet.
     and_then (assert_eq rtcp_packet driver_rtcp) (\<lambda>_.
     and_then (assert_eq (cm_rtp_unprotect C e (take 37 srtp_packet) hdr 0) (Err Authentication)) (\<lambda>_.
     and_then (assert_eq (cm_rtcp_unprotect C e (take 37 srtcp_packet) rtcp_hdr 1 14) (Err Authentication)) (\<lambda>_.
     let srtp_packet = flip_last srtp_packet 1 in
     and_then (assert_eq (cm_rtp_unprotect C e srtp_packet hdr 0) (Err Authentication)) (\<lambda>_.
     let srtcp_packet = flip_last srtcp_packet 1 in
     and_then (assert_eq (cm_rtcp_unprotect C e srtcp_packet rtcp_hdr 1 14) (Err Authentication)) (\<lambda>_.
     assert_eq (cm_rtp_unprotect C e (take (header_len hdr + 5) srtp_packet) hdr 0)
       (Err InvalidPacket)))))))))))))))))"

definition cm_aes192 :: "crypto \<Rightarrow> unit result" where
  "cm_aes192 C =
     (let rtp_keys = \<lparr>ck_key = Some session_key_192, ck_salt = Some session_salt_192, ck_auth_key = None\<rparr>;
          rtcp_keys = \<lparr>ck_key = None, ck_salt = None, ck_auth_key = None\<rparr>
      in
      and_then (rtp_header_new aes192_rtp) (\<lambda>hdr.
      let e = \<lparr>cm_rtp_profile = Aes192CmNullAuth, cm_rtcp_profile = Aes192CmHmacSha180,
               cm_rtp_key = rtp_keys, cm_rtcp_key = rtcp_keys, cm_mki = None\<rparr>
      in
      and_then (cm_rtp_protect C e aes192_rtp hdr 0) (\<lambda>srtp_packet.
      assert_eq srtp_packet aes192_srtp)))"

definition cm_aes256 :: "crypto \<Rightarrow> unit result" where
  "cm_aes256 C =
     and_then (rtp_header_new driver_rtp) (\<lambda>hdr.
     and_then (cm_new C key_256 salt_256 None Aes256CmNullAuth Aes256CmHmacSha180) (\<lambda>e.
     and_then (cm_rtp_round_trip C e driver_rtp hdr (take 28 aes256_srtp)) (\<lambda>_.
     and_then (cm_new C key_256 salt_256 None Aes256CmHmacSha132 Aes256CmHmacSha180) (\<lambda>e.
     and_then (cm_rtp_round_trip C e driver_rtp hdr (take 32 aes256_srtp)) (\<lambda>_.
     and_then (cm_new C key_256 salt_256 None Aes256CmHmacSha180 Aes256CmHmacSha180) (\<lambda>e.
     and_then (cm_rtp_round_trip C e driver_rtp hdr aes256_srtp) (\<lambda>_. Ok ())))))))"

definition cm_mki_test :: "crypto \<Rightarrow> unit result" where
  "cm_mki_test C =
     and_then (rtp_header_new driver_rtp) (\<lambda>hdr.
     and_then (rtcp_header_new driver_rtcp) (\<lambda>rtcp_hdr.
     and_then (cm_new C key_128 salt_128 (Some [0xe1, 0xf9, 0x7a, 0x0d]) Aes128CmHmacSha180 Aes128CmHmacSha180) (\<lambda>e.
     and_then (cm_rtp_round_trip C e driver_rtp hdr mki_srtp) (\<lambda>_.
     and_then (cm_rtcp_protect C e driver_rtcp rtcp_hdr 1) (\<lambda>srtcp_packet.
     and_then (assert_eq srtcp_packet mki_srtcp) (\<lambda>_.
     and_then (cm_rtcp_unprotect C e srtcp_packet rtcp_hdr 1 18) (\<lambda>rtcp_packet.
     assert_eq rtcp_packet driver_rtcp)))))))"

text \<open>The transforms of the tests, with the keys derived above.\<close>

definition keys_rtp_128 :: cm_session_keys where
  "keys_rtp_128 =
     \<lparr>ck_key = Some
        [0xc6, 0x1e, 0x7a, 0x93, 0x74, 0x4f, 0x39, 0xee, 0x10, 0x73, 0x4a, 0xfe, 0x3f, 0xf7, 0xa0, 0x87],
      ck_salt = Some
        [0x30, 0xcb, 0xbc, 0x08, 0x86, 0x3d, 0x8c, 0x85, 0xd4, 0x9d, 0xb3, 0x4a, 0x9a, 0xe1],
      ck_auth_key = Some
        [0xce, 0xbe, 0x32, 0x1f, 0x6f, 0xf7, 0x71, 0x6b, 0x6f, 0xd4, 0xab, 0x49, 0xaf, 0x25, 0x6a, 0x15,
         0x6d, 0x38, 0xba, 0xa4]\<rparr>"

definition keys_rtcp_128 :: cm_session_keys where
  "keys_rtcp_128 =
     \<lparr>ck_key = Some
        [0x4c, 0x1a, 0xa4, 0x5a, 0x81, 0xf7, 0x3d, 0x61, 0xc8, 0x00, 0xbb, 0xb0, 0x0f, 0xbb, 0x1e, 0xaa],
      ck_salt = Some
        [0x95, 0x81, 0xc7, 0xad, 0x87, 0xb3, 0xe5, 0x30, 0xbf, 0x3e, 0x44, 0x54, 0xa8, 0xb3],
      ck_auth_key = Some
        [0x8d, 0x54, 0x53, 0x4f, 0xeb, 0x49, 0xae, 0x8e, 0x79, 0x93, 0xa6, 0xbd, 0x0b, 0x84, 0x4f, 0xc3,
         0x23, 0xa9, 0x3d, 0xfd]\<rparr>"

definition keys_rtp_256 :: cm_session_keys where
  "keys_rtp_256 =
     \<lparr>ck_key = Some
        [0x5b, 0xa1, 0x06, 0x4e, 0x30, 0xec, 0x51, 0x61, 0x3c, 0xad, 0x92, 0x6c, 0x5a, 0x28, 0xef, 0x73,
         0x1e, 0xc7, 0xfb, 0x39, 0x7f, 0x70, 0xa9, 0x60, 0x65, 0x3c, 0xaf, 0x06, 0x55, 0x4c, 0xd8, 0xc4],
      ck_salt = Some
        [0xfa, 0x31, 0x79, 0x16, 0x85, 0xca, 0x44, 0x4a, 0x9e, 0x07, 0xc6, 0xc6, 0x4e, 0x93],
      ck_auth_key = Some
        [0xfd, 0x9c, 0x32, 0xd3, 0x9e, 0xd5, 0xfb, 0xb5, 0xa9, 0xdc, 0x96, 0xb3, 0x08, 0x18, 0x45, 0x4d,
         0x13, 0x13, 0xdc, 0x05]\<rparr>"

text \<open>A profile takes the keys it uses.\<close>

definition keys_for :: "protection_profile \<Rightarrow> cm_session_keys \<Rightarrow> cm_session_keys" where
  "keys_for p k =
     \<lparr>ck_key = (if key_len p = 0 then None else ck_key k), ck_salt = (if key_len p = 0 then None else ck_salt k),
      ck_auth_key = (if tag_len p = 0 then None else ck_auth_key k)\<rparr>"

lemma session_keys_128:
  "\<not> is_gcm p \<Longrightarrow> cm_rtp_session_keys std_crypto key_128 salt_128 p = Ok (keys_for p keys_rtp_128)"
  "\<not> tag_len p < 10 \<Longrightarrow> cm_rtcp_session_keys std_crypto key_128 salt_128 p = Ok (keys_for p keys_rtcp_128)"
  by (cases p; simp add: cm_rtp_session_keys_def cm_rtcp_session_keys_def kdf_128 to_array_def keys_for_def
      keys_rtp_128_def keys_rtcp_128_def)+

lemma session_keys_256:
  "\<not> is_gcm p \<Longrightarrow> cm_rtp_session_keys std_crypto key_256 salt_256 p = Ok (keys_for p keys_rtp_256)"
  by (cases p; simp add: cm_rtp_session_keys_def kdf_256 to_array_def keys_for_def keys_rtp_256_def)

definition cm_128 :: "mki \<Rightarrow> protection_profile \<Rightarrow> protection_profile \<Rightarrow> aes_cm_sha1" where
  "cm_128 m p q = \<lparr>cm_rtp_profile = p, cm_rtcp_profile = q, cm_rtp_key = keys_for p keys_rtp_128,
     cm_rtcp_key = keys_for q keys_rtcp_128, cm_mki = m\<rparr>"

lemma cm_new_128:
  "\<not> is_gcm p \<Longrightarrow> \<not> tag_len q < 10 \<Longrightarrow> cm_new std_crypto key_128 salt_128 m p q = Ok (cm_128 m p q)"
  by (simp add: cm_new_def session_keys_128 cm_128_def)

text \<open>Headers and initialisation vectors.\<close>

definition driver_rtp_header :: rtp_header where
  "driver_rtp_header = \<lparr>seq_num = 0x1234, rtp_ssrc = 0xcafebabe, header_len = 12\<rparr>"

definition driver_rtcp_header :: rtcp_header where
  "driver_rtcp_header = \<lparr>rtcp_ssrc = 0xcafebabe\<rparr>"

lemma driver_headers:
  "rtp_header_new driver_rtp = Ok driver_rtp_header"
  "rtcp_header_new driver_rtcp = Ok driver_rtcp_header"
  by code_simp+

lemma driver_header_simps [simp]: "header_len driver_rtp_header = 12" "rtcp_header_len = 8"
  by (simp_all add: driver_rtp_header_def rtcp_header_len_def RTCP_MIN_SIZE_def)

lemma driver_ivs:
  "cm_rtp_iv [0x30, 0xcb, 0xbc, 0x08, 0x86, 0x3d, 0x8c, 0x85, 0xd4, 0x9d, 0xb3, 0x4a, 0x9a, 0xe1] driver_rtp_header 0 =
    [0x30, 0xcb, 0xbc, 0x08, 0x4c, 0xc3, 0x36, 0x3b, 0xd4, 0x9d, 0xb3, 0x4a, 0x88, 0xd5, 0x00, 0x00]"
  "cm_rtcp_iv [0x95, 0x81, 0xc7, 0xad, 0x87, 0xb3, 0xe5, 0x30, 0xbf, 0x3e, 0x44, 0x54, 0xa8, 0xb3] driver_rtcp_header 1 =
    [0x95, 0x81, 0xc7, 0xad, 0x4d, 0x4d, 0x5f, 0x8e, 0xbf, 0x3e, 0x44, 0x54, 0xa8, 0xb2, 0x00, 0x00]"
  "cm_rtp_iv [0xfa, 0x31, 0x79, 0x16, 0x85, 0xca, 0x44, 0x4a, 0x9e, 0x07, 0xc6, 0xc6, 0x4e, 0x93] driver_rtp_header 0 =
    [0xfa, 0x31, 0x79, 0x16, 0x4f, 0x34, 0xfe, 0xf4, 0x9e, 0x07, 0xc6, 0xc6, 0x5c, 0xa7, 0x00, 0x00]"
  by code_simp+

text \<open>The bodies of the packets and their codes.\<close>

lemmas cm_run_defs = cm_128_def keys_for_def keys_rtp_128_def keys_rtcp_128_def apply_keystream_def

lemma rtp_body_128:
  assumes "p \<in> {Aes128CmNullAuth, Aes128CmHmacSha132, Aes128CmHmacSha180}"
  shows "cm_rtp_crypt std_crypto (cm_128 m p q) driver_rtp driver_rtp_header 0 = Ok (take 28 aes128_srtp)"
  using assms by (auto simp: cm_rtp_crypt_def cm_rtp_encrypt_def cm_run_defs driver_ivs ctr_rtp_128
      driver_rtp_def aes128_srtp_def)

lemma rtp_tag_128:
  assumes "p \<in> {Aes128CmHmacSha132, Aes128CmHmacSha180}"
  shows "cm_rtp_auth_tag std_crypto (cm_128 m p q) (take 28 aes128_srtp) 0 =
    Ok (take (tag_len p) (drop 28 aes128_srtp))"
  using assms by (auto simp: cm_rtp_auth_tag_def cm_run_defs to_be_bytes32_def hmac_rtp_128 aes128_srtp_def)

lemma rtcp_body_128:
  "cm_rtcp_crypt std_crypto (cm_128 m p Aes128CmHmacSha180) driver_rtcp driver_rtcp_header 1 =
   Ok (take 24 aes128_srtcp)"
  by (simp add: cm_rtcp_crypt_def cm_rtcp_encrypt_def cm_run_defs driver_ivs ctr_rtcp_128
      driver_rtcp_def aes128_srtcp_def)

lemma rtcp_tag_128:
  "cm_rtcp_auth_tag std_crypto (cm_128 m p Aes128CmHmacSha180) (take 28 aes128_srtcp) = Ok (drop 28 aes128_srtcp)"
  by (simp add: cm_rtcp_auth_tag_def cm_run_defs hmac_rtcp_128 aes128_srtcp_def)

text \<open>Protection, with the MKI where the transform has one.\<close>

lemma rtp_protect_128:
  assumes "p \<in> {Aes128CmNullAuth, Aes128CmHmacSha132, Aes128CmHmacSha180}"
  shows "cm_rtp_protect std_crypto (cm_128 m p q) driver_rtp driver_rtp_header 0 =
    Ok (take 28 aes128_srtp @ mki_bytes m @ take (tag_len p) (drop 28 aes128_srtp))"
proof -
  have "cm_rtp_tag std_crypto (cm_128 m p q) (take 28 aes128_srtp) 0 = Ok (take (tag_len p) (drop 28 aes128_srtp))"
    using assms rtp_tag_128 [of p m q] by (auto simp: cm_rtp_tag_def cm_128_def)
  then show ?thesis
    by (simp add: cm_rtp_protect_eq rtp_body_128 [OF assms]) (simp add: cm_128_def)
qed

lemma rtcp_word_128:
  "take 24 aes128_srtcp @ to_be_bytes32 (rtcp_trailer_word (cm_128 m p Aes128CmHmacSha180) 1) = take 28 aes128_srtcp"
  by (simp add: rtcp_trailer_word_def cm_128_def to_be_bytes32_def aes128_srtcp_def)

lemma rtcp_protect_128:
  "cm_rtcp_protect std_crypto (cm_128 m p Aes128CmHmacSha180) driver_rtcp driver_rtcp_header 1 =
    Ok (take 28 aes128_srtcp @ mki_bytes m @ drop 28 aes128_srtcp)"
proof -
  have "cm_mki (cm_128 m p Aes128CmHmacSha180) = m" by (simp add: cm_128_def)
  then show ?thesis
    by (simp add: cm_rtcp_protect_eq rtcp_body_128 rtcp_word_128 rtcp_tag_128 flip: append_assoc)
qed

text \<open>Unprotection follows from the laws.\<close>

lemma cm_128_ok:
  assumes "p \<in> {Aes128CmNullAuth, Aes128CmHmacSha132, Aes128CmHmacSha180, NullCipherHmacSha180}"
    and "q \<in> {Aes128CmHmacSha180, NullCipherHmacSha180}"
  shows "cm_ok (cm_128 m p q)"
proof -
  have fits: "master_fits key_128 salt_128 p" "master_fits key_128 salt_128 q"
    and p: "\<not> is_gcm p" and q: "\<not> tag_len q < 10"
    using assms by (auto simp: master_fits_def key_128_def salt_128_def)
  from cm_new_ok [OF std_crypto_laws fits p q, of m] cm_new_128 [OF p q, of m] show ?thesis by simp
qed

lemma round_trip_passes:
  assumes "cm_ok e" "header_len hdr \<le> length plain" "cm_rtp_protect std_crypto e plain hdr 0 = Ok expected"
  shows "cm_rtp_round_trip std_crypto e plain hdr expected = Ok expected"
  using assms cm_rtp_roundtrip [OF std_crypto_laws assms] by (simp add: cm_rtp_round_trip_def)

lemma driver_lengths [simp]: "length driver_rtp = 28" "length driver_rtcp = 24" "length aes128_srtp = 38"
  "length aes128_srtcp = 38"
  by (simp_all add: driver_rtp_def driver_rtcp_def aes128_srtp_def aes128_srtcp_def)

lemma rtcp_unprotect_128:
  assumes "p \<in> {Aes128CmNullAuth, Aes128CmHmacSha132, Aes128CmHmacSha180}"
  shows "cm_rtcp_unprotect std_crypto (cm_128 m p Aes128CmHmacSha180)
    (take 28 aes128_srtcp @ mki_bytes m @ drop 28 aes128_srtcp) driver_rtcp_header 1 (14 + length (mki_bytes m)) =
    Ok driver_rtcp"
proof -
  have "cm_ok (cm_128 m p Aes128CmHmacSha180)" using assms by (intro cm_128_ok) auto
  from cm_rtcp_roundtrip [OF std_crypto_laws this _ rtcp_protect_128] show ?thesis
    by (simp add: cm_128_def)
qed

text \<open>What the tests change in a packet is noticed.\<close>

lemma wrong_packets_128:
  "cm_rtp_unprotect std_crypto (cm_128 None Aes128CmHmacSha180 q) (take 37 aes128_srtp) driver_rtp_header 0 =
   Err Authentication"
  "cm_rtp_unprotect std_crypto (cm_128 None Aes128CmHmacSha180 q) (flip_last aes128_srtp 1) driver_rtp_header 0 =
   Err Authentication"
  "cm_rtp_unprotect std_crypto (cm_128 None Aes128CmHmacSha180 q) (take 17 (flip_last aes128_srtp 1)) driver_rtp_header 0 =
   Err InvalidPacket"
proof -
  have m: "cm_mki (cm_128 None Aes128CmHmacSha180 q) = None" "cm_rtp_profile (cm_128 None Aes128CmHmacSha180 q) = Aes128CmHmacSha180"
    by (simp_all add: cm_128_def)
  have short: "cm_rtp_auth_tag std_crypto (cm_128 None Aes128CmHmacSha180 q) (take 27 aes128_srtp) 0 =
      Ok (take 10 (the (hmac_sha1 std_crypto (the (ck_auth_key keys_rtp_128)) (take 27 aes128_srtp @ [0, 0, 0, 0]))))"
    by (simp add: cm_rtp_auth_tag_def cm_run_defs to_be_bytes32_def hmac_short_rtp_128 aes128_srtp_def)
  show "cm_rtp_unprotect std_crypto (cm_128 None Aes128CmHmacSha180 q) (take 37 aes128_srtp) driver_rtp_header 0 =
   Err Authentication"
    by (simp add: cm_rtp_unprotect_eq [OF std_crypto_laws] m cm_rtp_tag_def Let_def short)
      (simp add: keys_rtp_128_def hmac_short_rtp_128 aes128_srtp_def)
  show "cm_rtp_unprotect std_crypto (cm_128 None Aes128CmHmacSha180 q) (flip_last aes128_srtp 1) driver_rtp_header 0 =
   Err Authentication"
    using rtp_tag_128 [of Aes128CmHmacSha180 None q]
    by (simp add: cm_rtp_unprotect_eq [OF std_crypto_laws] m cm_rtp_tag_def flip_last_def Let_def aes128_srtp_def)
  show "cm_rtp_unprotect std_crypto (cm_128 None Aes128CmHmacSha180 q) (take 17 (flip_last aes128_srtp 1)) driver_rtp_header 0 =
   Err InvalidPacket"
    by (simp add: cm_rtp_unprotect_eq [OF std_crypto_laws] m Let_def flip_last_def)
qed

lemma wrong_rtcp_packets_128:
  "cm_rtcp_unprotect std_crypto (cm_128 None p Aes128CmHmacSha180) (take 37 aes128_srtcp) driver_rtcp_header i 14 =
   Err Authentication"
  "cm_rtcp_unprotect std_crypto (cm_128 None p Aes128CmHmacSha180) (flip_last aes128_srtcp 1) driver_rtcp_header i 14 =
   Err Authentication"
proof -
  have m: "cm_rtcp_profile (cm_128 None p Aes128CmHmacSha180) = Aes128CmHmacSha180"
    by (simp add: cm_128_def)
  have short: "cm_rtcp_auth_tag std_crypto (cm_128 None p Aes128CmHmacSha180) (take 27 aes128_srtcp) =
      Ok (take 10 (the (hmac_sha1 std_crypto (the (ck_auth_key keys_rtcp_128)) (take 27 aes128_srtcp))))"
    by (simp add: cm_rtcp_auth_tag_def cm_run_defs hmac_short_rtcp_128 aes128_srtcp_def)
  show "cm_rtcp_unprotect std_crypto (cm_128 None p Aes128CmHmacSha180) (take 37 aes128_srtcp) driver_rtcp_header i 14 =
   Err Authentication"
    by (simp add: cm_rtcp_unprotect_eq [OF std_crypto_laws] m short)
      (simp add: keys_rtcp_128_def hmac_short_rtcp_128 aes128_srtcp_def)
  show "cm_rtcp_unprotect std_crypto (cm_128 None p Aes128CmHmacSha180) (flip_last aes128_srtcp 1) driver_rtcp_header i 14 =
   Err Authentication"
    using rtcp_tag_128 [of None p]
    by (simp add: cm_rtcp_unprotect_eq [OF std_crypto_laws] m flip_last_def Let_def aes128_srtcp_def)
qed

lemma mki_packets_128:
  "mki_srtp = take 28 aes128_srtp @ [0xe1, 0xf9, 0x7a, 0x0d] @ drop 28 aes128_srtp"
  "mki_srtcp = take 28 aes128_srtcp @ [0xe1, 0xf9, 0x7a, 0x0d] @ drop 28 aes128_srtcp"
  by (simp_all add: mki_srtp_def mki_srtcp_def aes128_srtp_def aes128_srtcp_def)

lemma rtp_round_trips_128:
  "cm_rtp_round_trip std_crypto (cm_128 None Aes128CmNullAuth Aes128CmHmacSha180) driver_rtp driver_rtp_header
     (take 28 aes128_srtp) = Ok (take 28 aes128_srtp)"
  "cm_rtp_round_trip std_crypto (cm_128 None Aes128CmHmacSha132 Aes128CmHmacSha180) driver_rtp driver_rtp_header
     (take 32 aes128_srtp) = Ok (take 32 aes128_srtp)"
  "cm_rtp_round_trip std_crypto (cm_128 None Aes128CmHmacSha180 Aes128CmHmacSha180) driver_rtp driver_rtp_header
     aes128_srtp = Ok aes128_srtp"
  "cm_rtp_round_trip std_crypto (cm_128 (Some [0xe1, 0xf9, 0x7a, 0x0d]) Aes128CmHmacSha180 Aes128CmHmacSha180)
     driver_rtp driver_rtp_header mki_srtp = Ok mki_srtp"
proof -
  have "take 28 aes128_srtp @ take 4 (drop 28 aes128_srtp) = take 32 aes128_srtp"
    "take 28 aes128_srtp @ take 10 (drop 28 aes128_srtp) = aes128_srtp"
    by (simp_all add: aes128_srtp_def)
  then show "cm_rtp_round_trip std_crypto (cm_128 None Aes128CmNullAuth Aes128CmHmacSha180) driver_rtp driver_rtp_header
       (take 28 aes128_srtp) = Ok (take 28 aes128_srtp)"
    "cm_rtp_round_trip std_crypto (cm_128 None Aes128CmHmacSha132 Aes128CmHmacSha180) driver_rtp driver_rtp_header
       (take 32 aes128_srtp) = Ok (take 32 aes128_srtp)"
    "cm_rtp_round_trip std_crypto (cm_128 None Aes128CmHmacSha180 Aes128CmHmacSha180) driver_rtp driver_rtp_header
       aes128_srtp = Ok aes128_srtp"
    "cm_rtp_round_trip std_crypto (cm_128 (Some [0xe1, 0xf9, 0x7a, 0x0d]) Aes128CmHmacSha180 Aes128CmHmacSha180)
       driver_rtp driver_rtp_header mki_srtp = Ok mki_srtp"
    by (simp_all add: round_trip_passes cm_128_ok rtp_protect_128 mki_packets_128)
qed

lemma cm_aes128_passes: "cm_aes128 std_crypto = Ok ()"
proof -
  have "take 28 aes128_srtcp @ drop 28 aes128_srtcp = aes128_srtcp" by (rule append_take_drop_id)
  then show ?thesis
    using rtcp_protect_128 [of None Aes128CmHmacSha180] rtcp_unprotect_128 [of Aes128CmHmacSha180 None]
    by (simp add: cm_aes128_def driver_headers cm_new_128 rtp_round_trips_128 wrong_packets_128 wrong_rtcp_packets_128
        Let_def del: One_nat_def)
qed

lemma cm_mki_passes: "cm_mki_test std_crypto = Ok ()"
  using rtcp_protect_128 [of "Some [0xe1, 0xf9, 0x7a, 0x0d]" Aes128CmHmacSha180]
    rtcp_unprotect_128 [of Aes128CmHmacSha180 "Some [0xe1, 0xf9, 0x7a, 0x0d]"]
  by (simp add: cm_mki_test_def driver_headers cm_new_128 rtp_round_trips_128 mki_packets_128(2))

text \<open>No cipher: the packets stay as they are, with a code.\<close>

lemma null_protect:
  "cm_rtp_protect std_crypto (cm_128 None NullCipherHmacSha180 NullCipherHmacSha180) driver_rtp driver_rtp_header 0 =
   Ok null_srtp"
  "cm_rtcp_protect std_crypto (cm_128 None NullCipherHmacSha180 NullCipherHmacSha180) driver_rtcp driver_rtcp_header 1 =
   Ok null_srtcp"
  by (simp_all add: cm_rtp_protect_def cm_rtcp_protect_def cm_rtp_auth_tag_def cm_rtcp_auth_tag_def cm_run_defs Let_def
      to_be_bytes32_def driver_rtp_def driver_rtcp_def hmac_null_rtp hmac_null_rtcp null_srtp_def null_srtcp_def)

lemma cm_nullcipher_passes: "cm_nullcipher std_crypto = Ok ()"
proof -
  have e: "cm_ok (cm_128 None NullCipherHmacSha180 NullCipherHmacSha180)"
    by (simp add: cm_128_ok)
  have "cm_rtcp_profile (cm_128 None NullCipherHmacSha180 NullCipherHmacSha180) = NullCipherHmacSha180"
    "cm_mki (cm_128 None NullCipherHmacSha180 NullCipherHmacSha180) = None"
    by (simp_all add: cm_128_def)
  then show ?thesis
    using cm_rtp_roundtrip [OF std_crypto_laws e _ null_protect(1)]
      cm_rtcp_roundtrip [OF std_crypto_laws e _ null_protect(2)]
    by (simp add: cm_nullcipher_def driver_headers cm_new_128 null_protect)
qed

text \<open>Session keys given directly.\<close>

lemma cm_aes192_passes: "cm_aes192 std_crypto = Ok ()"
proof -
  have h: "rtp_header_new aes192_rtp = Ok \<lparr>seq_num = 0, rtp_ssrc = 0, header_len = 12\<rparr>"
    by code_simp
  have iv: "cm_rtp_iv session_salt_192 \<lparr>seq_num = 0, rtp_ssrc = 0, header_len = 12\<rparr> 0 = session_salt_192 @ [0, 0]"
    by code_simp
  show ?thesis
    by (simp add: cm_aes192_def h Let_def cm_rtp_protect_def cm_rtp_encrypt_def iv apply_keystream_def)
      (simp add: session_key_192_def session_salt_192_def aes192_rtp_def ctr_rtp_192 aes192_srtp_def)
qed

text \<open>With 256 bits the RTCP keys do not matter: whatever they are, the RTP packets are those of the test.\<close>

lemma cm_new_256:
  assumes "p \<in> {Aes256CmNullAuth, Aes256CmHmacSha132, Aes256CmHmacSha180}"
  obtains t where "cm_new std_crypto key_256 salt_256 None p Aes256CmHmacSha180 = Ok t" "cm_ok t"
    "cm_rtp_profile t = p" "cm_rtp_key t = keys_for p keys_rtp_256" "cm_mki t = None"
proof -
  have fits: "master_fits key_256 salt_256 p" "master_fits key_256 salt_256 Aes256CmHmacSha180"
    and p: "\<not> is_gcm p" and q: "\<not> tag_len Aes256CmHmacSha180 < 10"
    using assms by (auto simp: master_fits_def key_256_def salt_256_def)
  from cm_new_ok [OF std_crypto_laws fits p q, of None] obtain t where
    t: "cm_new std_crypto key_256 salt_256 None p Aes256CmHmacSha180 = Ok t" "cm_ok t" "cm_rtp_profile t = p"
    "cm_mki t = None"
    by blast
  have "cm_rtp_key t = keys_for p keys_rtp_256"
    using t(1) by (auto simp: cm_new_def session_keys_256 [OF p] outcome_simps)
  with t show thesis by (intro that)
qed

lemma rtp_protect_256:
  assumes "p \<in> {Aes256CmNullAuth, Aes256CmHmacSha132, Aes256CmHmacSha180}"
    and t: "cm_rtp_profile t = p" "cm_rtp_key t = keys_for p keys_rtp_256" "cm_mki t = None"
  shows "cm_rtp_protect std_crypto t driver_rtp driver_rtp_header 0 = Ok (take (28 + tag_len p) aes256_srtp)"
proof -
  have body: "cm_rtp_crypt std_crypto t driver_rtp driver_rtp_header 0 = Ok (take 28 aes256_srtp)"
    using assms by (auto simp: cm_rtp_crypt_def cm_rtp_encrypt_def t keys_for_def keys_rtp_256_def driver_ivs
        apply_keystream_def ctr_rtp_256 driver_rtp_def aes256_srtp_def)
  have "cm_rtp_tag std_crypto t (take 28 aes256_srtp) 0 = Ok (take (tag_len p) (drop 28 aes256_srtp))"
    using assms by (auto simp: cm_rtp_tag_def cm_rtp_auth_tag_def t keys_for_def keys_rtp_256_def to_be_bytes32_def
        hmac_rtp_256 aes256_srtp_def)
  then show ?thesis
    by (simp add: cm_rtp_protect_eq body t take_add)
qed

lemma rtp_round_trip_256:
  assumes "p \<in> {Aes256CmNullAuth, Aes256CmHmacSha132, Aes256CmHmacSha180}"
  shows "and_then (cm_new std_crypto key_256 salt_256 None p Aes256CmHmacSha180) (\<lambda>e.
      and_then (cm_rtp_round_trip std_crypto e driver_rtp driver_rtp_header (take (28 + tag_len p) aes256_srtp)) f) =
    f (take (28 + tag_len p) aes256_srtp)"
proof (rule cm_new_256 [OF assms])
  fix t assume t: "cm_new std_crypto key_256 salt_256 None p Aes256CmHmacSha180 = Ok t" "cm_ok t"
    "cm_rtp_profile t = p" "cm_rtp_key t = keys_for p keys_rtp_256" "cm_mki t = None"
  show ?thesis
    using round_trip_passes [OF t(2) _ rtp_protect_256 [OF assms t(3-5)]] by (simp add: t(1))
qed

lemma round_trips_256:
  "and_then (cm_new std_crypto key_256 salt_256 None Aes256CmNullAuth Aes256CmHmacSha180) (\<lambda>e.
     and_then (cm_rtp_round_trip std_crypto e driver_rtp driver_rtp_header (take 28 aes256_srtp)) f) =
   f (take 28 aes256_srtp)"
  "and_then (cm_new std_crypto key_256 salt_256 None Aes256CmHmacSha132 Aes256CmHmacSha180) (\<lambda>e.
     and_then (cm_rtp_round_trip std_crypto e driver_rtp driver_rtp_header (take 32 aes256_srtp)) f) =
   f (take 32 aes256_srtp)"
  "and_then (cm_new std_crypto key_256 salt_256 None Aes256CmHmacSha180 Aes256CmHmacSha180) (\<lambda>e.
     and_then (cm_rtp_round_trip std_crypto e driver_rtp driver_rtp_header aes256_srtp) f) = f aes256_srtp"
proof -
  have "take 38 aes256_srtp = aes256_srtp" by (simp add: aes256_srtp_def)
  then show "and_then (cm_new std_crypto key_256 salt_256 None Aes256CmHmacSha180 Aes256CmHmacSha180) (\<lambda>e.
     and_then (cm_rtp_round_trip std_crypto e driver_rtp driver_rtp_header aes256_srtp) f) = f aes256_srtp"
    using rtp_round_trip_256 [of Aes256CmHmacSha180 f] by simp
qed (use rtp_round_trip_256 [of Aes256CmNullAuth f] rtp_round_trip_256 [of Aes256CmHmacSha132 f] in simp_all)

lemma cm_aes256_passes: "cm_aes256 std_crypto = Ok ()"
  by (simp add: cm_aes256_def driver_headers round_trips_256)

section \<open>The transform with Galois/counter mode\<close>

text \<open>The tests replace the derived keys of the transform by the key and salt they name.\<close>

definition gcm_with_keys :: "bytes \<Rightarrow> bytes \<Rightarrow> aes_gcm \<Rightarrow> aes_gcm" where
  "gcm_with_keys key salt e =
     e\<lparr>gcm_rtp_key := \<lparr>gk_key = key, gk_salt = salt\<rparr>, gcm_rtcp_key := \<lparr>gk_key = key, gk_salt = salt\<rparr>\<rparr>"

definition gcm_aes128 :: "crypto \<Rightarrow> unit result" where
  "gcm_aes128 C =
     and_then (rtp_header_new gcm_rtp) (\<lambda>hdr.
     and_then (rtcp_header_new gcm_rtcp) (\<lambda>rtcp_hdr.
     and_then (gcm_new C gcm_key_128 gcm_salt None AeadAes128Gcm AeadAes128Gcm) (\<lambda>e.
     let e = gcm_with_keys gcm_key_128 gcm_salt e in
     and_then (gcm_rtp_protect C e gcm_rtp hdr 0) (\<lambda>srtp_packet.
     and_then (assert_eq srtp_packet gcm128_srtp) (\<lambda>_.
     and_then (gcm_rtp_unprotect C e srtp_packet hdr 0) (\<lambda>rtp_packet.
     and_then (assert_eq rtp_packet gcm_rtp) (\<lambda>_.
     and_then (gcm_rtcp_protect C e gcm_rtcp rtcp_hdr 0x000005d4) (\<lambda>srtcp_packet.
     and_then (assert_eq srtcp_packet gcm128_srtcp) (\<lambda>_.
     and_then (gcm_rtcp_unprotect C e srtcp_packet rtcp_hdr 0x000005d4 4) (\<lambda>rtcp_packet.
     and_then (assert_eq rtcp_packet gcm_rtcp) (\<lambda>_.
     let srtp_packet = flip_last srtp_packet 1 in
     and_then (assert_eq (gcm_rtp_unprotect C e srtp_packet hdr 0) (Err Authentication)) (\<lambda>_.
     let srtcp_packet = flip_last srtcp_packet 5 in
     and_then (assert_eq (gcm_rtcp_unprotect C e srtcp_packet rtcp_hdr 0x000005d4 4) (Err Authentication)) (\<lambda>_.
     and_then (assert_eq (gcm_rtp_unprotect C e (take (header_len hdr + 5) srtp_packet) hdr 0)
       (Err InvalidPacket)) (\<lambda>_.
     assert_eq (gcm_rtcp_unprotect C e (take (header_len hdr + 5) srtcp_packet) rtcp_hdr 0x000005d4 4)
       (Err InvalidPacket)))))))))))))))"

definition gcm_aes256 :: "crypto \<Rightarrow> unit result" where
  "gcm_aes256 C =
     and_then (rtp_header_new gcm_rtp) (\<lambda>hdr.
     and_then (rtcp_header_new gcm_rtcp) (\<lambda>rtcp_hdr.
     and_then (gcm_new C gcm_key_256 gcm_salt None AeadAes256Gcm AeadAes256Gcm) (\<lambda>e.
     let e = gcm_with_keys gcm_key_256 gcm_salt e in
     and_then (gcm_rtp_protect C e gcm_rtp hdr 0) (\<lambda>srtp_packet.
     and_then (assert_eq srtp_packet gcm256_srtp) (\<lambda>_.
     and_then (gcm_rtp_unprotect C e srtp_packet hdr 0) (\<lambda>rtp_packet.
     and_then (assert_eq rtp_packet gcm_rtp) (\<lambda>_.
     and_then (gcm_rtcp_protect C e gcm_rtcp rtcp_hdr 0x000005d4) (\<lambda>srtcp_packet.
     and_then (assert_eq srtcp_packet gcm256_srtcp) (\<lambda>_.
     and_then (gcm_rtcp_unprotect C e srtcp_packet rtcp_hdr 0x000005d4 4) (\<lambda>rtcp_packet.
     assert_eq rtcp_packet gcm_rtcp))))))))))"

lemma std_wrong_tag:
  "gcm_encrypt std_crypto v k n ad d = Some (c, t) \<Longrightarrow> t' \<noteq> t \<Longrightarrow> gcm_decrypt std_crypto v k n ad c t' = None"
  by (auto simp: std_crypto_def std_gcm_encrypt_def std_gcm_decrypt_def Let_def split: if_splits)

definition gcm_test_transform :: "protection_profile \<Rightarrow> bytes \<Rightarrow> aes_gcm" where
  "gcm_test_transform p key =
     \<lparr>gcm_rtp_profile = p, gcm_rtcp_profile = p, gcm_rtp_key = \<lparr>gk_key = key, gk_salt = gcm_salt\<rparr>,
      gcm_rtcp_key = \<lparr>gk_key = key, gk_salt = gcm_salt\<rparr>, gcm_mki = None\<rparr>"

lemma gcm_new_test:
  assumes "is_gcm p" "length key = key_len p"
  obtains t where "gcm_new std_crypto key gcm_salt None p p = Ok t"
    "gcm_with_keys key gcm_salt t = gcm_test_transform p key"
proof -
  have fits: "master_fits key gcm_salt p"
    using assms by (auto simp: master_fits_def gcm_salt_def is_gcm_iff)
  from gcm_new_ok [OF std_crypto_laws fits fits assms(1) assms(1), of None] obtain t where
    "gcm_new std_crypto key gcm_salt None p p = Ok t" "gcm_mki t = None" "gcm_rtp_profile t = p" "gcm_rtcp_profile t = p"
    by blast
  then show thesis
    by (intro that [of t]; cases t) (simp_all add: gcm_with_keys_def gcm_test_transform_def)
qed

lemma gcm_test_ok: "is_gcm p \<Longrightarrow> length key = key_len p \<Longrightarrow> gcm_ok (gcm_test_transform p key)"
  by (simp add: gcm_ok_def gcm_test_transform_def gcm_salt_def)

definition gcm_rtp_header :: rtp_header where
  "gcm_rtp_header = \<lparr>seq_num = 0xf17b, rtp_ssrc = 0x5501a0b2, header_len = 12\<rparr>"

definition gcm_rtcp_header :: rtcp_header where
  "gcm_rtcp_header = \<lparr>rtcp_ssrc = 0x4d617273\<rparr>"

lemma gcm_headers:
  "rtp_header_new gcm_rtp = Ok gcm_rtp_header"
  "rtcp_header_new gcm_rtcp = Ok gcm_rtcp_header"
  by code_simp+

lemma gcm_header_len [simp]: "header_len gcm_rtp_header = 12"
  by (simp add: gcm_rtp_header_def)

lemma gcm_ivs:
  "gcm_get_rtp_iv (gcm_test_transform p key) gcm_rtp_header 0 =
    [0x51, 0x75, 0x3c, 0x65, 0x80, 0xc2, 0x72, 0x6f, 0x20, 0x71, 0x84, 0x14]"
  "gcm_get_rtcp_iv (gcm_test_transform p key) gcm_rtcp_header 0x5d4 =
    [0x51, 0x75, 0x24, 0x05, 0x52, 0x03, 0x72, 0x6f, 0x20, 0x71, 0x70, 0xbb]"
  by (simp_all add: gcm_get_rtp_iv_def gcm_get_rtcp_iv_def gcm_test_transform_def gcm_salt_def gcm_rtp_header_def
      gcm_rtcp_header_def to_be_bytes32_def to_be_bytes16_def Let_def)

lemma gcm_trailer: "to_be_bytes32 0x800005d4 = [0x80, 0x00, 0x05, 0xd4]"
  by code_simp

lemma gcm_lengths [simp]:
  "length gcm_key_128 = 16" "length gcm_key_256 = 32" "length gcm_rtp = 50" "length gcm_rtcp = 52"
  by (simp_all add: gcm_key_128_def gcm_key_256_def gcm_rtp_def gcm_rtcp_def)

lemmas gcm_run_defs = gcm_rtp_protect_def gcm_rtcp_protect_def gcm_rtp_encrypt_def gcm_rtcp_encrypt_def
  encrypt_in_place_detached_def gcm_ivs gcm_trailer Let_def

lemma gcm_test_simps [simp]:
  "gcm_rtp_profile (gcm_test_transform p key) = p" "gcm_rtcp_profile (gcm_test_transform p key) = p"
  "gk_key (gcm_rtp_key (gcm_test_transform p key)) = key" "gk_key (gcm_rtcp_key (gcm_test_transform p key)) = key"
  "gcm_mki (gcm_test_transform p key) = None"
  by (simp_all add: gcm_test_transform_def)

lemma gcm_protect_128:
  "gcm_rtp_protect std_crypto (gcm_test_transform AeadAes128Gcm gcm_key_128) gcm_rtp gcm_rtp_header 0 = Ok gcm128_srtp"
  "gcm_rtcp_protect std_crypto (gcm_test_transform AeadAes128Gcm gcm_key_128) gcm_rtcp gcm_rtcp_header 0x5d4 =
   Ok gcm128_srtcp"
  by (simp_all add: gcm_run_defs)
    (simp_all add: gcm_key_128_def gcm_rtp_def gcm_rtcp_def gcm_rtp_128 gcm_rtcp_128 gcm128_srtp_def gcm128_srtcp_def)

lemma gcm_protect_256:
  "gcm_rtp_protect std_crypto (gcm_test_transform AeadAes256Gcm gcm_key_256) gcm_rtp gcm_rtp_header 0 = Ok gcm256_srtp"
  "gcm_rtcp_protect std_crypto (gcm_test_transform AeadAes256Gcm gcm_key_256) gcm_rtcp gcm_rtcp_header 0x5d4 =
   Ok gcm256_srtcp"
  by (simp_all add: gcm_run_defs)
    (simp_all add: gcm_key_256_def gcm_rtp_def gcm_rtcp_def gcm_rtp_256 gcm_rtcp_256 gcm256_srtp_def gcm256_srtcp_def)

lemma gcm_aes256_passes: "gcm_aes256 std_crypto = Ok ()"
proof -
  have e: "gcm_ok (gcm_test_transform AeadAes256Gcm gcm_key_256)"
    by (rule gcm_test_ok) simp_all
  obtain t where t: "gcm_new std_crypto gcm_key_256 gcm_salt None AeadAes256Gcm AeadAes256Gcm = Ok t"
    "gcm_with_keys gcm_key_256 gcm_salt t = gcm_test_transform AeadAes256Gcm gcm_key_256"
    by (rule gcm_new_test [of AeadAes256Gcm gcm_key_256]) simp_all
  show ?thesis
    using gcm_rtp_roundtrip(2) [OF std_crypto_laws e _ gcm_protect_256(1)]
      gcm_rtcp_roundtrip(2) [OF std_crypto_laws e _ gcm_protect_256(2)]
    by (simp add: gcm_aes256_def gcm_headers t Let_def
        gcm_protect_256)
qed

text \<open>A changed tag is noticed, a short packet refused.\<close>

lemma gcm_wrong_128:
  "gcm_rtp_unprotect std_crypto (gcm_test_transform AeadAes128Gcm gcm_key_128) (flip_last gcm128_srtp 1) gcm_rtp_header 0 =
   Err Authentication"
  "gcm_rtcp_unprotect std_crypto (gcm_test_transform AeadAes128Gcm gcm_key_128) (flip_last gcm128_srtcp 5) gcm_rtcp_header
     0x5d4 4 = Err Authentication"
  "gcm_rtp_unprotect std_crypto (gcm_test_transform AeadAes128Gcm gcm_key_128) (take 17 (flip_last gcm128_srtp 1))
     gcm_rtp_header 0 = Err InvalidPacket"
  "gcm_rtcp_unprotect std_crypto (gcm_test_transform AeadAes128Gcm gcm_key_128) (take 17 (flip_last gcm128_srtcp 5))
     gcm_rtcp_header 0x5d4 4 = Err InvalidPacket"
proof -
  note run = gcm_rtp_unprotect_def gcm_rtcp_unprotect_def gcm_rtp_decrypt_def gcm_rtcp_decrypt_def
    decrypt_in_place_detached_def gcm_ivs gcm_trailer Let_def AES_GCM_TAG_LEN_def vec_truncate_def flip_last_def
  show "gcm_rtp_unprotect std_crypto (gcm_test_transform AeadAes128Gcm gcm_key_128) (flip_last gcm128_srtp 1)
      gcm_rtp_header 0 = Err Authentication"
    by (simp add: run gcm128_srtp_def) (simp add: gcm_key_128_def std_wrong_tag [OF gcm_rtp_128])
  show "gcm_rtcp_unprotect std_crypto (gcm_test_transform AeadAes128Gcm gcm_key_128) (flip_last gcm128_srtcp 5)
      gcm_rtcp_header 0x5d4 4 = Err Authentication"
    by (simp add: run gcm128_srtcp_def) (simp add: gcm_key_128_def std_wrong_tag [OF gcm_rtcp_128])
qed (simp_all add: gcm_rtp_unprotect_def gcm_rtcp_unprotect_def AES_GCM_TAG_LEN_def flip_last_def Let_def
    gcm128_srtp_def gcm128_srtcp_def)

lemma gcm_aes128_passes: "gcm_aes128 std_crypto = Ok ()"
proof -
  have e: "gcm_ok (gcm_test_transform AeadAes128Gcm gcm_key_128)"
    by (rule gcm_test_ok) simp_all
  obtain t where t: "gcm_new std_crypto gcm_key_128 gcm_salt None AeadAes128Gcm AeadAes128Gcm = Ok t"
    "gcm_with_keys gcm_key_128 gcm_salt t = gcm_test_transform AeadAes128Gcm gcm_key_128"
    by (rule gcm_new_test [of AeadAes128Gcm gcm_key_128]) simp_all
  show ?thesis
    using gcm_rtp_roundtrip(2) [OF std_crypto_laws e _ gcm_protect_128(1)]
      gcm_rtcp_roundtrip(2) [OF std_crypto_laws e _ gcm_protect_128(2)]
    by (simp add: gcm_aes128_def gcm_headers t Let_def
        gcm_protect_128 gcm_wrong_128 del: One_nat_def)
qed

lemma transform_tests_pass:
  "cm_nullcipher std_crypto = Ok ()" "cm_aes128 std_crypto = Ok ()" "cm_aes192 std_crypto = Ok ()"
  "cm_aes256 std_crypto = Ok ()" "cm_mki_test std_crypto = Ok ()"
  "gcm_aes128 std_crypto = Ok ()" "gcm_aes256 std_crypto = Ok ()"
  by (rule cm_nullcipher_passes cm_aes128_passes cm_aes192_passes cm_aes256_passes cm_mki_passes gcm_aes128_passes
      gcm_aes256_passes)+

end
