(* ===== verification/Srtp_Unit_Tests.thy ===== *)
theory Srtp_Unit_Tests
  imports Srtp_Whole_Streams
begin

text \<open>
  The deterministic unit tests of the repository as values of the model: those of
  \<^verbatim>\<open>libsrtp/src/header.rs\<close> and \<^verbatim>\<open>libsrtp/src/replay.rs\<close>, one definition per test with its assertions
  in their order, and the table of valid profiles of \<^verbatim>\<open>test_utils/src/lib.rs\<close>. The tests of the replay
  databases hold for every implementation of big integers.
\<close>

section \<open>Headers\<close>

definition no_ext_no_csrc :: bool where
  "no_ext_no_csrc \<longleftrightarrow>
    rtp_header_new [0x80, 0x0f, 0x12, 0x34, 0xde, 0xca, 0xfb, 0xad, 0xca, 0xfe, 0xba, 0xbe, 0xab, 0xab,
      0xab, 0xab, 0xab, 0xab, 0xab, 0xab, 0xab, 0xab, 0xab, 0xab, 0xab, 0xab, 0xab, 0xab] =
      Ok \<lparr>seq_num = 0x1234, rtp_ssrc = 0xcafebabe, header_len = 12\<rparr>"

definition no_ext_csrcs :: bool where
  "no_ext_csrcs \<longleftrightarrow>
    rtp_header_new [0x81, 0x0f, 0x12, 0x34, 0xde, 0xca, 0xfb, 0xad, 0xca, 0xfe, 0xba, 0xbe, 0x01, 0x02,
      0x03, 0x04, 0xab, 0xab, 0xab, 0xab, 0xab, 0xab, 0xab, 0xab, 0xab, 0xab, 0xab, 0xab,
      0xab, 0xab, 0xab, 0xab] =
      Ok \<lparr>seq_num = 0x1234, rtp_ssrc = 0xcafebabe, header_len = 16\<rparr> \<and>
    rtp_header_new [0x83, 0x0f, 0x12, 0x34, 0xde, 0xca, 0xfb, 0xad, 0xca, 0xfe, 0xba, 0xbe, 0x01, 0x02,
      0x03, 0x04, 0x05, 0x06, 0x07, 0x08, 0x09, 0x0a, 0x0b, 0x0c, 0xab, 0xab, 0xab, 0xab,
      0xab, 0xab, 0xab, 0xab, 0xab, 0xab, 0xab, 0xab, 0xab, 0xab, 0xab, 0xab] =
      Ok \<lparr>seq_num = 0x1234, rtp_ssrc = 0xcafebabe, header_len = 24\<rparr>"

definition ext_no_csrcs :: bool where
  "ext_no_csrcs \<longleftrightarrow>
    rtp_header_new [0x90, 0x0f, 0x12, 0x34, 0xde, 0xca, 0xfb, 0xad, 0xca, 0xfe, 0xba, 0xbe, 0xca, 0xfe,
      0x00, 0x00, 0xab, 0xab, 0xab, 0xab, 0xab, 0xab, 0xab, 0xab, 0xab, 0xab, 0xab, 0xab,
      0xab, 0xab, 0xab, 0xab] =
      Ok \<lparr>seq_num = 0x1234, rtp_ssrc = 0xcafebabe, header_len = 16\<rparr> \<and>
    rtp_header_new [0x90, 0x0f, 0x12, 0x34, 0xde, 0xca, 0xfb, 0xad, 0xca, 0xfe, 0xba, 0xbe, 0xca, 0xfe,
      0x00, 0x01, 0x00, 0xff, 0x01, 0xfe, 0xab, 0xab, 0xab, 0xab, 0xab, 0xab, 0xab, 0xab,
      0xab, 0xab, 0xab, 0xab, 0xab, 0xab, 0xab, 0xab] =
      Ok \<lparr>seq_num = 0x1234, rtp_ssrc = 0xcafebabe, header_len = 20\<rparr>"

definition ext_and_csrcs :: bool where
  "ext_and_csrcs \<longleftrightarrow>
    rtp_header_new [0x91, 0x0f, 0x12, 0x34, 0xde, 0xca, 0xfb, 0xad, 0xca, 0xfe, 0xba, 0xbe, 0x01, 0x02,
      0x03, 0x04, 0xca, 0xfe, 0x00, 0x00, 0xab, 0xab, 0xab, 0xab, 0xab, 0xab, 0xab, 0xab,
      0xab, 0xab, 0xab, 0xab, 0xab, 0xab, 0xab, 0xab] =
      Ok \<lparr>seq_num = 0x1234, rtp_ssrc = 0xcafebabe, header_len = 20\<rparr> \<and>
    rtp_header_new [0x93, 0x0f, 0x12, 0x34, 0xde, 0xca, 0xfb, 0xad, 0xca, 0xfe, 0xba, 0xbe, 0x01, 0x02,
      0x03, 0x04, 0x05, 0x06, 0x07, 0x08, 0x09, 0x0a, 0x0b, 0x0c, 0xca, 0xfe, 0x00, 0x01,
      0x00, 0xff, 0x01, 0xfe, 0xab, 0xab, 0xab, 0xab, 0xab, 0xab, 0xab, 0xab, 0xab, 0xab,
      0xab, 0xab, 0xab, 0xab, 0xab, 0xab] =
      Ok \<lparr>seq_num = 0x1234, rtp_ssrc = 0xcafebabe, header_len = 32\<rparr>"

definition invalid_packet :: bool where
  "invalid_packet \<longleftrightarrow>
    rtp_header_new [0x80, 0x0f, 0x12, 0x34, 0xde, 0xca, 0xfe] =
      Err InvalidPacket \<and>
    rtp_header_new [0xe0, 0x0f, 0x12, 0x34, 0xde, 0xca, 0xfb, 0xad, 0xca, 0xfe, 0xba, 0xbe, 0xab, 0xab,
      0xab, 0xab, 0xab, 0xab, 0xab, 0xab, 0xab, 0xab, 0xab, 0xab, 0xab, 0xab, 0xab, 0xab] =
      Err InvalidPacket \<and>
    rtp_header_new [0x90, 0x0f, 0x12, 0x34, 0xde, 0xca, 0xfb, 0xad, 0xca, 0xfe, 0xba, 0xbe, 0xca, 0xfe,
      0x01, 0x00, 0xab, 0xab, 0xab, 0xab, 0xab, 0xab, 0xab, 0xab, 0xab, 0xab, 0xab, 0xab,
      0xab, 0xab, 0xab, 0xab] =
      Err InvalidPacket \<and>
    rtp_header_new [0x85, 0x0f, 0x12, 0x34, 0xde, 0xca, 0xfb, 0xad, 0xca, 0xfe, 0xba, 0xbe, 0xab, 0xab,
      0xab, 0xab, 0xab, 0xab, 0xab, 0xab, 0xab, 0xab, 0xab, 0xab, 0xab, 0xab, 0xab, 0xab] =
      Err InvalidPacket"

lemma header_tests_pass: "no_ext_no_csrc" "no_ext_csrcs" "ext_no_csrcs" "ext_and_csrcs" "invalid_packet"
  by code_simp+

section \<open>Replay databases\<close>

definition TEST_WINDOW_SIZE :: u16 where "TEST_WINDOW_SIZE = 128"

definition rtp_replay :: "'b biguint \<Rightarrow> bool" where
  "rtp_replay B \<longleftrightarrow>
    (let db = rtp_add_index B (rtp_replay_new B TEST_WINDOW_SIZE) 0xfffe in
     rtp_seen_index B db 0xfffe \<and>
     rtp_estimate_index db 0xffff = 0xffff \<and>
     rtp_estimate_index db 0xfffa = 0xfffa \<and>
     rtp_get_roc db = 0 \<and>
     rtp_estimate_index db 0x0001 = 0x10001 \<and>
    (let db = rtp_add_index B db 0x10001 in
     rtp_get_roc db = 1 \<and>
     rtp_seen_index B db 0xfffe \<and>
     rtp_seen_index B db 0x10001 \<and>
     rtp_estimate_index db 0xfff0 = 0xfff0 \<and>
     \<not> rtp_seen_index B db 0xfff0 \<and>
     \<not> rtp_seen_index B db 0x10002 \<and>
     \<not> rtp_seen_index B db (0x10001 - ucast TEST_WINDOW_SIZE + 1) \<and>
     rtp_seen_index B db (0x10001 - ucast TEST_WINDOW_SIZE) \<and>
    (let db = rtp_add_index B db 0xfffa in
     rtp_seen_index B db 0xfffa \<and>
     r_index db = 0x10001 \<and>
     rtp_seen_index B db 0xfffa \<and>
     rtp_seen_index B db 0xfffe \<and>
     rtp_seen_index B db 0x10001 \<and>
    (let db = rtp_add_index B db 0x1000f in
     rtp_seen_index B db 0xfffa \<and>
     rtp_seen_index B db 0xfffe \<and>
     rtp_seen_index B db 0x10001 \<and>
     rtp_seen_index B db 0x1000f \<and>
     rtp_get_roc db = 1 \<and>
    (let db = rtp_set_roc db 2 in
     rtp_get_roc db = 1 \<and>
     rtp_estimate_index db 0x0042 = 0x20042 \<and>
     rtp_get_roc db = 1 \<and>
     rtp_get_roc (rtp_add_index B db 0x20042) = 2))))) \<and>
    (let db = rtp_set_roc (rtp_replay_new B TEST_WINDOW_SIZE) 0xfffffffe;
         index = rtp_estimate_index db 2
     in index = 0xfffffffe0002 \<and> \<not> rtp_seen_index B db index) \<and>
    (let db = rtp_add_index B (rtp_add_index B (rtp_replay_new B TEST_WINDOW_SIZE) 2) 3 in
     rtp_seen_index B db 2 \<and>
     rtp_seen_index B db 3 \<and>
    (let db = rtp_set_roc db 3;
         index = rtp_estimate_index db 2
     in index = 0x30002 \<and> \<not> rtp_seen_index B db index))"

definition rtcp_roll_over :: "'b biguint \<Rightarrow> bool" where
  "rtcp_roll_over B \<longleftrightarrow>
    (let db = (rtcp_replay_new B TEST_WINDOW_SIZE)\<lparr>rc_index := 0x7ffffffa\<rparr>;
         index = 0x7ffffffe;
         db = rtcp_add_index B db index
     in rc_index db = index \<and>
    (let index = index + 1;
         db = rtcp_add_index B db index
     in rtcp_seen_index B db (index - 1) \<and>
     rtcp_seen_index B db index \<and>
     rc_index db = index \<and>
    (let index = 2 in
     \<not> rtcp_seen_index B db index \<and>
    (let db = rtcp_add_index B db index in
     rc_index db = index \<and>
     rtcp_seen_index B db index \<and>
     rtcp_seen_index B db 0x7ffffffe \<and>
     rtcp_seen_index B db 0x7fffffff \<and>
     \<not> rtcp_seen_index B db 0x7ffffffd \<and>
    (let db = rtcp_add_index B db 0x7ffffffd in
     rtcp_seen_index B db 0x7ffffffd \<and> rc_index db = index)))))"

lemmas rtp_run = rtp_add_index_def rtp_seen_index_def rtp_estimate_index_def rtp_get_roc_def
  rtp_set_roc_def rtp_replay_new_def TEST_WINDOW_SIZE_def MAX_SEQ_NUM_STEP_def

lemmas rtcp_run = rtcp_add_index_def rtcp_seen_index_def rtcp_replay_new_def TEST_WINDOW_SIZE_def
  RTCP_ROLLBACK_def MAX_RTCP_STEP_def

lemma rtp_replay_pass:
  assumes "biguint_laws B"
  shows "rtp_replay B"
  unfolding rtp_replay_def Let_def
  by (intro conjI; simp add: rtp_run Let_def big_simps [OF assms] flip: big_mask_def)

lemma one_below_step: "\<not> 0x40000000 \<le> (1 :: u64)"
  by (simp add: word_le_nat_alt)

lemma rtcp_roll_over_pass:
  assumes "biguint_laws B"
  shows "rtcp_roll_over B"
  unfolding rtcp_roll_over_def Let_def
  by (intro conjI; simp add: rtcp_run Let_def one_below_step big_simps [OF assms] flip: big_mask_def)

section \<open>The helpers of the tests\<close>

text \<open>Random bytes, numbers and shuffles are arguments: \<open>rng i\<close> is the \<open>i\<close>th value drawn.\<close>

definition create_rtp_packet :: "(nat \<Rightarrow> u8) \<Rightarrow> nat \<Rightarrow> u32 \<Rightarrow> u16 \<Rightarrow> bytes" where
  "create_rtp_packet rng payload_size ssrc seqnum =
     (let rtp = [0x80, 0x0f];
          rtp = rtp @ to_be_bytes16 seqnum;
          rtp = rtp @ to_be_bytes32 (push_bit 10 (ucast seqnum));
          rtp = rtp @ to_be_bytes32 ssrc;
          payload = map rng [0..<payload_size]
      in rtp @ payload)"

definition create_rtcp_packet :: "(nat \<Rightarrow> u8) \<Rightarrow> nat \<Rightarrow> u32 \<Rightarrow> bytes" where
  "create_rtcp_packet rng payload_size ssrc =
     (let rtcp = [0x80, 200, 0x12, 0x34];
          rtcp = rtcp @ to_be_bytes32 ssrc;
          payload = map rng [0..<payload_size div 4 * 4]
      in rtcp @ payload)"

definition get_seq_nums :: "(nat \<Rightarrow> u16) \<Rightarrow> nat \<Rightarrow> u16 list" where
  "get_seq_nums rng sz = map (\<lambda>i. rng i AND 0x7fff) [0..<sz]"

definition get_ssrcs :: "(nat \<Rightarrow> u32) \<Rightarrow> nat \<Rightarrow> u32 list" where
  "get_ssrcs rng sz = map rng [0..<sz]"

definition rnd_range :: "(nat list \<Rightarrow> nat list) \<Rightarrow> nat \<Rightarrow> nat \<Rightarrow> nat list" where
  "rnd_range shuffle b e = (let indices = [b..<e] in shuffle indices)"

lemma created_packets:
  "create_rtp_packet rng n ssrc seqnum = plain_rtp (map rng [0..<n]) ssrc seqnum"
  "create_rtcp_packet rng n ssrc = plain_rtcp (map rng [0..<n div 4 * 4]) ssrc"
  by (simp_all add: create_rtp_packet_def create_rtcp_packet_def plain_rtp_def plain_rtcp_def Let_def)

lemma created_headers:
  "rtp_header_new (create_rtp_packet rng n ssrc seqnum) = Ok \<lparr>seq_num = seqnum, rtp_ssrc = ssrc, header_len = 12\<rparr>"
  "rtcp_header_new (create_rtcp_packet rng n ssrc) = Ok \<lparr>rtcp_ssrc = ssrc\<rparr>"
  by (simp_all add: created_packets rtp_header_of_packet rtcp_header_of_packet)

text \<open>The sequence numbers the tests start from leave room for the receiver to guess the first ROC.\<close>

lemma get_seq_nums_small: "seq \<in> set (get_seq_nums rng n) \<Longrightarrow> unat seq < 32768"
proof -
  have "unat (x AND 0x7fff) < 32768" for x :: u16
  proof -
    have "x AND 0x7fff \<le> 0x7fff" by (simp add: word_and_le1)
    then show ?thesis by (simp add: word_le_nat_alt)
  qed
  then show "seq \<in> set (get_seq_nums rng n) \<Longrightarrow> unat seq < 32768"
    by (auto simp: get_seq_nums_def)
qed

section \<open>Valid profiles\<close>

definition VALID_PROFILES :: "(protection_profile \<times> protection_profile) list" where
  "VALID_PROFILES =
    [(NullCipherHmacSha180, NullCipherHmacSha180),
     (Aes128CmHmacSha180, Aes128CmHmacSha180),
     (Aes128CmHmacSha132, Aes128CmHmacSha180),
     (Aes128CmNullAuth, Aes128CmHmacSha180),
     (Aes128CmHmacSha180, NullCipherHmacSha180),
     (Aes192CmHmacSha180, Aes192CmHmacSha180),
     (Aes192CmHmacSha132, Aes192CmHmacSha180),
     (Aes192CmNullAuth, Aes192CmHmacSha180),
     (Aes192CmHmacSha180, NullCipherHmacSha180),
     (Aes256CmHmacSha180, Aes256CmHmacSha180),
     (Aes256CmHmacSha132, Aes256CmHmacSha180),
     (Aes256CmNullAuth, Aes256CmHmacSha180),
     (Aes256CmHmacSha180, NullCipherHmacSha180),
     (AeadAes128Gcm, AeadAes128Gcm),
     (AeadAes256Gcm, AeadAes256Gcm)]"

text \<open>
  \<^verbatim>\<open>generate_keys\<close> fills a key and a salt of these sizes with random bytes, which are an argument here:
  16 bytes for the profile without a cipher, 14 when the profile asks for no salt.
\<close>

definition generate_keys :: "(nat \<Rightarrow> u8) \<Rightarrow> protection_profile \<Rightarrow> bytes \<times> bytes" where
  "generate_keys rng profile =
     (let n = max (key_len profile) 16;
          master_key = map rng [0..<n];
          master_salt = (if salt_len profile = 0 then map (\<lambda>i. rng (n + i)) [0..<14]
                         else map (\<lambda>i. rng (n + i)) [0..<salt_len profile])
      in (master_key, master_salt))"

text \<open>With keys of these sizes every pair of the table gives a configuration that can be delivered.\<close>

lemma valid_profile_sizes:
  assumes "(rtp, rtcp) \<in> set VALID_PROFILES" "generate_keys rng rtp = (mk, salt)"
  shows "is_gcm rtp = is_gcm rtcp" "\<not> tag_len rtcp < 10 \<or> is_gcm rtcp"
    and "sizes_fit rtp (length mk) (length salt)" "sizes_fit rtcp (length mk) (length salt)"
    and "0 < key_len rtp \<or> length mk = 16"
  using assms
  by (simp_all only: VALID_PROFILES_def list.set insert_iff empty_iff prod.inject)
    (elim disjE conjE; auto simp: generate_keys_def Let_def sizes_fit_def)+

lemma valid_profile_deliverable:
  assumes "(rtp, rtcp) \<in> set VALID_PROFILES" "generate_keys rng rtp = (mk, salt)" "m \<noteq> Some []"
  shows "deliverable (stream_config_new [master_key_new mk salt m] rtp rtcp)"
  using valid_profile_sizes [OF assms(1,2)] assms(3)
  by (auto simp: deliverable_def config_ok_def valid_config_def no_empty_mki_def stream_config_new_def
      stream_config_default_def master_key_new_def same_sizes_def DEFAULT_REPLAY_WINDOW_SIZE_def
      lifetime_ok_default Let_def is_gcm_iff)

end
