(* ===== verification/Srtp_Stream_Tests.thy ===== *)
theory Srtp_Stream_Tests
  imports Srtp_Known_Answers Srtp_Unit_Tests
begin

text \<open>
  The unit tests of \<^verbatim>\<open>libsrtp/src/stream.rs\<close>, one definition per test with its steps in their order,
  as in \<open>Srtp_Known_Answers\<close>: a test returns \<open>Ok ()\<close> when it passes. The tests with patterns pass with the
  published algorithms, the test of the key limits with any that satisfy the laws; both with any big
  integers.
\<close>

section \<open>Streams against known packets\<close>

text \<open>A call in a test: the calls of the handler are left aside, \<^verbatim>\<open>?\<close> follows.\<close>

definition returned :: "'s \<times> srtp_error list \<times> 'a result \<Rightarrow> ('s \<times> 'a) result" where
  "returned out = (case out of (s, _, x) \<Rightarrow> and_then x (\<lambda>y. Ok (s, y)))"

text \<open>The steps the tests share: a packet is protected, compared, unprotected and compared.\<close>

definition rtp_exchange ::
    "'b biguint \<Rightarrow> crypto \<Rightarrow> rtp_header \<Rightarrow> bytes \<Rightarrow> mki \<Rightarrow> bytes \<Rightarrow> 'b send_stream \<Rightarrow> 'b recv_stream \<Rightarrow>
     ('b send_stream \<times> 'b recv_stream \<times> bytes) result" where
  "rtp_exchange B C hdr plain m expected s r =
     and_then (returned (send_rtp_protect B C hdr plain m s)) (\<lambda>(s, srtp_packet).
     and_then (assert_eq srtp_packet expected) (\<lambda>_.
     and_then (returned (recv_rtp_unprotect B C hdr srtp_packet r)) (\<lambda>(r, rtp_packet).
     and_then (assert_eq rtp_packet plain) (\<lambda>_. Ok (s, r, srtp_packet)))))"

definition rtcp_exchange ::
    "'b biguint \<Rightarrow> crypto \<Rightarrow> rtcp_header \<Rightarrow> bytes \<Rightarrow> mki \<Rightarrow> bytes \<Rightarrow> 'b send_stream \<Rightarrow> 'b recv_stream \<Rightarrow>
     ('b send_stream \<times> 'b recv_stream \<times> bytes) result" where
  "rtcp_exchange B C hdr plain m expected s r =
     and_then (returned (send_rtcp_protect C hdr plain m s)) (\<lambda>(s, srtcp_packet).
     and_then (assert_eq srtcp_packet expected) (\<lambda>_.
     and_then (returned (recv_rtcp_unprotect B C hdr srtcp_packet r)) (\<lambda>(r, rtcp_packet).
     and_then (assert_eq rtcp_packet plain) (\<lambda>_. Ok (s, r, srtcp_packet)))))"

text \<open>New streams exchange an RTP packet, and then an RTCP packet from index 1 on.\<close>

definition rtp_only_exchange ::
    "'b biguint \<Rightarrow> crypto \<Rightarrow> stream_config \<Rightarrow> rtp_header \<Rightarrow> bytes \<Rightarrow> unit result" where
  "rtp_only_exchange B C config hdr expected =
     and_then (send_new B C 0xcafebabe config False) (\<lambda>s.
     and_then (recv_new B C 0xcafebabe config False) (\<lambda>r.
     and_then (rtp_exchange B C hdr driver_rtp None expected s r) (\<lambda>_. Ok ())))"

definition both_exchange ::
    "'b biguint \<Rightarrow> crypto \<Rightarrow> stream_config \<Rightarrow> mki \<Rightarrow> rtp_header \<Rightarrow> rtcp_header \<Rightarrow> bytes \<Rightarrow> bytes \<Rightarrow>
     ('b send_stream \<times> bytes \<times> bytes) result" where
  "both_exchange B C config m hdr rtcp_hdr expected rtcp_expected =
     and_then (send_new B C 0xcafebabe config False) (\<lambda>s.
     let s = s\<lparr>s_rtcp_index := 1\<rparr> in
     and_then (recv_new B C 0xcafebabe config False) (\<lambda>r.
     and_then (rtp_exchange B C hdr driver_rtp m expected s r) (\<lambda>(s, r, srtp_packet).
     and_then (rtcp_exchange B C rtcp_hdr driver_rtcp m rtcp_expected s r) (\<lambda>(s, r, srtcp_packet).
     Ok (s, srtp_packet, srtcp_packet)))))"

definition stream_nullcipher :: "'b biguint \<Rightarrow> crypto \<Rightarrow> unit result" where
  "stream_nullcipher B C =
     and_then (rtp_header_new driver_rtp) (\<lambda>hdr.
     and_then (rtcp_header_new driver_rtcp) (\<lambda>rtcp_hdr.
     let config = stream_config_new [master_key_new key_128 salt_128 None] NullCipherHmacSha180 NullCipherHmacSha180 in
     and_then (both_exchange B C config None hdr rtcp_hdr null_srtp null_srtcp) (\<lambda>_. Ok ())))"

definition stream_aes128 :: "'b biguint \<Rightarrow> crypto \<Rightarrow> unit result" where
  "stream_aes128 B C =
     (let keys = [master_key_new key_128 salt_128 None] in
     and_then (rtp_header_new driver_rtp) (\<lambda>hdr.
     and_then (rtcp_header_new driver_rtcp) (\<lambda>rtcp_hdr.
     let config = stream_config_new keys Aes128CmNullAuth Aes128CmHmacSha180 in
     and_then (rtp_only_exchange B C config hdr (take (length driver_rtp) aes128_srtp)) (\<lambda>_.
     let config = stream_config_new keys Aes128CmHmacSha132 Aes128CmHmacSha180 in
     and_then (rtp_only_exchange B C config hdr (take (length driver_rtp + 4) aes128_srtp)) (\<lambda>_.
     let config = stream_config_new keys Aes128CmHmacSha180 Aes128CmHmacSha180 in
     and_then (both_exchange B C config None hdr rtcp_hdr aes128_srtp aes128_srtcp) (\<lambda>(s, srtp_packet, srtcp_packet).
     and_then (recv_new B C 0xcafebabe config False) (\<lambda>r.
     case recv_rtp_unprotect B C hdr (take (length srtp_packet - 1) srtp_packet) r of (r, _, x) \<Rightarrow>
     and_then (assert_eq x (Err Authentication)) (\<lambda>_.
     case recv_rtcp_unprotect B C rtcp_hdr (take (length srtcp_packet - 1) srtcp_packet) r of (r, _, x) \<Rightarrow>
     and_then (assert_eq x (Err Authentication)) (\<lambda>_.
     let srtp_packet = flip_last srtp_packet 1 in
     case recv_rtp_unprotect B C hdr srtp_packet r of (r, _, x) \<Rightarrow>
     and_then (assert_eq x (Err Authentication)) (\<lambda>_.
     let srtcp_packet = flip_last srtcp_packet 1 in
     case recv_rtcp_unprotect B C rtcp_hdr srtcp_packet r of (r, _, x) \<Rightarrow>
     and_then (assert_eq x (Err Authentication)) (\<lambda>_.
     case recv_rtp_unprotect B C hdr (take 16 srtp_packet) r of (r, _, x) \<Rightarrow>
     and_then (assert_eq x (Err InvalidPacket)) (\<lambda>_.
     case recv_rtcp_unprotect B C rtcp_hdr (take (rtcp_header_len + 5) srtcp_packet) r of (r, _, x) \<Rightarrow>
     assert_eq x (Err InvalidPacket)))))))))))))"

definition stream_aes256 :: "'b biguint \<Rightarrow> crypto \<Rightarrow> unit result" where
  "stream_aes256 B C =
     (let keys = [master_key_new key_256 salt_256 None] in
     and_then (rtp_header_new driver_rtp) (\<lambda>hdr.
     let config = stream_config_new keys Aes256CmNullAuth Aes256CmHmacSha180 in
     and_then (rtp_only_exchange B C config hdr (take (length driver_rtp) aes256_srtp)) (\<lambda>_.
     let config = stream_config_new keys Aes256CmHmacSha132 Aes256CmHmacSha180 in
     and_then (rtp_only_exchange B C config hdr (take (length driver_rtp + 4) aes256_srtp)) (\<lambda>_.
     let config = stream_config_new keys Aes256CmHmacSha180 Aes256CmHmacSha180 in
     rtp_only_exchange B C config hdr aes256_srtp))))"

definition mki_srtp_id_2 :: bytes where
  "mki_srtp_id_2 =
     [0x80, 0x0f, 0x12, 0x34, 0xde, 0xca, 0xfb, 0xad, 0xca, 0xfe, 0xba, 0xbe, 0x4e, 0x55,
      0xdc, 0x4c, 0xe7, 0x99, 0x78, 0xd8, 0x8c, 0xa4, 0xd2, 0x15, 0x94, 0x9d, 0x24, 0x02,
      0xf3, 0xa1, 0x46, 0x71, 0xb7, 0x8d, 0x6a, 0xcc, 0x99, 0xea, 0x17, 0x9b, 0x8d, 0xbb]"

definition mki_srtcp_id_2 :: bytes where
  "mki_srtcp_id_2 =
     [0x81, 0xc8, 0x00, 0x0b, 0xca, 0xfe, 0xba, 0xbe, 0x71, 0x28, 0x03, 0x5b, 0xe4, 0x87,
      0xb9, 0xbd, 0xbe, 0xf8, 0x90, 0x41, 0xf9, 0x77, 0xa5, 0xa8, 0x80, 0x00, 0x00, 0x01,
      0xf3, 0xa1, 0x46, 0x71, 0x99, 0x3e, 0x08, 0xcd, 0x54, 0xd6, 0xc1, 0x23, 0x07, 0x98]"

text \<open>\<^verbatim>\<open>update\<close> iterates over the map of a configuration with one key, so its order is determined.\<close>

definition stream_mki :: "'b biguint \<Rightarrow> crypto \<Rightarrow> unit result" where
  "stream_mki B C =
     (let mki_id = Some [0xe1, 0xf9, 0x7a, 0x0d];
          mki_id_2 = Some [0xf3, 0xa1, 0x46, 0x71];
          mki_id_too_short = Some [0xf3, 0xa1];
          key = master_key_new key_128 salt_128;
          config = (\<lambda>keys. stream_config_new keys Aes128CmHmacSha180 Aes128CmHmacSha180)
      in
      and_then (rtp_header_new driver_rtp) (\<lambda>hdr.
      and_then (rtcp_header_new driver_rtcp) (\<lambda>rtcp_hdr.
      and_then (both_exchange B C (config [key mki_id]) mki_id hdr rtcp_hdr mki_srtp mki_srtcp) (\<lambda>(s, _, _).
      case send_update B C [None] (config [key None]) s of (s, x) \<Rightarrow>
      and_then (assert_eq x (Err InvalidProfile)) (\<lambda>_.
      case send_update B C [mki_id_too_short] (config [key mki_id_too_short]) s of (s, x) \<Rightarrow>
      and_then (assert_eq x (Err InvalidProfile)) (\<lambda>_.
      and_then (both_exchange B C (config [key mki_id, key mki_id_2]) mki_id_2 hdr rtcp_hdr
        mki_srtp_id_2 mki_srtcp_id_2) (\<lambda>_. Ok ())))))))"

subsection \<open>Two streams in step\<close>

lemma rtp_exchange_runs:
  assumes C: "crypto_laws C" and st: "in_step B s v" and h: "rtp_header_new p = Ok h"
    and entry: "b_transforms (s_base s) m = Some (t, l)" "l_rtp l \<noteq> 0"
    and i: "rtp_estimate_index (b_rtp_index (s_base s)) (seq_num h) = i"
    and fresh: "\<not> rtp_seen_index B (b_rtp_index (s_base s)) i"
    and q: "transform_rtp_protect C t p h (ucast (drop_bit 16 i)) = Ok q"
  obtains l' v' where "decrease_rtp l = Ok l'"
    "rtp_exchange B C h p m q s v = Ok (s\<lparr>s_base := with_index B (with_lives (s_base s) m t l') i\<rparr>, v', q)"
    "in_step B (s\<lparr>s_base := with_index B (with_lives (s_base s) m t l') i\<rparr>) v'"
proof -
  obtain l' where l': "decrease_rtp l = Ok l'"
    using entry(2) by (cases "decrease_rtp l") auto
  let ?s' = "s\<lparr>s_base := with_index B (with_lives (s_base s) m t l') i\<rparr>"
  have "snd (check_key_limit (s_base s) True m) = Ok ()"
    using entry by (simp add: check_key_limit_Ok_iff lives_left_def unat_gt_0)
  then obtain calls where run: "send_rtp_protect B C h p m s = (?s', calls, Ok q)"
    using entry(1) i fresh q l'
    by (simp add: send_rtp_protect_def Let_def split_beta with_index_def with_lives_def)
  obtain v' calls' where "recv_rtp_unprotect B C h q v = (v', calls', Ok p)" "in_step B ?s' v'"
    using rtp_lockstep [OF C st h run] by blast
  with l' run show thesis
    by (intro that) (simp_all add: rtp_exchange_def returned_def)
qed

lemma rtcp_exchange_runs:
  assumes C: "crypto_laws C" and st: "in_step B s v" and h: "rtcp_header_new p = Ok h"
    and entry: "b_transforms (s_base s) m = Some (t, l)" "l_rtcp l \<noteq> 0"
    and q: "transform_rtcp_protect C t p h (s_rtcp_index s) = Ok q"
  obtains s' v' where "rtcp_exchange B C h p m q s v = Ok (s', v', q)" "b_mki_len (s_base s') = b_mki_len (s_base s)"
proof -
  obtain l' where l': "decrease_rtcp l = Ok l'"
    using entry(2) by (cases "decrease_rtcp l") auto
  have "snd (check_key_limit (s_base s) False m) = Ok ()"
    using entry by (simp add: check_key_limit_Ok_iff lives_left_def unat_gt_0)
  then obtain s' calls where run: "send_rtcp_protect C h p m s = (s', calls, Ok q)"
      and s': "b_mki_len (s_base s') = b_mki_len (s_base s)"
    using entry(1) q l' by (simp add: send_rtcp_protect_def Let_def split_beta)
  obtain v' calls' where "recv_rtcp_unprotect B C h q v = (v', calls', Ok p)"
    using rtcp_lockstep [OF C st h run] by blast
  with run s' show thesis
    by (intro that [of s' v']) (simp_all add: rtcp_exchange_def returned_def)
qed

text \<open>New streams of a configuration whose keys are one pair of bytes under several MKIs.\<close>

definition test_config :: "bytes \<Rightarrow> bytes \<Rightarrow> mki list \<Rightarrow> protection_profile \<Rightarrow> protection_profile \<Rightarrow> stream_config" where
  "test_config key salt ms p q = stream_config_new (map (master_key_new key salt) ms) p q"

lemma test_config_simps [simp]:
  "sc_keys (test_config key salt ms p q) = map (master_key_new key salt) ms"
  "sc_rtp_profile (test_config key salt ms p q) = p" "sc_rtcp_profile (test_config key salt ms p q) = q"
  "sc_replay_window_size (test_config key salt ms p q) = 128" "\<not> sc_allow_send_repeat (test_config key salt ms p q)"
  by (simp_all add: test_config_def stream_config_new_def stream_config_default_def DEFAULT_REPLAY_WINDOW_SIZE_def)

lemma test_streams:
  assumes B: "biguint_laws B" and C: "crypto_laws C" and profiles: "\<not> is_gcm p" "\<not> is_gcm q"
    and cfg: "config_ok (test_config key salt ms p q)" "no_empty_mki (test_config key salt ms p q)"
  obtains s v where "send_new B C ssrc (test_config key salt ms p q) False = Ok s"
    "recv_new B C ssrc (test_config key salt ms p q) False = Ok v" "in_step B s v" "in_step B (s\<lparr>s_rtcp_index := 1\<rparr>) v"
    "b_rtp_index (s_base s) = rtp_replay_new B 128" "v_rtcp_index v = rtcp_replay_new B 128"
    "v_rtcp_tag_len v = tag_len q"
    "b_mki_len (s_base s) = length (mki_bytes (hd ms))"
    "\<And>m e. m \<in> set ms \<Longrightarrow> cm_new C key salt m p q = Ok e \<Longrightarrow>
      b_transforms (s_base s) m = Some (CmSha1 e, keys_lifetime_default)"
proof -
  let ?cfg = "test_config key salt ms p q"
  have ms: "ms \<noteq> []"
    using cfg(1) by (auto simp: config_ok_def valid_config_def)
  obtain b where b: "base_new B C ssrc ?cfg False = Ok b"
    using base_new_outcome [OF C cfg(1), of B ssrc False] profiles by auto
  obtain ts where ts: "get_transforms C ?cfg = Ok ts"
    and b_eq: "b = \<lparr>b_ssrc = ssrc, b_transforms = ts, b_mki_len = length (mki_bytes (hd ms)),
       b_rtp_index = rtp_replay_new B 128, b_key_limit_handler = False, b_allow_send_repeat = False\<rparr>"
    using b by (rule base_new_Ok) (use ms in \<open>auto simp: hd_map master_key_new_def\<close>)
  have entry: "ts m = Some (CmSha1 e, keys_lifetime_default)" if "m \<in> set ms" "cm_new C key salt m p q = Ok e" for m e
  proof -
    have "m \<in> dom ts"
      using get_transforms_dom [OF ts] that(1) by (force simp: master_key_new_def)
    then obtain t l where tl: "ts m = Some (t, l)" by auto
    from get_transforms_entry [OF ts tl] show ?thesis
      using that(2) profiles(1) tl by (auto simp: new_transform_def master_key_new_def)
  qed
  let ?s = "\<lparr>s_base = b, s_rtcp_index = 0\<rparr>"
  let ?v = "\<lparr>v_base = b, v_rtcp_index = rtcp_replay_new B 128, v_rtp_tag_len = tag_len p, v_rtcp_tag_len = tag_len q\<rparr>"
  have s: "send_new B C ssrc ?cfg False = Ok ?s" and v: "recv_new B C ssrc ?cfg False = Ok ?v"
    by (simp_all add: send_new_def recv_new_def b)
  have step: "in_step B ?s ?v"
    by (rule new_streams_in_step [OF B C cfg _ _ s v]) simp_all
  have "rtcp_in_step B 1 (rtcp_replay_new B 128)"
    unfolding rtcp_in_step_def
    using rtcp_rel_new [OF B, of 128]
    by (intro exI [of _ "win_empty 128"] exI [of _ "Suc 0"]) (simp add: rtcp_wire_def)
  then have "in_step B (?s\<lparr>s_rtcp_index := 1\<rparr>) ?v"
    using step by (simp add: in_step_def send_ok_def)
  with s v step entry show thesis
    by (intro that [of ?s ?v]) (simp_all add: b_eq)
qed

lemma driver_index:
  assumes "biguint_laws B"
  shows "rtp_estimate_index (rtp_replay_new B 128) (seq_num driver_rtp_header) = 0x1234"
    and "\<not> rtp_seen_index B (rtp_replay_new B 128) 0x1234"
  by (simp_all add: rtp_run driver_rtp_header_def big_simps [OF assms])

lemma default_lives [simp]: "l_rtp keys_lifetime_default \<noteq> 0" "l_rtcp keys_lifetime_default \<noteq> 0"
  by (simp_all add: keys_lifetime_default_def MAX_RTP_SESSION_KEY_LIVES_def MAX_RTCP_SESSION_KEY_LIVES_def)

lemma rtp_only_runs:
  assumes B: "biguint_laws B" and C: "crypto_laws C" and profiles: "\<not> is_gcm p" "\<not> is_gcm q"
    and cfg: "config_ok (test_config key salt [None] p q)"
    and e: "cm_new C key salt None p q = Ok e" "cm_rtp_protect C e driver_rtp driver_rtp_header 0 = Ok c"
  shows "rtp_only_exchange B C (test_config key salt [None] p q) driver_rtp_header c = Ok ()"
proof -
  have plain: "no_empty_mki (test_config key salt [None] p q)"
    by (simp add: no_empty_mki_def master_key_new_def)
  obtain s v where s: "send_new B C 0xcafebabe (test_config key salt [None] p q) False = Ok s"
    "recv_new B C 0xcafebabe (test_config key salt [None] p q) False = Ok v" and step: "in_step B s v"
    and db: "b_rtp_index (s_base s) = rtp_replay_new B 128"
    and entry: "b_transforms (s_base s) None = Some (CmSha1 e, keys_lifetime_default)"
    by (rule test_streams [OF B C profiles cfg plain, of "0xcafebabe"]) (use e(1) in auto)
  have cipher: "transform_rtp_protect C (CmSha1 e) driver_rtp driver_rtp_header (ucast (drop_bit 16 (0x1234 :: u64))) = Ok c"
    by (simp add: e(2))
  note index = driver_index [OF B, folded db]
  show ?thesis
    by (rule rtp_exchange_runs [OF C step driver_headers(1) entry default_lives(1) index cipher])
      (simp add: rtp_only_exchange_def s)
qed

lemma both_runs:
  assumes B: "biguint_laws B" and C: "crypto_laws C" and profiles: "\<not> is_gcm p" "\<not> is_gcm q"
    and cfg: "config_ok (test_config key salt ms p q)" "no_empty_mki (test_config key salt ms p q)" and m: "m \<in> set ms"
    and e: "cm_new C key salt m p q = Ok e" "cm_rtp_protect C e driver_rtp driver_rtp_header 0 = Ok c"
      "cm_rtcp_protect C e driver_rtcp driver_rtcp_header 1 = Ok d"
  obtains s where "b_mki_len (s_base s) = length (mki_bytes (hd ms))"
    "both_exchange B C (test_config key salt ms p q) m driver_rtp_header driver_rtcp_header c d = Ok (s, c, d)"
proof -
  obtain s v where s: "send_new B C 0xcafebabe (test_config key salt ms p q) False = Ok s"
    "recv_new B C 0xcafebabe (test_config key salt ms p q) False = Ok v" and step: "in_step B (s\<lparr>s_rtcp_index := 1\<rparr>) v"
    and db: "b_rtp_index (s_base (s\<lparr>s_rtcp_index := 1\<rparr>)) = rtp_replay_new B 128"
    and len: "b_mki_len (s_base s) = length (mki_bytes (hd ms))"
    and entry: "b_transforms (s_base (s\<lparr>s_rtcp_index := 1\<rparr>)) m = Some (CmSha1 e, keys_lifetime_default)"
    by (rule test_streams [OF B C profiles cfg, of "0xcafebabe"]) (use e(1) m in auto)
  have cipher: "transform_rtp_protect C (CmSha1 e) driver_rtp driver_rtp_header (ucast (drop_bit 16 (0x1234 :: u64))) = Ok c"
    by (simp add: e(2))
  note index = driver_index [OF B, folded db]
  let ?b = "\<lambda>l. with_index B (with_lives (s_base s) m (CmSha1 e) l) 0x1234"
  obtain l v' where l: "decrease_rtp keys_lifetime_default = Ok l"
    and rtp: "rtp_exchange B C driver_rtp_header driver_rtp m c (s\<lparr>s_rtcp_index := 1\<rparr>) v =
      Ok (s\<lparr>s_rtcp_index := 1, s_base := ?b l\<rparr>, v', c)"
    and step': "in_step B (s\<lparr>s_rtcp_index := 1, s_base := ?b l\<rparr>) v'"
    by (rule rtp_exchange_runs [OF C step driver_headers(1) entry default_lives(1) index cipher]) simp
  have alive: "l_rtcp l \<noteq> 0"
    using l by (auto simp: decrease_rtp_def keys_lifetime_default_def MAX_RTP_SESSION_KEY_LIVES_def
        MAX_RTCP_SESSION_KEY_LIVES_def Let_def split: if_splits)
  have entry': "b_transforms (s_base (s\<lparr>s_rtcp_index := 1, s_base := ?b l\<rparr>)) m = Some (CmSha1 e, l)"
    by simp
  have cipher': "transform_rtcp_protect C (CmSha1 e) driver_rtcp driver_rtcp_header
      (s_rtcp_index (s\<lparr>s_rtcp_index := 1, s_base := ?b l\<rparr>)) = Ok d"
    by (simp add: e(3))
  obtain s' v'' where rtcp: "rtcp_exchange B C driver_rtcp_header driver_rtcp m d
      (s\<lparr>s_rtcp_index := 1, s_base := ?b l\<rparr>) v' = Ok (s', v'', d)" and "b_mki_len (s_base s') = b_mki_len (s_base s)"
    by (rule rtcp_exchange_runs [OF C step' driver_headers(2) entry' alive cipher']) simp
  with len show thesis
    by (intro that [of s']) (simp_all add: both_exchange_def s rtp rtcp)
qed

subsection \<open>The tests pass\<close>

lemma test_configs:
  "stream_config_new [master_key_new key salt m] p q = test_config key salt [m] p q"
  "stream_config_new [master_key_new key salt m, master_key_new key salt m'] p q = test_config key salt [m, m'] p q"
  by (simp_all add: test_config_def)

lemma keys_lengths [simp]: "length key_128 = 16" "length salt_128 = 14" "length key_256 = 32" "length salt_256 = 14"
  by (simp_all add: key_128_def salt_128_def key_256_def salt_256_def)

lemma config_128_ok:
  assumes "(p, q) \<in> {(NullCipherHmacSha180, NullCipherHmacSha180), (Aes128CmNullAuth, Aes128CmHmacSha180),
      (Aes128CmHmacSha132, Aes128CmHmacSha180), (Aes128CmHmacSha180, Aes128CmHmacSha180)}"
  shows "config_ok (test_config key_128 salt_128 [m] p q)"
  using assms by (auto simp: config_ok_def valid_config_def same_sizes_def sizes_fit_def master_key_new_def
      lifetime_ok_default Let_def)

lemma config_256_ok:
  assumes "p \<in> {Aes256CmNullAuth, Aes256CmHmacSha132, Aes256CmHmacSha180}"
  shows "config_ok (test_config key_256 salt_256 [m] p Aes256CmHmacSha180)"
  using assms by (auto simp: config_ok_def valid_config_def same_sizes_def sizes_fit_def master_key_new_def
      lifetime_ok_default Let_def)

lemma no_empty_mki_test [simp]: "no_empty_mki (test_config key salt ms p q) \<longleftrightarrow> Some [] \<notin> set ms"
  by (simp add: no_empty_mki_def master_key_new_def image_image)

lemma stream_nullcipher_passes:
  assumes B: "biguint_laws B"
  shows "stream_nullcipher B std_crypto = Ok ()"
proof -
  have new: "cm_new std_crypto key_128 salt_128 None NullCipherHmacSha180 NullCipherHmacSha180 =
      Ok (cm_128 None NullCipherHmacSha180 NullCipherHmacSha180)"
    by (simp add: cm_new_128)
  obtain s where "both_exchange B std_crypto
      (test_config key_128 salt_128 [None] NullCipherHmacSha180 NullCipherHmacSha180) None
      driver_rtp_header driver_rtcp_header null_srtp null_srtcp = Ok (s, null_srtp, null_srtcp)"
    by (rule both_runs [OF B std_crypto_laws _ _ config_128_ok _ _ new null_protect]) simp_all
  then show ?thesis
    by (simp add: stream_nullcipher_def driver_headers test_configs Let_def)
qed

lemma stream_aes256_passes:
  assumes B: "biguint_laws B"
  shows "stream_aes256 B std_crypto = Ok ()"
proof -
  have run: "rtp_only_exchange B std_crypto (test_config key_256 salt_256 [None] p Aes256CmHmacSha180) driver_rtp_header
      (take (28 + tag_len p) aes256_srtp) = Ok ()"
    if p: "p \<in> {Aes256CmNullAuth, Aes256CmHmacSha132, Aes256CmHmacSha180}" for p
  proof (rule cm_new_256 [OF p])
    fix t assume t: "cm_new std_crypto key_256 salt_256 None p Aes256CmHmacSha180 = Ok t" "cm_ok t"
      "cm_rtp_profile t = p" "cm_rtp_key t = keys_for p keys_rtp_256" "cm_mki t = None"
    show ?thesis
      by (rule rtp_only_runs [OF B std_crypto_laws _ _ config_256_ok [OF p] t(1) rtp_protect_256 [OF p t(3-5)]])
        (use p in auto)
  qed
  have "take 38 aes256_srtp = aes256_srtp" by (simp add: aes256_srtp_def)
  with run [of Aes256CmNullAuth] run [of Aes256CmHmacSha132] run [of Aes256CmHmacSha180] show ?thesis
    by (simp add: stream_aes256_def driver_headers test_configs)
qed

text \<open>The packets of the third part, and what a new receiver makes of them when they are changed.\<close>

lemma new_128: "\<not> is_gcm p \<Longrightarrow> cm_new std_crypto key_128 salt_128 m p Aes128CmHmacSha180 =
    Ok (cm_128 m p Aes128CmHmacSha180)"
  by (simp add: cm_new_128)

lemma protect_128:
  "cm_rtp_protect std_crypto (cm_128 None Aes128CmNullAuth q) driver_rtp driver_rtp_header 0 = Ok (take 28 aes128_srtp)"
  "cm_rtp_protect std_crypto (cm_128 None Aes128CmHmacSha132 q) driver_rtp driver_rtp_header 0 = Ok (take 32 aes128_srtp)"
  "cm_rtp_protect std_crypto (cm_128 None Aes128CmHmacSha180 q) driver_rtp driver_rtp_header 0 = Ok aes128_srtp"
  "cm_rtcp_protect std_crypto (cm_128 None p Aes128CmHmacSha180) driver_rtcp driver_rtcp_header 1 = Ok aes128_srtcp"
  using rtcp_protect_128 [of None p] by (simp_all add: rtp_protect_128) (simp_all add: aes128_srtp_def aes128_srtcp_def)

lemma wrong_rtp_at_stream:
  assumes v: "b_rtp_index (v_base v) = rtp_replay_new B 128" "b_mki_len (v_base v) = 0"
    "b_transforms (v_base v) None = Some (CmSha1 e, keys_lifetime_default)" and B: "biguint_laws B"
    and e: "cm_rtp_unprotect C e c driver_rtp_header 0 = Err x"
  shows "\<exists>calls. recv_rtp_unprotect B C driver_rtp_header c v = (v, calls, Err x)"
  using check_key_limit_Ok_iff [of "v_base v" True None] e
  by (simp add: recv_rtp_unprotect_def Let_def v driver_index [OF B] recv_get_mki_def base_get_mki_len_def
      split_beta lives_left_def unat_gt_0)

lemma wrong_rtcp_at_stream:
  assumes v: "v_rtcp_index v = rtcp_replay_new B 128" "b_mki_len (v_base v) = 0" "v_rtcp_tag_len v = 10"
    "b_transforms (v_base v) None = Some (CmSha1 e, keys_lifetime_default)"
    and c: "22 \<le> length c" "rtcp_trailer_index v c = i" "\<not> rtcp_seen_index B (rtcp_replay_new B 128) i"
    and e: "cm_rtcp_unprotect C e c driver_rtcp_header i 14 = Err x"
  shows "\<exists>calls. recv_rtcp_unprotect B C driver_rtcp_header c v = (v, calls, Err x)"
  using check_key_limit_Ok_iff [of "v_base v" False None] c e
  by (simp add: recv_rtcp_unprotect_eq Let_def v recv_get_mki_def base_get_mki_len_def
      split_beta lives_left_def unat_gt_0)

lemma short_packet_128:
  "cm_rtp_unprotect std_crypto (cm_128 None Aes128CmHmacSha180 q) (take 16 c) h 0 = Err InvalidPacket"
  if "6 < header_len h"
  using that by (simp add: cm_rtp_unprotect_eq [OF std_crypto_laws] Let_def cm_128_def min_less_iff_disj)

lemma trailer_indices:
  assumes "v_rtcp_tag_len v = 10" "b_mki_len (v_base v) = 0"
  shows "rtcp_trailer_index v (take 37 aes128_srtcp) = 0x28800000"
    "rtcp_trailer_index v (flip_last aes128_srtcp (Suc 0)) = 1"
  by (simp_all add: rtcp_trailer_index_def assms aes128_srtcp_def flip_last_def Let_def be32_def from_be_bytes32_def)

lemma unseen_indices:
  assumes "biguint_laws B"
  shows "\<not> rtcp_seen_index B (rtcp_replay_new B 128) 0x28800000" "\<not> rtcp_seen_index B (rtcp_replay_new B 128) 1"
  by (simp_all add: rtcp_run one_below_step big_simps [OF assms])

lemma wrong_packets_at_stream:
  assumes B: "biguint_laws B"
    and v: "b_rtp_index (v_base v) = rtp_replay_new B 128" "v_rtcp_index v = rtcp_replay_new B 128"
      "b_mki_len (v_base v) = 0" "v_rtcp_tag_len v = 10"
      "b_transforms (v_base v) None = Some (CmSha1 (cm_128 None Aes128CmHmacSha180 Aes128CmHmacSha180), keys_lifetime_default)"
  shows "\<exists>calls. recv_rtp_unprotect B std_crypto driver_rtp_header (take 37 aes128_srtp) v = (v, calls, Err Authentication)"
    "\<exists>calls. recv_rtp_unprotect B std_crypto driver_rtp_header (flip_last aes128_srtp 1) v = (v, calls, Err Authentication)"
    "\<exists>calls. recv_rtp_unprotect B std_crypto driver_rtp_header (take 16 (flip_last aes128_srtp 1)) v =
      (v, calls, Err InvalidPacket)"
    "\<exists>calls. recv_rtcp_unprotect B std_crypto driver_rtcp_header (take 37 aes128_srtcp) v = (v, calls, Err Authentication)"
    "\<exists>calls. recv_rtcp_unprotect B std_crypto driver_rtcp_header (flip_last aes128_srtcp 1) v = (v, calls, Err Authentication)"
    "\<exists>calls. recv_rtcp_unprotect B std_crypto driver_rtcp_header (take 13 (flip_last aes128_srtcp 1)) v =
      (v, calls, Err InvalidPacket)"
proof -
  note rtp = wrong_rtp_at_stream [OF v(1,3,5) B] and rtcp = wrong_rtcp_at_stream [OF v(2-5)]
  note index = trailer_indices [OF v(4,3)]
  show "\<exists>calls. recv_rtp_unprotect B std_crypto driver_rtp_header (take 37 aes128_srtp) v = (v, calls, Err Authentication)"
    "\<exists>calls. recv_rtp_unprotect B std_crypto driver_rtp_header (flip_last aes128_srtp 1) v = (v, calls, Err Authentication)"
    "\<exists>calls. recv_rtp_unprotect B std_crypto driver_rtp_header (take 16 (flip_last aes128_srtp 1)) v =
      (v, calls, Err InvalidPacket)"
    by (rule rtp [OF wrong_packets_128(1)] rtp [OF wrong_packets_128(2)] rtp [OF short_packet_128]; simp)+
  show "\<exists>calls. recv_rtcp_unprotect B std_crypto driver_rtcp_header (take 37 aes128_srtcp) v = (v, calls, Err Authentication)"
    by (rule rtcp [OF _ index(1) unseen_indices(1) [OF B] wrong_rtcp_packets_128(1)]) simp
  show "\<exists>calls. recv_rtcp_unprotect B std_crypto driver_rtcp_header (flip_last aes128_srtcp 1) v = (v, calls, Err Authentication)"
    using rtcp [OF _ index(2) unseen_indices(2) [OF B]] wrong_rtcp_packets_128(2) by (simp add: flip_last_def Let_def)
  show "\<exists>calls. recv_rtcp_unprotect B std_crypto driver_rtcp_header (take 13 (flip_last aes128_srtcp 1)) v =
      (v, calls, Err InvalidPacket)"
    by (simp add: recv_rtcp_unprotect_eq Let_def v flip_last_def)
qed

lemma stream_aes128_passes:
  assumes B: "biguint_laws B"
  shows "stream_aes128 B std_crypto = Ok ()"
proof -
  let ?cfg = "\<lambda>p. test_config key_128 salt_128 [None] p Aes128CmHmacSha180"
  have first: "rtp_only_exchange B std_crypto (?cfg Aes128CmNullAuth) driver_rtp_header (take 28 aes128_srtp) = Ok ()"
    "rtp_only_exchange B std_crypto (?cfg Aes128CmHmacSha132) driver_rtp_header (take 32 aes128_srtp) = Ok ()"
    by (rule rtp_only_runs [OF B std_crypto_laws _ _ config_128_ok new_128 protect_128(1)]
        rtp_only_runs [OF B std_crypto_laws _ _ config_128_ok new_128 protect_128(2)]; simp)+
  obtain s where third: "both_exchange B std_crypto (?cfg Aes128CmHmacSha180) None
      driver_rtp_header driver_rtcp_header aes128_srtp aes128_srtcp = Ok (s, aes128_srtp, aes128_srtcp)"
    by (rule both_runs [OF B std_crypto_laws _ _ config_128_ok _ _ new_128 protect_128(3,4)]) simp_all
  have new: "cm_new std_crypto key_128 salt_128 None Aes128CmHmacSha180 Aes128CmHmacSha180 =
      Ok (cm_128 None Aes128CmHmacSha180 Aes128CmHmacSha180)"
    by (simp add: cm_new_128)
  obtain s0 v where v: "recv_new B std_crypto 0xcafebabe (?cfg Aes128CmHmacSha180) False = Ok v" "in_step B s0 v"
    "b_rtp_index (s_base s0) = rtp_replay_new B 128" "v_rtcp_index v = rtcp_replay_new B 128"
    "v_rtcp_tag_len v = 10"
    "b_transforms (s_base s0) None = Some (CmSha1 (cm_128 None Aes128CmHmacSha180 Aes128CmHmacSha180), keys_lifetime_default)"
    by (rule test_streams [OF B std_crypto_laws _ _ config_128_ok, of Aes128CmHmacSha180 Aes128CmHmacSha180 None "0xcafebabe"])
      (use new in auto)
  have "mki_aligned v (CmSha1 (cm_128 None Aes128CmHmacSha180 Aes128CmHmacSha180)) None"
    and same: "b_rtp_index (v_base v) = rtp_replay_new B 128"
    "b_transforms (v_base v) None = Some (CmSha1 (cm_128 None Aes128CmHmacSha180 Aes128CmHmacSha180), keys_lifetime_default)"
    using v(2,3,6) by (simp_all add: in_step_def)
  then have "b_mki_len (v_base v) = 0" by (simp add: mki_aligned_def)
  note wrong = wrong_packets_at_stream [OF B same(1) v(4) this v(5) same(2)]
  show ?thesis
    using wrong by (auto simp: stream_aes128_def driver_headers test_configs first third v(1) Let_def)
qed

lemma mki_protect_128:
  "cm_rtp_protect std_crypto (cm_128 (Some [0xe1, 0xf9, 0x7a, 0x0d]) Aes128CmHmacSha180 q) driver_rtp driver_rtp_header 0 =
   Ok mki_srtp"
  "cm_rtcp_protect std_crypto (cm_128 (Some [0xe1, 0xf9, 0x7a, 0x0d]) p Aes128CmHmacSha180) driver_rtcp driver_rtcp_header 1 =
   Ok mki_srtcp"
  "cm_rtp_protect std_crypto (cm_128 (Some [0xf3, 0xa1, 0x46, 0x71]) Aes128CmHmacSha180 q) driver_rtp driver_rtp_header 0 =
   Ok mki_srtp_id_2"
  "cm_rtcp_protect std_crypto (cm_128 (Some [0xf3, 0xa1, 0x46, 0x71]) p Aes128CmHmacSha180) driver_rtcp driver_rtcp_header 1 =
   Ok mki_srtcp_id_2"
  using rtcp_protect_128 [of "Some [0xe1, 0xf9, 0x7a, 0x0d]" p] rtcp_protect_128 [of "Some [0xf3, 0xa1, 0x46, 0x71]" p]
  by (simp_all add: rtp_protect_128)
    (simp_all add: aes128_srtp_def aes128_srtcp_def mki_srtp_def mki_srtcp_def mki_srtp_id_2_def mki_srtcp_id_2_def)

text \<open>An \<^verbatim>\<open>update\<close> with an MKI of another length is refused before anything changes.\<close>

lemma update_other_mki:
  assumes "sc_keys cfg = k # ks" "length (mki_bytes (mk_mki k)) \<noteq> b_mki_len (s_base s)"
  shows "send_update B C order cfg s = (s, Err InvalidProfile)"
proof -
  have "mki_policy (b_mki_len (s_base s)) (mk_mki k) = Err InvalidProfile"
    using assms(2) by (cases "mk_mki k") (auto simp: mki_policy_def)
  then show ?thesis
    using assms(1) by (simp add: send_update_def base_update_def slice_at_def)
qed

lemma stream_mki_passes:
  assumes B: "biguint_laws B"
  shows "stream_mki B std_crypto = Ok ()"
proof -
  let ?p = Aes128CmHmacSha180 and ?id = "Some [0xe1, 0xf9, 0x7a, 0x0d]" and ?id2 = "Some [0xf3, 0xa1, 0x46, 0x71]"
  obtain s where s: "b_mki_len (s_base s) = length (mki_bytes (hd [?id]))"
    and first: "both_exchange B std_crypto (test_config key_128 salt_128 [?id] ?p ?p) ?id
      driver_rtp_header driver_rtcp_header mki_srtp mki_srtcp = Ok (s, mki_srtp, mki_srtcp)"
    by (rule both_runs [OF B std_crypto_laws _ _ config_128_ok _ _ new_128 mki_protect_128(1,2)]; (simp; fail)?; blast)
  have cfg: "config_ok (test_config key_128 salt_128 [?id, ?id2] ?p ?p)"
    by (auto simp: config_ok_def valid_config_def same_sizes_def sizes_fit_def master_key_new_def
        lifetime_ok_default Let_def mkis_consistent_def mki_size_def)
  obtain s' where second: "both_exchange B std_crypto (test_config key_128 salt_128 [?id, ?id2] ?p ?p) ?id2
      driver_rtp_header driver_rtcp_header mki_srtp_id_2 mki_srtcp_id_2 = Ok (s', mki_srtp_id_2, mki_srtcp_id_2)"
    by (rule both_runs [OF B std_crypto_laws _ _ cfg _ _ new_128 mki_protect_128(3,4)]) simp_all
  have len: "b_mki_len (s_base s) = 4" using s by simp
  have "send_update B std_crypto order (test_config key_128 salt_128 [m] ?p ?p) s = (s, Err InvalidProfile)"
    if "length (mki_bytes m) \<noteq> 4" for m order
    using that len by (intro update_other_mki [where k = "master_key_new key_128 salt_128 m"]) (simp_all add: master_key_new_def)
  then show ?thesis
    by (simp add: stream_mki_def driver_headers test_configs first second Let_def)
qed

section \<open>The key limits\<close>

text \<open>
  The handler of the test counts the soft and the hard limits reported to it; it panics on another error
  or on a report for another SSRC. A call in this test hands what it reports to the handler.
\<close>

type_synonym counts = "nat \<times> nat"

fun limit_handler :: "u32 \<Rightarrow> srtp_error \<Rightarrow> counts \<Rightarrow> counts result" where
  "limit_handler ssrc (KeyLimit is_rtp is_dead m at) (soft, hard) =
     (let counts = (if is_dead then (soft, hard + 1) else (soft + 1, hard)) in
      and_then (assert_eq ssrc at) (\<lambda>_. Ok counts))"
| "limit_handler ssrc _ _ = Panic"

fun handle_calls :: "u32 \<Rightarrow> srtp_error list \<Rightarrow> counts \<Rightarrow> counts result" where
  "handle_calls ssrc [] counts = Ok counts"
| "handle_calls ssrc (e # es) counts = and_then (limit_handler ssrc e counts) (handle_calls ssrc es)"

definition handled ::
    "u32 \<Rightarrow> counts \<Rightarrow> 's \<times> srtp_error list \<times> 'a result \<Rightarrow> ('s \<times> 'a result \<times> counts) result" where
  "handled ssrc counts out =
     (case out of (s, calls, x) \<Rightarrow> and_then (handle_calls ssrc calls counts) (\<lambda>counts. Ok (s, x, counts)))"

text \<open>The pattern of \<^verbatim>\<open>assert!(matches!(..))\<close>: a key limit that is dead, for RTP or for RTCP.\<close>

fun dead_limit :: "bool \<Rightarrow> 'a result \<Rightarrow> bool" where
  "dead_limit rtp (Err (KeyLimit is_rtp is_dead m ssrc)) \<longleftrightarrow> is_dead \<and> is_rtp = rtp \<and> m = None"
| "dead_limit rtp _ \<longleftrightarrow> False"

definition limit_config :: "u64 \<Rightarrow> u64 \<Rightarrow> u32 \<Rightarrow> u32 \<Rightarrow> stream_config result" where
  "limit_config rtp rtp_limit rtcp rtcp_limit =
     (case sc_set_keys_lifetime
         (stream_config_new [master_key_new key_128 salt_128 None] Aes128CmHmacSha180 Aes128CmHmacSha180)
         rtp rtp_limit rtcp rtcp_limit of
        (config, x) \<Rightarrow> and_then x (\<lambda>_. Ok config))"

text \<open>\<^verbatim>\<open>packet[3] += 1\<close>, which panics on overflow in a checked build.\<close>

definition next_packet :: "bytes \<Rightarrow> bytes result" where
  "next_packet packet =
     and_then (slice_at packet 3) (\<lambda>b. if b = 0xff then Panic else Ok (packet[3 := b + 1]))"

text \<open>The first half, on RTP. It leaves the packet with the sequence number it has reached.\<close>

definition key_limit_rtp ::
    "'b biguint \<Rightarrow> crypto \<Rightarrow> stream_config \<Rightarrow> stream_config \<Rightarrow> (bytes \<times> rtcp_header) result" where
  "key_limit_rtp B C s_config r_config =
     (let ssrc = 0xcafebabe in
     and_then (send_new B C ssrc s_config True) (\<lambda>s.
     and_then (recv_new B C ssrc r_config True) (\<lambda>r.
     let packet = driver_rtp in
     and_then (rtp_header_new packet) (\<lambda>hdr.
     and_then (handled ssrc (0, 0) (send_rtp_protect B C hdr packet None s)) (\<lambda>(s, x, counts).
     and_then x (\<lambda>srtp_packet.
     and_then (assert_eq (fst counts) 0) (\<lambda>_.
     and_then (handled ssrc counts (recv_rtp_unprotect B C hdr srtp_packet r)) (\<lambda>(r, x, counts).
     and_then x (\<lambda>_.
     and_then (assert_eq (fst counts) 0) (\<lambda>_.
     and_then (next_packet packet) (\<lambda>packet.
     and_then (rtp_header_new packet) (\<lambda>hdr.
     and_then (handled ssrc counts (send_rtp_protect B C hdr packet None s)) (\<lambda>(s, x, counts).
     and_then x (\<lambda>srtp_packet.
     and_then (assert_eq (fst counts) 1) (\<lambda>_.
     and_then (handled ssrc counts (recv_rtp_unprotect B C hdr srtp_packet r)) (\<lambda>(r, x, counts).
     and_then x (\<lambda>_.
     and_then (assert_eq (fst counts) 2) (\<lambda>_.
     and_then (next_packet packet) (\<lambda>packet.
     and_then (rtp_header_new packet) (\<lambda>hdr.
     and_then (handled ssrc counts (send_rtp_protect B C hdr packet None s)) (\<lambda>(s, x, counts).
     and_then x (\<lambda>srtp_packet.
     and_then (assert_eq counts (3, 0)) (\<lambda>_.
     and_then (next_packet packet) (\<lambda>packet.
     and_then (rtp_header_new packet) (\<lambda>hdr.
     and_then (handled ssrc counts (send_rtp_protect B C hdr packet None s)) (\<lambda>(s, x, counts).
     and_then (expect (dead_limit True x)) (\<lambda>_.
     and_then (assert_eq counts (3, 1)) (\<lambda>_.
     and_then (handled ssrc counts (recv_rtp_unprotect B C hdr srtp_packet r)) (\<lambda>(r, x, counts).
     and_then (expect (dead_limit True x)) (\<lambda>_.
     and_then (assert_eq counts (3, 2)) (\<lambda>_.
     and_then (rtcp_header_new driver_rtcp) (\<lambda>hdr.
     and_then (handled ssrc counts (send_rtcp_protect C hdr driver_rtcp None s)) (\<lambda>(s, x, counts).
     and_then (expect (dead_limit False x)) (\<lambda>_. Ok (packet, hdr)))))))))))))))))))))))))))))))))))"

text \<open>The second half, on RTCP with new streams; its later packets are the RTP packet of the first half.\<close>

definition key_limit_rtcp ::
    "'b biguint \<Rightarrow> crypto \<Rightarrow> stream_config \<Rightarrow> stream_config \<Rightarrow> bytes \<Rightarrow> rtcp_header \<Rightarrow> unit result" where
  "key_limit_rtcp B C s_config r_config packet hdr =
     (let ssrc = 0xcafebabe in
     and_then (send_new B C ssrc s_config True) (\<lambda>s.
     and_then (recv_new B C ssrc r_config True) (\<lambda>r.
     and_then (handled ssrc (0, 0) (send_rtcp_protect C hdr driver_rtcp None s)) (\<lambda>(s, x, counts).
     and_then x (\<lambda>srtcp_packet.
     and_then (assert_eq (fst counts) 0) (\<lambda>_.
     and_then (handled ssrc counts (recv_rtcp_unprotect B C hdr srtcp_packet r)) (\<lambda>(r, x, counts).
     and_then x (\<lambda>_.
     and_then (assert_eq (fst counts) 0) (\<lambda>_.
     and_then (handled ssrc counts (send_rtcp_protect C hdr packet None s)) (\<lambda>(s, x, counts).
     and_then x (\<lambda>srtcp_packet.
     and_then (assert_eq (fst counts) 1) (\<lambda>_.
     and_then (handled ssrc counts (recv_rtcp_unprotect B C hdr srtcp_packet r)) (\<lambda>(r, x, counts).
     and_then x (\<lambda>_.
     and_then (assert_eq (fst counts) 2) (\<lambda>_.
     and_then (handled ssrc counts (send_rtcp_protect C hdr packet None s)) (\<lambda>(s, x, counts).
     and_then x (\<lambda>srtcp_packet.
     and_then (assert_eq counts (3, 0)) (\<lambda>_.
     and_then (handled ssrc counts (send_rtcp_protect C hdr packet None s)) (\<lambda>(s, x, counts).
     and_then (expect (dead_limit False x)) (\<lambda>_.
     and_then (assert_eq counts (3, 1)) (\<lambda>_.
     and_then (handled ssrc counts (recv_rtcp_unprotect B C hdr srtcp_packet r)) (\<lambda>(r, x, counts).
     and_then (expect (dead_limit False x)) (\<lambda>_.
     and_then (assert_eq counts (3, 2)) (\<lambda>_.
     and_then (rtp_header_new packet) (\<lambda>hdr.
     and_then (handled ssrc counts (send_rtp_protect B C hdr packet None s)) (\<lambda>(s, x, counts).
     expect (dead_limit True x)))))))))))))))))))))))))))"

definition key_limit :: "'b biguint \<Rightarrow> crypto \<Rightarrow> unit result" where
  "key_limit B C =
     and_then (limit_config 3 2 3 2) (\<lambda>s_config.
     and_then (limit_config 2 1 2 1) (\<lambda>r_config.
     and_then (key_limit_rtp B C s_config r_config) (\<lambda>(packet, hdr).
     key_limit_rtcp B C s_config r_config packet hdr)))"

subsection \<open>The streams of the test\<close>

definition lives :: "u64 \<Rightarrow> u32 \<Rightarrow> u64 \<Rightarrow> u32 \<Rightarrow> keys_lifetime" where
  "lives n k rtp_limit rtcp_limit =
     \<lparr>l_rtp = n, l_rtp_limit = rtp_limit, l_rtcp = k, l_rtcp_limit = rtcp_limit\<rparr>"

definition limit_base :: "aes_cm_sha1 \<Rightarrow> keys_lifetime \<Rightarrow> 'b rtp_replay_db \<Rightarrow> 'b base_stream" where
  "limit_base e l db =
     \<lparr>b_ssrc = 0xcafebabe, b_transforms = [None \<mapsto> (CmSha1 e, l)], b_mki_len = 0, b_rtp_index = db,
      b_key_limit_handler = True, b_allow_send_repeat = False\<rparr>"

definition limit_send :: "aes_cm_sha1 \<Rightarrow> keys_lifetime \<Rightarrow> 'b rtp_replay_db \<Rightarrow> u32 \<Rightarrow> 'b send_stream" where
  "limit_send e l db i = \<lparr>s_base = limit_base e l db, s_rtcp_index = i\<rparr>"

definition limit_recv ::
    "aes_cm_sha1 \<Rightarrow> keys_lifetime \<Rightarrow> 'b rtp_replay_db \<Rightarrow> 'b rtcp_replay_db \<Rightarrow> 'b recv_stream" where
  "limit_recv e l db rdb =
     \<lparr>v_base = limit_base e l db, v_rtcp_index = rdb, v_rtp_tag_len = 10, v_rtcp_tag_len = 10\<rparr>"

lemmas limit_streams_def = limit_base_def limit_send_def limit_recv_def

lemma limit_configs:
  assumes "limit_config n rl k cl = Ok cfg" "cm_new C key_128 salt_128 None Aes128CmHmacSha180 Aes128CmHmacSha180 = Ok e"
  shows "send_new B C 0xcafebabe cfg True = Ok (limit_send e (lives n k rl cl) (rtp_replay_new B 128) 0)"
    and "recv_new B C 0xcafebabe cfg True =
      Ok (limit_recv e (lives n k rl cl) (rtp_replay_new B 128) (rtcp_replay_new B 128))"
proof -
  have "cfg = \<lparr>sc_keys = [(master_key_new key_128 salt_128 None)\<lparr>mk_lifetime := lives n k rl cl\<rparr>],
      sc_rtp_profile = Aes128CmHmacSha180, sc_rtcp_profile = Aes128CmHmacSha180, sc_replay_window_size = 128,
      sc_allow_send_repeat = False\<rparr>"
    using assms(1)
    by (auto simp: limit_config_def sc_set_keys_lifetime_def mk_set_keys_lifetime_eq stream_config_new_def lives_def
        stream_config_default_def DEFAULT_REPLAY_WINDOW_SIZE_def outcome_simps split: if_splits)
  then show "send_new B C 0xcafebabe cfg True = Ok (limit_send e (lives n k rl cl) (rtp_replay_new B 128) 0)"
    and "recv_new B C 0xcafebabe cfg True =
      Ok (limit_recv e (lives n k rl cl) (rtp_replay_new B 128) (rtcp_replay_new B 128))"
    using assms(2)
    by (simp_all add: send_new_def recv_new_def base_new_def get_transforms_def new_transform_def master_key_new_def
        slice_at_def limit_streams_def)
qed

text \<open>What the handler hears of a key, and what a life is worth.\<close>

definition limit_calls :: "bool \<Rightarrow> keys_lifetime \<Rightarrow> srtp_error list" where
  "limit_calls is_rtp l =
     (if (if is_rtp then l_rtp l \<le> l_rtp_limit l else l_rtcp l \<le> l_rtcp_limit l)
      then [KeyLimit is_rtp (if is_rtp then l_rtp l = 0 else l_rtcp l = 0) None 0xcafebabe] else [])"

lemma limit_check:
  "check_key_limit (limit_base e l db) is_rtp None =
     (limit_calls is_rtp l,
      if (if is_rtp then l_rtp l = 0 else l_rtcp l = 0) then Err (KeyLimit is_rtp True None 0xcafebabe) else Ok ())"
  by (auto simp: check_key_limit_def limit_base_def limit_calls_def Let_def word_le_nat_alt)

lemma decrease_lives:
  "n \<noteq> 0 \<Longrightarrow> decrease_rtp (lives n k rl cl) = Ok (lives (n - 1) (if n = 1 then 0 else k) rl cl)"
  "k \<noteq> 0 \<Longrightarrow> decrease_rtcp (lives n k rl cl) = Ok (lives (if k = 1 then 0 else n) (k - 1) rl cl)"
  by (auto simp: decrease_rtp_def decrease_rtcp_def lives_def Let_def)

lemma limit_send_rtp:
  assumes "rtp_estimate_index db (seq_num h) = i" "\<not> rtp_seen_index B db i" "decrease_rtp l = Ok l'"
    and "cm_rtp_protect C e p h (ucast (drop_bit 16 i)) = Ok q"
  shows "send_rtp_protect B C h p None (limit_send e l db j) =
    (limit_send e l' (rtp_add_index B db i) j, limit_calls True l, Ok q)"
proof -
  have "l_rtp l \<noteq> 0" using assms(3) by (metis decrease_Panic_iff(1) result.distinct(3))
  with assms show ?thesis
    by (simp add: send_rtp_protect_def Let_def limit_send_def limit_check) (simp add: limit_base_def)
qed

lemma limit_recv_rtp:
  assumes "rtp_estimate_index db (seq_num h) = i" "\<not> rtp_seen_index B db i" "decrease_rtp l = Ok l'"
    and "cm_rtp_unprotect C e q h (ucast (drop_bit 16 i)) = Ok p"
  shows "recv_rtp_unprotect B C h q (limit_recv e l db rdb) =
    (limit_recv e l' (rtp_add_index B db i) rdb, limit_calls True l, Ok p)"
proof -
  have "l_rtp l \<noteq> 0" using assms(3) by (metis decrease_Panic_iff(1) result.distinct(3))
  moreover have "recv_get_mki (limit_recv e l db rdb) q (header_len h) True = Ok None"
    by (simp add: recv_get_mki_def base_get_mki_len_def limit_streams_def)
  ultimately show ?thesis
    using assms by (simp add: recv_rtp_unprotect_def Let_def limit_recv_def limit_check) (simp add: limit_base_def)
qed

lemma limit_dead_rtp:
  assumes "rtp_estimate_index db (seq_num h) = i" "\<not> rtp_seen_index B db i" "l_rtp l = 0"
  shows "send_rtp_protect B C h p None (limit_send e l db j) =
      (limit_send e l db j, limit_calls True l, Err (KeyLimit True True None 0xcafebabe))"
    and "recv_rtp_unprotect B C h q (limit_recv e l db rdb) =
      (limit_recv e l db rdb, limit_calls True l, Err (KeyLimit True True None 0xcafebabe))"
proof -
  have "recv_get_mki (limit_recv e l db rdb) q (header_len h) True = Ok None"
    by (simp add: recv_get_mki_def base_get_mki_len_def limit_streams_def)
  with assms show "send_rtp_protect B C h p None (limit_send e l db j) =
      (limit_send e l db j, limit_calls True l, Err (KeyLimit True True None 0xcafebabe))"
    and "recv_rtp_unprotect B C h q (limit_recv e l db rdb) =
      (limit_recv e l db rdb, limit_calls True l, Err (KeyLimit True True None 0xcafebabe))"
    by (simp_all add: send_rtp_protect_def recv_rtp_unprotect_def Let_def limit_send_def limit_recv_def limit_check)
      (simp_all add: limit_base_def)
qed

lemma limit_send_rtcp:
  assumes "decrease_rtcp l = Ok l'" "cm_rtcp_protect C e p h j = Ok q"
  shows "send_rtcp_protect C h p None (limit_send e l db j) =
    (limit_send e l' db ((j + 1) AND 0x7fffffff), limit_calls False l, Ok q)"
proof -
  have "l_rtcp l \<noteq> 0" using assms(1) by (metis decrease_Panic_iff(2) result.distinct(3))
  with assms show ?thesis
    by (simp add: send_rtcp_protect_def Let_def limit_send_def limit_check) (simp add: limit_base_def)
qed

lemma limit_dead_send_rtcp:
  assumes "l_rtcp l = 0"
  shows "send_rtcp_protect C h p None (limit_send e l db j) =
    (limit_send e l db j, limit_calls False l, Err (KeyLimit False True None 0xcafebabe))"
  using assms by (simp add: send_rtcp_protect_def Let_def limit_send_def limit_check)

text \<open>The receiver finds the index and the tag where the sender puts them.\<close>

lemma limit_trailer:
  assumes C: "crypto_laws C" and e: "cm_ok e" "cm_rtcp_profile e = Aes128CmHmacSha180" "cm_mki e = None"
    and q: "rtcp_header_len \<le> length p" "cm_rtcp_protect C e p h j = Ok q" and j: "j < 0x80000000"
  shows "22 \<le> length q" "rtcp_trailer_index (limit_recv e l db rdb) q = j"
    "cm_rtcp_unprotect C e q h j 14 = Ok p"
proof -
  have ok: "crypto_laws C \<and> cm_ok e" using C e by simp
  show "22 \<le> length q" "rtcp_trailer_index (limit_recv e l db rdb) q = j"
    using cm.rtcp_trailer_position(1,3) [OF ok q] e(2,3) and_31_id [OF j]
    by (simp_all add: rtcp_trailer_index_def limit_streams_def)
  show "cm_rtcp_unprotect C e q h j 14 = Ok p"
    using cm.rtcp_roundtrip [OF ok q] e(2,3) by simp
qed

lemma limit_recv_rtcp:
  assumes "22 \<le> length q" "rtcp_trailer_index (limit_recv e l db rdb) q = j" "\<not> rtcp_seen_index B rdb j"
    and "decrease_rtcp l = Ok l'" "cm_rtcp_unprotect C e q h j 14 = Ok p"
  shows "recv_rtcp_unprotect B C h q (limit_recv e l db rdb) =
    (limit_recv e l' db (rtcp_add_index B rdb j), limit_calls False l, Ok p)"
proof -
  have "l_rtcp l \<noteq> 0" using assms(4) by (metis decrease_Panic_iff(2) result.distinct(3))
  moreover have "recv_get_mki (limit_recv e l db rdb) q rtcp_header_len False = Ok None"
    by (simp add: recv_get_mki_def base_get_mki_len_def limit_streams_def)
  ultimately show ?thesis
    using assms unfolding recv_rtcp_unprotect_eq
    by (simp add: Let_def limit_recv_def limit_check) (simp add: limit_base_def with_lives_def)
qed

lemma limit_dead_recv_rtcp:
  assumes "22 \<le> length q" "rtcp_trailer_index (limit_recv e l db rdb) q = j" "\<not> rtcp_seen_index B rdb j"
    and "l_rtcp l = 0"
  shows "recv_rtcp_unprotect B C h q (limit_recv e l db rdb) =
    (limit_recv e l db rdb, limit_calls False l, Err (KeyLimit False True None 0xcafebabe))"
proof -
  have "recv_get_mki (limit_recv e l db rdb) q rtcp_header_len False = Ok None"
    by (simp add: recv_get_mki_def base_get_mki_len_def limit_streams_def)
  then show ?thesis
    using assms unfolding recv_rtcp_unprotect_eq
    by (simp add: Let_def limit_recv_def limit_check) (simp add: limit_base_def)
qed

subsection \<open>The test passes\<close>

lemma next_packets:
  "next_packet driver_rtp = Ok (driver_rtp[3 := 0x35])"
  "next_packet (driver_rtp[3 := 0x35]) = Ok (driver_rtp[3 := 0x36])"
  "next_packet (driver_rtp[3 := 0x36]) = Ok (driver_rtp[3 := 0x37])"
  by code_simp+

lemma next_headers:
  "rtp_header_new (driver_rtp[3 := 0x35]) = Ok (driver_rtp_header\<lparr>seq_num := 0x1235\<rparr>)"
  "rtp_header_new (driver_rtp[3 := 0x36]) = Ok (driver_rtp_header\<lparr>seq_num := 0x1236\<rparr>)"
  "rtp_header_new (driver_rtp[3 := 0x37]) = Ok (driver_rtp_header\<lparr>seq_num := 0x1237\<rparr>)"
  by code_simp+

text \<open>The window that has recorded the packets from 0x1234 up to before \<open>i\<close>.\<close>

fun rtp_window_after :: "'b biguint \<Rightarrow> nat \<Rightarrow> 'b rtp_replay_db" where
  "rtp_window_after B 0 = rtp_replay_new B 128"
| "rtp_window_after B (Suc n) = rtp_add_index B (rtp_window_after B n) (0x1234 + of_nat n)"

declare rtp_window_after.simps [simp del]

lemma window_after:
  "rtp_window_after B 0 = rtp_replay_new B 128"
  "rtp_window_after B 1 = rtp_add_index B (rtp_window_after B 0) 0x1234"
  "rtp_window_after B 2 = rtp_add_index B (rtp_window_after B 1) 0x1235"
  "rtp_window_after B 3 = rtp_add_index B (rtp_window_after B 2) 0x1236"
  by (simp_all add: numeral_2_eq_2 numeral_3_eq_3 rtp_window_after.simps)

lemma add_newest: "r_index db < i \<Longrightarrow> r_index (rtp_add_index B db i) = i \<and> pending_roc (rtp_add_index B db i) = None"
  by (simp add: rtp_add_index_def Let_def)

lemma window_newest:
  "r_index (rtp_window_after B 0) = 0 \<and> pending_roc (rtp_window_after B 0) = None"
  "r_index (rtp_window_after B 1) = 0x1234 \<and> pending_roc (rtp_window_after B 1) = None"
  "r_index (rtp_window_after B 2) = 0x1235 \<and> pending_roc (rtp_window_after B 2) = None"
  "r_index (rtp_window_after B 3) = 0x1236 \<and> pending_roc (rtp_window_after B 3) = None"
  unfolding window_after by (simp_all add: rtp_replay_new_def add_newest)

lemma window_indices:
  "rtp_estimate_index (rtp_window_after B 0) 0x1234 = 0x1234" "\<not> rtp_seen_index B (rtp_window_after B 0) 0x1234"
  "rtp_estimate_index (rtp_window_after B 0) 0x1237 = 0x1237" "\<not> rtp_seen_index B (rtp_window_after B 0) 0x1237"
  "rtp_estimate_index (rtp_window_after B 1) 0x1235 = 0x1235" "\<not> rtp_seen_index B (rtp_window_after B 1) 0x1235"
  "rtp_estimate_index (rtp_window_after B 2) 0x1236 = 0x1236" "\<not> rtp_seen_index B (rtp_window_after B 2) 0x1236"
  "rtp_estimate_index (rtp_window_after B 2) 0x1237 = 0x1237" "\<not> rtp_seen_index B (rtp_window_after B 2) 0x1237"
  "rtp_estimate_index (rtp_window_after B 3) 0x1237 = 0x1237" "\<not> rtp_seen_index B (rtp_window_after B 3) 0x1237"
  by (simp_all only: rtp_estimate_index_def rtp_seen_index_def window_newest) (simp_all add: MAX_SEQ_NUM_STEP_def)

lemma limit_calls_lives:
  "limit_calls True (lives n k rl cl) = (if n \<le> rl then [KeyLimit True (n = 0) None 0xcafebabe] else [])"
  "limit_calls False (lives n k rl cl) = (if k \<le> cl then [KeyLimit False (k = 0) None 0xcafebabe] else [])"
  by (simp_all add: limit_calls_def lives_def)

text \<open>One packet from the sender to the receiver, whatever lives they have left.\<close>

lemma limit_round_rtp:
  assumes C: "crypto_laws C" and e: "cm_ok e" and len: "header_len h \<le> length p" "length p \<le> max_message"
    and i: "rtp_estimate_index db (seq_num h) = i" "\<not> rtp_seen_index B db i" "drop_bit 16 i = 0"
  obtains q where
    "\<And>n k rl cl j. n \<noteq> 0 \<Longrightarrow> send_rtp_protect B C h p None (limit_send e (lives n k rl cl) db j) =
      (limit_send e (lives (n - 1) (if n = 1 then 0 else k) rl cl) (rtp_add_index B db i) j,
       limit_calls True (lives n k rl cl), Ok q)"
    "\<And>n k rl cl rdb. n \<noteq> 0 \<Longrightarrow> recv_rtp_unprotect B C h q (limit_recv e (lives n k rl cl) db rdb) =
      (limit_recv e (lives (n - 1) (if n = 1 then 0 else k) rl cl) (rtp_add_index B db i) rdb,
       limit_calls True (lives n k rl cl), Ok p)"
proof -
  obtain q where q: "cm_rtp_protect C e p h (ucast (drop_bit 16 i)) = Ok q"
    using cm_rtp_protect_total [OF C e len] by blast
  show thesis
    by (rule that [OF limit_send_rtp [OF i(1,2) decrease_lives(1) q]
          limit_recv_rtp [OF i(1,2) decrease_lives(1) cm_rtp_roundtrip [OF C e len(1) q]]])
qed

lemma limit_round_rtcp:
  fixes B :: "'b biguint"
  assumes C: "crypto_laws C" and e: "cm_ok e" "cm_rtcp_profile e = Aes128CmHmacSha180" "cm_mki e = None"
    and len: "rtcp_header_len \<le> length p" "length p \<le> max_message"
    and j: "j < 0x80000000" "\<not> rtcp_seen_index B rdb j" "j' = (j + 1) AND 0x7fffffff"
  obtains q where
    "\<And>n k rl cl (db :: 'b rtp_replay_db). k \<noteq> 0 \<Longrightarrow> send_rtcp_protect C h p None (limit_send e (lives n k rl cl) db j) =
      (limit_send e (lives (if k = 1 then 0 else n) (k - 1) rl cl) db j',
       limit_calls False (lives n k rl cl), Ok q)"
    "\<And>n k rl cl (db :: 'b rtp_replay_db). k \<noteq> 0 \<Longrightarrow> recv_rtcp_unprotect B C h q (limit_recv e (lives n k rl cl) db rdb) =
      (limit_recv e (lives (if k = 1 then 0 else n) (k - 1) rl cl) db (rtcp_add_index B rdb j),
       limit_calls False (lives n k rl cl), Ok p)"
    "\<And>n rl cl db. recv_rtcp_unprotect B C h q (limit_recv e (lives n 0 rl cl) db rdb) =
      (limit_recv e (lives n 0 rl cl) db rdb, limit_calls False (lives n 0 rl cl),
       Err (KeyLimit False True None 0xcafebabe))"
proof -
  obtain q where q: "cm_rtcp_protect C e p h j = Ok q"
    using cm_rtcp_protect_total [OF C e(1) len] by blast
  note trailer = limit_trailer [OF C e len(1) q j(1)]
  show thesis
    by (rule that [OF limit_send_rtcp [OF decrease_lives(2) q, folded j(3)]
          limit_recv_rtcp [OF trailer(1,2) j(2) decrease_lives(2) trailer(3)]
          limit_dead_recv_rtcp [OF trailer(1,2) j(2)]]) (simp_all add: lives_def)
qed

text \<open>The receiver refuses another copy when its key is dead; the sender refuses whatever comes.\<close>

lemma limit_dead:
  "rtp_estimate_index db (seq_num h) = i \<Longrightarrow> \<not> rtp_seen_index B db i \<Longrightarrow>
   send_rtp_protect B C h p None (limit_send e (lives 0 k rl cl) db j) =
     (limit_send e (lives 0 k rl cl) db j, limit_calls True (lives 0 k rl cl), Err (KeyLimit True True None 0xcafebabe))"
  "rtp_estimate_index db (seq_num h) = i \<Longrightarrow> \<not> rtp_seen_index B db i \<Longrightarrow>
   recv_rtp_unprotect B C h q (limit_recv e (lives 0 k rl cl) db rdb) =
     (limit_recv e (lives 0 k rl cl) db rdb, limit_calls True (lives 0 k rl cl), Err (KeyLimit True True None 0xcafebabe))"
  "send_rtcp_protect C h' p None (limit_send e (lives n 0 rl cl) db j) =
     (limit_send e (lives n 0 rl cl) db j, limit_calls False (lives n 0 rl cl), Err (KeyLimit False True None 0xcafebabe))"
  by (rule limit_dead_rtp limit_dead_send_rtcp; simp add: lives_def)+

lemma small_lives: "\<not> (2 :: u64) \<le> 1" "\<not> (2 :: u32) \<le> 1" "\<not> (3 :: u64) \<le> 2" "\<not> (3 :: u32) \<le> 2"
  by (simp_all add: word_le_nat_alt)

lemma seq_num_of [simp]: "seq_num (driver_rtp_header\<lparr>seq_num := n\<rparr>) = n" "header_len (driver_rtp_header\<lparr>seq_num := n\<rparr>) = 12"
  "seq_num driver_rtp_header = 0x1234"
  by (simp_all add: driver_rtp_header_def)

lemma key_limit_rtp_passes:
  assumes C: "crypto_laws C" and cfg: "limit_config 3 2 3 2 = Ok s_config" "limit_config 2 1 2 1 = Ok r_config"
    and new: "cm_new C key_128 salt_128 None Aes128CmHmacSha180 Aes128CmHmacSha180 = Ok e" and e: "cm_ok e"
  shows "key_limit_rtp B C s_config r_config = Ok (driver_rtp[3 := 0x37], driver_rtcp_header)"
proof -
  let ?w = "rtp_window_after B"
  note index = window_indices [of B]
  note streams = limit_configs(1) [OF cfg(1) new, of B] limit_configs(2) [OF cfg(2) new, of B]
  obtain q0 where q0:
    "\<And>n k rl cl j. n \<noteq> 0 \<Longrightarrow> send_rtp_protect B C driver_rtp_header driver_rtp None (limit_send e (lives n k rl cl) (?w 0) j) =
      (limit_send e (lives (n - 1) (if n = 1 then 0 else k) rl cl) (?w 1) j, limit_calls True (lives n k rl cl), Ok q0)"
    "\<And>n k rl cl rdb. n \<noteq> 0 \<Longrightarrow> recv_rtp_unprotect B C driver_rtp_header q0 (limit_recv e (lives n k rl cl) (?w 0) rdb) =
      (limit_recv e (lives (n - 1) (if n = 1 then 0 else k) rl cl) (?w 1) rdb, limit_calls True (lives n k rl cl),
       Ok driver_rtp)"
    by (rule limit_round_rtp [OF C e, where h = driver_rtp_header and p = driver_rtp and db = "?w 0" and i = "0x1234" and B = B])
      (simp_all add: index max_message_def window_after(2) del: One_nat_def)
  let ?h1 = "driver_rtp_header\<lparr>seq_num := 0x1235\<rparr>" and ?p1 = "driver_rtp[3 := 0x35]"
  obtain q1 where q1:
    "\<And>n k rl cl j. n \<noteq> 0 \<Longrightarrow> send_rtp_protect B C ?h1 ?p1 None (limit_send e (lives n k rl cl) (?w 1) j) =
      (limit_send e (lives (n - 1) (if n = 1 then 0 else k) rl cl) (?w 2) j, limit_calls True (lives n k rl cl), Ok q1)"
    "\<And>n k rl cl rdb. n \<noteq> 0 \<Longrightarrow> recv_rtp_unprotect B C ?h1 q1 (limit_recv e (lives n k rl cl) (?w 1) rdb) =
      (limit_recv e (lives (n - 1) (if n = 1 then 0 else k) rl cl) (?w 2) rdb, limit_calls True (lives n k rl cl),
       Ok ?p1)"
    by (rule limit_round_rtp [OF C e, where h = ?h1 and p = ?p1 and db = "?w 1" and i = "0x1235" and B = B])
      (simp_all add: index max_message_def window_after(3) del: One_nat_def)
  let ?h2 = "driver_rtp_header\<lparr>seq_num := 0x1236\<rparr>" and ?p2 = "driver_rtp[3 := 0x36]"
  obtain q2 where q2:
    "\<And>n k rl cl j. n \<noteq> 0 \<Longrightarrow> send_rtp_protect B C ?h2 ?p2 None (limit_send e (lives n k rl cl) (?w 2) j) =
      (limit_send e (lives (n - 1) (if n = 1 then 0 else k) rl cl) (?w 3) j, limit_calls True (lives n k rl cl), Ok q2)"
    by (rule limit_round_rtp [OF C e, where h = ?h2 and p = ?p2 and db = "?w 2" and i = "0x1236" and B = B])
      (simp_all add: index max_message_def window_after(4) del: One_nat_def)
  show ?thesis
    unfolding key_limit_rtp_def Let_def streams window_after(1) [symmetric]
    by (simp add: driver_headers next_packets next_headers handled_def q0 q1 q2 limit_calls_lives small_lives
        limit_dead index Let_def del: One_nat_def)
qed

lemma rtcp_window_indices:
  assumes "biguint_laws B"
  shows "\<not> rtcp_seen_index B (rtcp_replay_new B 128) 0"
    "\<not> rtcp_seen_index B (rtcp_add_index B (rtcp_replay_new B 128) 0) 1"
    "\<not> rtcp_seen_index B (rtcp_add_index B (rtcp_add_index B (rtcp_replay_new B 128) 0) 1) 2"
  by (simp_all add: rtcp_run Let_def one_below_step big_simps [OF assms] flip: big_mask_def)

lemma key_limit_rtcp_passes:
  fixes B :: "'b biguint"
  assumes B: "biguint_laws B" and C: "crypto_laws C"
    and cfg: "limit_config 3 2 3 2 = Ok s_config" "limit_config 2 1 2 1 = Ok r_config"
    and new: "cm_new C key_128 salt_128 None Aes128CmHmacSha180 Aes128CmHmacSha180 = Ok e"
    and e: "cm_ok e" "cm_rtcp_profile e = Aes128CmHmacSha180" "cm_mki e = None"
  shows "key_limit_rtcp B C s_config r_config (driver_rtp[3 := 0x37]) driver_rtcp_header = Ok ()"
proof -
  let ?h = driver_rtcp_header and ?p = "driver_rtp[3 := 0x37]"
  let ?w0 = "rtcp_replay_new B 128"
  let ?w1 = "rtcp_add_index B ?w0 0"
  let ?w2 = "rtcp_add_index B ?w1 1"
  note index = rtcp_window_indices [OF B]
  note streams = limit_configs(1) [OF cfg(1) new, of B] limit_configs(2) [OF cfg(2) new, of B]
  obtain q0 where q0:
    "\<And>n k rl cl (db :: 'b rtp_replay_db). k \<noteq> 0 \<Longrightarrow> send_rtcp_protect C ?h driver_rtcp None (limit_send e (lives n k rl cl) db 0) =
      (limit_send e (lives (if k = 1 then 0 else n) (k - 1) rl cl) db 1, limit_calls False (lives n k rl cl), Ok q0)"
    "\<And>n k rl cl (db :: 'b rtp_replay_db). k \<noteq> 0 \<Longrightarrow> recv_rtcp_unprotect B C ?h q0 (limit_recv e (lives n k rl cl) db ?w0) =
      (limit_recv e (lives (if k = 1 then 0 else n) (k - 1) rl cl) db ?w1, limit_calls False (lives n k rl cl),
       Ok driver_rtcp)"
    by (rule limit_round_rtcp [OF C e, where h = ?h and p = driver_rtcp and rdb = ?w0 and j = 0 and j' = 1 and B = B];
        (simp add: index max_message_def; fail)?; blast)
  obtain q1 where q1:
    "\<And>n k rl cl (db :: 'b rtp_replay_db). k \<noteq> 0 \<Longrightarrow> send_rtcp_protect C ?h ?p None (limit_send e (lives n k rl cl) db 1) =
      (limit_send e (lives (if k = 1 then 0 else n) (k - 1) rl cl) db 2, limit_calls False (lives n k rl cl), Ok q1)"
    "\<And>n k rl cl (db :: 'b rtp_replay_db). k \<noteq> 0 \<Longrightarrow> recv_rtcp_unprotect B C ?h q1 (limit_recv e (lives n k rl cl) db ?w1) =
      (limit_recv e (lives (if k = 1 then 0 else n) (k - 1) rl cl) db ?w2, limit_calls False (lives n k rl cl), Ok ?p)"
    by (rule limit_round_rtcp [OF C e, where h = ?h and p = ?p and rdb = ?w1 and j = 1 and j' = 2 and B = B];
        (simp add: index max_message_def; fail)?; blast)
  obtain q2 where q2:
    "\<And>n k rl cl (db :: 'b rtp_replay_db). k \<noteq> 0 \<Longrightarrow> send_rtcp_protect C ?h ?p None (limit_send e (lives n k rl cl) db 2) =
      (limit_send e (lives (if k = 1 then 0 else n) (k - 1) rl cl) db 3, limit_calls False (lives n k rl cl), Ok q2)"
    "\<And>n rl cl db. recv_rtcp_unprotect B C ?h q2 (limit_recv e (lives n 0 rl cl) db ?w2) =
      (limit_recv e (lives n 0 rl cl) db ?w2, limit_calls False (lives n 0 rl cl),
       Err (KeyLimit False True None 0xcafebabe))"
    by (rule limit_round_rtcp [OF C e, where h = ?h and p = ?p and rdb = ?w2 and j = 2 and j' = 3 and B = B];
        (simp add: index max_message_def; fail)?; blast)
  show ?thesis
    unfolding key_limit_rtcp_def Let_def streams window_after(1) [symmetric]
    by (simp add: next_headers handled_def q0 q1 q2 limit_calls_lives small_lives limit_dead window_indices Let_def
        del: One_nat_def)
qed

lemma key_limit_passes:
  assumes B: "biguint_laws B" and C: "crypto_laws C"
  shows "key_limit B C = Ok ()"
proof -
  have fits: "master_fits key_128 salt_128 Aes128CmHmacSha180" by (simp add: master_fits_def)
  obtain e where e: "cm_new C key_128 salt_128 None Aes128CmHmacSha180 Aes128CmHmacSha180 = Ok e" "cm_ok e"
    "cm_rtcp_profile e = Aes128CmHmacSha180" "cm_mki e = None"
    using cm_new_ok [OF C fits fits, of None] by auto
  have "is_ok (limit_config 3 2 3 2)" "is_ok (limit_config 2 1 2 1)" by code_simp+
  then obtain s r where "limit_config 3 2 3 2 = Ok s" "limit_config 2 1 2 1 = Ok r"
    by (auto simp: is_ok_iff)
  note cfg = this
  show ?thesis
    using key_limit_rtp_passes [OF C cfg e(1,2), of B] key_limit_rtcp_passes [OF B C cfg e] by (simp add: key_limit_def cfg)
qed

lemma stream_tests_pass:
  assumes "biguint_laws B"
  shows "stream_nullcipher B std_crypto = Ok ()" "stream_aes128 B std_crypto = Ok ()"
    "stream_aes256 B std_crypto = Ok ()" "stream_mki B std_crypto = Ok ()"
    "crypto_laws C \<Longrightarrow> key_limit B C = Ok ()"
  using assms
  by (simp_all add: stream_nullcipher_passes stream_aes128_passes stream_aes256_passes stream_mki_passes key_limit_passes)

end
