(* ===== verification/Spec2Isabelle.thy ===== *)
theory Spec2Isabelle
  imports Srtp_Boundaries Srtp_Reordered Srtp_Follow_Ups Srtp_Stream_Tests
begin

text \<open>
  A model of \<^verbatim>\<open>libsrtp\<close>, a Rust implementation of the Secure Real-time Transport Protocol
  (RFC 3711, RFC 7714), and what makes it correct.

  \<^bold>\<open>The program.\<close> A \<^verbatim>\<open>SendSession\<close> protects RTP and RTCP packets and a \<^verbatim>\<open>RecvSession\<close> takes the
  protection off. A session keeps one stream per SSRC, created from a configuration of its own or
  spawned from a template when a packet of a new SSRC comes. A stream keeps a transform and a count
  of lives per master key identifier (MKI), and the replay databases. A transform derives its
  session keys from a master key, encrypts and authenticates.

  \<^bold>\<open>Theories, in the order of the imports; the paths are under\<close> \<^verbatim>\<open>libsrtp/src\<close>.
  \<^item> \<open>Srtp_Prelude\<close>: machine integers as words, slices, byte order, \<^verbatim>\<open>SrtpError\<close> (\<^verbatim>\<open>lib.rs\<close>) and
    \<open>result\<close>, which has a value \<open>Panic\<close> beside \<open>Ok\<close> and \<open>Err\<close>: slice bounds, \<^verbatim>\<open>unwrap\<close> and the
    underflow of a checked build are branches of the model.
  \<^item> \<open>Srtp_External\<close>: the third-party crates. The record \<open>crypto\<close> (AES-CTR, AES-GCM, HMAC-SHA1,
    constant-time comparison) and the record \<open>biguint\<close> are the parameters \<open>C\<close> and \<open>B\<close> of the
    definitions that call them; \<open>crypto_laws\<close> and \<open>biguint_laws\<close> are their documented behaviour.
    \<open>sample_crypto\<close> and \<open>nat_biguint\<close> satisfy them.
  \<^item> \<open>Srtp_Profile\<close>: \<^verbatim>\<open>protection_profile.rs\<close>. \<open>Srtp_Header\<close>: both parsers of \<^verbatim>\<open>header.rs\<close>.
    \<open>Srtp_Kdf\<close>: \<^verbatim>\<open>key_derivation.rs\<close>.
  \<^item> \<open>Srtp_Replay_Spec\<close>: a sliding window over natural numbers, the promise of a replay database, as a
    locale with the lemmas a client needs. \<open>Srtp_Replay\<close>: the two databases of \<^verbatim>\<open>replay.rs\<close>, at the width
    of their integers, and the interpretations that show they keep the promise.
  \<^item> \<open>Srtp_Aes_Cm\<close>, \<open>Srtp_Aes_Gcm\<close>: the two files of \<^verbatim>\<open>transform/\<close>. \<open>Srtp_Transform\<close>: the trait of
    \<^verbatim>\<open>transform/mod.rs\<close> as a datatype of its implementations, and its contract as a locale, interpreted
    on both transforms and on the dispatch.
  \<^item> \<open>Srtp_Config\<close>: \<^verbatim>\<open>MasterKey\<close>, \<^verbatim>\<open>KeysLifetime\<close>, \<^verbatim>\<open>StreamConfig\<close> and \<^verbatim>\<open>validate\<close> of \<^verbatim>\<open>stream.rs\<close>.
    \<open>Srtp_Stream\<close>: \<^verbatim>\<open>BaseStream\<close>, \<^verbatim>\<open>SendStream\<close>, \<^verbatim>\<open>RecvStream\<close>, \<^verbatim>\<open>get_transforms\<close> of the same file.
  \<^item> \<open>Srtp_Stream_Safety\<close>: well-formed streams, inversion rules for each outcome, no panic, a failure
    changes nothing. \<open>Srtp_Stream_Delivery\<close>: from a sending to a receiving stream.
    \<open>Srtp_Stream_Runs\<close>: step relations over everything a session asks of a stream, and what holds of
    whole runs: distinct indices and initialisation vectors, lives.
  \<^item> \<open>Srtp_Session\<close>: \<^verbatim>\<open>session.rs\<close>, generic over the trait \<^verbatim>\<open>StreamInterface\<close> (the record \<open>stream_ops\<close>); the
    locale \<open>stream_interface\<close> is what a session relies on, interpreted on both kinds of stream; the
    reachable sessions. \<open>Srtp_Session_Delivery\<close>: errors and dead keys, delivery between sessions.
  \<^item> \<open>Srtp_Session_Runs\<close>: whole runs of sessions over the step relations of their streams: no packet
    is accepted twice, no initialisation vector is used twice under a key. Removing a stream ends what these
    runs follow: a stream created again for the same SSRC starts its indices afresh, as in the code.
    \<open>Srtp_Transmission\<close>: a sender that goes on after the packets it refuses, simulated by one with more lives.
    \<open>Srtp_Whole_Streams\<close>: when a sender is never refused, and the delivery of whole streams.
    \<open>Srtp_Reordered\<close>: blocks of packets that come in any order, within the replay window.
    \<open>Srtp_Follow_Ups\<close>: the packet after \<^verbatim>\<open>set_roc\<close>, and a packet that is protected again.
  \<^item> \<open>Srtp_Samples\<close>: concrete configurations, streams and packets for the instances below.
    \<open>Srtp_Boundaries\<close>: behaviour at the edges which departs from the comments of the code or from the RFC.
  \<^item> \<open>Srtp_Unit_Tests\<close>: the deterministic unit tests of \<^verbatim>\<open>header.rs\<close> and \<^verbatim>\<open>replay.rs\<close> as values of the
    model, and the helpers and the table of valid profiles of \<^verbatim>\<open>test_utils\<close>.
  \<^item> \<open>Srtp_Standards\<close>: AES, its counter mode, GCM, SHA-1 and HMAC as published, an instance \<open>std_crypto\<close> of the
    parameter that satisfies the laws. \<open>Srtp_Test_Vectors\<close>: the literals of the tests and the values of
    these algorithms on them. \<open>Srtp_Known_Answers\<close>: the unit tests of \<^verbatim>\<open>key_derivation.rs\<close> and of both
    files of \<^verbatim>\<open>transform/\<close>. \<open>Srtp_Stream_Tests\<close>: those of \<^verbatim>\<open>stream.rs\<close>.

  \<^bold>\<open>State and effects.\<close> A \<^verbatim>\<open>&mut self\<close> method takes the record of its state and returns it, with the
  errors it hands to the key limit handler, in their order, and its outcome. A \<^verbatim>\<open>HashMap\<close> is a
  partial map; where the code iterates over one, the order is an argument, and the theorems
  hold for each order. The handler is a flag: what matters is whether there is one, and what it is called with.

  \<^bold>\<open>What is shown.\<close> C1 and C2: no panic in any reachable session. C3, C4, C5 and C11: delivery, in
  order, of whole streams, in any order and under loss; the sessions have one configuration, without leave to
  repeat packets, with a window that is not 0 and without empty MKIs. C6: failures leave no trace, those of
  \<^verbatim>\<open>add_stream\<close> excepted. C7 to C10: replay protection, of whole sessions between changes of their
  configuration, and of the databases against their specification. C12 and C13: RTP initialisation vectors do not
  repeat in a session without leave to repeat packets, between changes of its configuration, below index \<open>2^48\<close>.
  C14 and C15: RTCP indices do not repeat within \<open>2^31\<close> packets of a stream, and so never under the one key of a stream
  with a single key; a stream with several keys can outlast the counter, and then repeats indices under
  keys that are alive. C16 to C20: lives of keys. C21: well-formed
  sessions. C22 to C24: transforms. C25 to C27: keys. C28: headers. C29 to C32: configurations.
  C33, C34: two places where the replay databases accept a packet again. C35, C36: availability
  and late joiners. C37: the table of profiles. C38: the unit tests of the streams. C39: repetition. The unit
  tests of the headers, the replay databases, the key derivation and the transforms hold as well
  (\<open>rtp_replay_pass\<close>, \<open>rtcp_roll_over_pass\<close>, \<open>header_tests_pass\<close>, \<open>kdf_tests_pass\<close>, \<open>transform_tests_pass\<close>).

  \<^bold>\<open>Bounds.\<close> The cipher laws speak of messages of up to \<open>max_message\<close>, \<open>2^32\<close> bytes; lengths are
  natural numbers, as a \<^verbatim>\<open>usize\<close> of 64 bits does not overflow on them. The model uses no fuel: the loops
  of the code run over lists and are structural. The uniqueness of initialisation vectors holds for
  indices below \<open>2^48\<close>, beyond which the code truncates the ROC to 32 bits.

  \<^bold>\<open>Not modelled.\<close> The code of the crates for AES, GCM, HMAC and big integers: the theorems hold for whatever
  satisfies the laws, and the published algorithms are one instance. Secrecy and unforgeability, which are
  properties of those algorithms. \<^verbatim>\<open>Debug\<close>, \<^verbatim>\<open>Display\<close> and the erasure of keys, which change no value.
  Threads: every method takes \<^verbatim>\<open>&mut self\<close>, so calls are sequential. The randomised tests under
  \<^verbatim>\<open>libsrtp/tests\<close> are not transcribed. C3, C4 and C37 state in general what they assert of packets in order, rollover
  included, C5 of RTP packets of one stream in any order, C36 of \<^verbatim>\<open>set_roc\<close> and C39 of repetition; that RTCP packets or
  packets of several streams come in any order, that \<^verbatim>\<open>roc_update\<close> sees \<^verbatim>\<open>Authentication\<close>, which a tag that agrees by
  accident would prevent, the updates of \<^verbatim>\<open>mkis.rs\<close> and the threads of \<^verbatim>\<open>multithread.rs\<close> are not proved. Nor is
  \<^verbatim>\<open>interop_test\<close> modelled, a binding to a C library.
\<close>

section \<open>Sessions\<close>

text \<open>
  C1. A receiving session never panics: in every state the public operations can lead to, whatever
  the bytes of a packet, \<^verbatim>\<open>rtp_unprotect\<close> and \<^verbatim>\<open>rtcp_unprotect\<close> return a \<^verbatim>\<open>Result\<close>. No slice is
  out of range, no length refused, no lifetime counted below zero.
\<close>

theorem recv_session_total:
  assumes "crypto_laws C" "recv_reachable B C s" "length c \<le> max_message"
  shows "snd (snd (rtp_unprotect B C c s)) \<noteq> Panic \<and> snd (snd (rtcp_unprotect B C c s)) \<noteq> Panic"
  using recv_session_no_panic [OF assms(1) recv_reachable_ok [OF assms(1,2)] assms(3)] by simp

theorem recv_session_total_witness:
  "snd (snd (rtp_unprotect nat_biguint sample_crypto sample_packet
      (fst (add_stream (recv_ops nat_biguint sample_crypto) [] (\<lambda>_. []) (Some 7) sample_config session_new)))) \<noteq> Panic"
  by (rule recv_session_total [OF sample_crypto_laws recv_add [OF recv_start sample_lives_ok] sample_lengths(5),
      THEN conjunct1])

text \<open>
  C2. A sending session never panics either, in any reachable state and on any packet.
\<close>

theorem send_session_total:
  assumes "crypto_laws C" "send_reachable B C s" "length p \<le> max_message"
  shows "snd (snd (rtp_protect_mki B C p m s)) \<noteq> Panic \<and> snd (snd (rtcp_protect_mki B C p m s)) \<noteq> Panic"
  using send_session_no_panic [OF assms(1) send_reachable_ok [OF assms(1,2)] assms(3)] by simp

theorem send_session_total_witness:
  "snd (snd (rtcp_protect_mki nat_biguint sample_crypto sample_rtcp_packet None
      (fst (add_stream (send_ops nat_biguint sample_crypto) [] (\<lambda>_. []) None sample_config session_new)))) \<noteq> Panic"
  by (rule send_session_total [OF sample_crypto_laws send_add [OF send_start sample_lives_ok] sample_lengths(6),
      THEN conjunct2])

text \<open>
  C3. End to end: a sender and a receiver start with the same configuration, as a template or for one SSRC; it
  is one that \<^verbatim>\<open>validate\<close> accepts, with lives in range, a replay window that is not 0, no empty MKI and no
  leave to repeat packets. Of any list of RTP and RTCP packets, of any SSRCs and under any of the keys, the
  packets the sender refuses are left out and it goes on; each packet it protects, handed to the receiver in
  the same order, is given back byte for byte.
\<close>

theorem in_order_delivery:
  assumes "biguint_laws B" "crypto_laws C" "deliverable cfg"
    and "is_gcm (sc_rtp_profile cfg) = is_gcm (sc_rtcp_profile cfg)"
  shows "list_all (\<lambda>(p, res). res = Ok p) (transmit B C os
    (fst (add_stream (send_ops B C) [] order ssrc cfg session_new))
    (fst (add_stream (recv_ops B C) [] order' ssrc cfg session_new)))"
proof -
  have cfg: "config_ok cfg" using assms(3) by (simp add: deliverable_def)
  obtain s where s: "add_stream (send_ops B C) [] order ssrc cfg session_new = (s, Ok ())"
    using add_stream_succeeds(1) [OF assms(2) cfg assms(4)] by blast
  obtain r where r: "add_stream (recv_ops B C) [] order' ssrc cfg session_new = (r, Ok ())"
    using add_stream_succeeds(2) [OF assms(2) cfg assms(4)] by blast
  show ?thesis
    using transmit_delivers [OF assms(1,2) session_le_refl add_stream_lockstep [OF assms(1-3) s r], of os]
    by (simp add: s r list_all_iff)
qed

theorem in_order_delivery_witness:
  "transmit nat_biguint sample_crypto [OutRtp [] None, OutRtp sample_packet None, OutRtp sample_packet None,
       OutRtcp sample_rtcp_packet None]
     (fst (add_stream (send_ops nat_biguint sample_crypto) [] (\<lambda>_. []) None sample_config session_new))
     (fst (add_stream (recv_ops nat_biguint sample_crypto) [] (\<lambda>_. []) None sample_config session_new)) =
   [(sample_packet, Ok sample_packet), (sample_rtcp_packet, Ok sample_rtcp_packet)]"
proof -
  let ?t = "transmit nat_biguint sample_crypto [OutRtp [] None, OutRtp sample_packet None, OutRtp sample_packet None,
       OutRtcp sample_rtcp_packet None]
     (fst (add_stream (send_ops nat_biguint sample_crypto) [] (\<lambda>_. []) None sample_config session_new))
     (fst (add_stream (recv_ops nat_biguint sample_crypto) [] (\<lambda>_. []) None sample_config session_new))"
  have "map fst ?t = [sample_packet, sample_rtcp_packet]" by code_simp
  moreover have "list_all (\<lambda>(p, res). res = Ok p) ?t"
    by (rule in_order_delivery [OF nat_biguint_laws sample_crypto_laws sample_deliverable(1)])
      (simp add: sample_config_defs)
  ultimately show ?thesis by (auto simp: map_eq_Cons_conv)
qed

text \<open>
  C4. Whole streams: a sender whose packets count their sequence numbers from any first one, \<open>i\<close>, through any
  number of rollovers, is never refused while its key has lives and the index is on 48 bits, and the
  receiver gives back every packet. The configurations are those of C3.
\<close>

theorem whole_stream_delivery:
  assumes "biguint_laws B" "crypto_laws C" "deliverable cfg"
    and "is_gcm (sc_rtp_profile cfg) = is_gcm (sc_rtcp_profile cfg)"
    and "key \<in> set (sc_keys cfg)" "x \<in> {None, Some ssrc}"
    and "consecutive ssrc i ps" "i < 2 ^ 16" "length ps \<le> unat (l_rtp (mk_lifetime key))" "i + length ps \<le> 2 ^ 48"
  shows "transmit B C (map (\<lambda>p. OutRtp p (mk_mki key)) ps)
      (fst (add_stream (send_ops B C) [] order x cfg session_new))
      (fst (add_stream (recv_ops B C) [] order' x cfg session_new)) = map (\<lambda>p. (p, Ok p)) ps"
  by (rule whole_stream [OF assms])

theorem whole_stream_delivery_witness:
  "transmit nat_biguint sample_crypto [OutRtp (plain_rtp [1] 7 5) (Some [2]), OutRtp (plain_rtp [2] 7 6) (Some [2])]
     (fst (add_stream (send_ops nat_biguint sample_crypto) [] (\<lambda>_. []) None sample_mki_config session_new))
     (fst (add_stream (recv_ops nat_biguint sample_crypto) [] (\<lambda>_. []) None sample_mki_config session_new)) =
   [(plain_rtp [1] 7 5, Ok (plain_rtp [1] 7 5)), (plain_rtp [2] 7 6, Ok (plain_rtp [2] 7 6))]"
proof -
  let ?k = "sample_key (Some [2])"
  have key: "?k \<in> set (sc_keys sample_mki_config)" "mk_mki ?k = Some [2]"
    and lives: "l_rtp (mk_lifetime ?k) = 0x1000000000000"
    and family: "is_gcm (sc_rtp_profile sample_mki_config) = is_gcm (sc_rtcp_profile sample_mki_config)"
    by (simp_all add: sample_config_defs keys_lifetime_default_def MAX_RTP_SESSION_KEY_LIVES_def)
  let ?ps = "[plain_rtp [1] 7 5, plain_rtp [2] 7 6]"
  have "transmit nat_biguint sample_crypto (map (\<lambda>p. OutRtp p (mk_mki ?k)) ?ps)
     (fst (add_stream (send_ops nat_biguint sample_crypto) [] (\<lambda>_. []) None sample_mki_config session_new))
     (fst (add_stream (recv_ops nat_biguint sample_crypto) [] (\<lambda>_. []) None sample_mki_config session_new)) =
     map (\<lambda>p. (p, Ok p)) ?ps"
    by (rule whole_stream_delivery [OF nat_biguint_laws sample_crypto_laws sample_deliverable(2) family key(1),
          where i = 5 and ssrc = 7])
      (simp_all add: lives rtp_header_of_packet max_message_def)
  then show ?thesis by (simp only: list.map key(2))
qed

text \<open>
  C5. Reordering and loss of RTP: after packets of a stream in order, any of its next \<open>length block\<close> packets, as
  many as the replay window holds and fewer than \<open>2^15\<close>, may come in any order. Each of them is given back, and
  refused when it comes again. When the block comes first, it lies below sequence number \<open>2^15\<close>.
\<close>

theorem reordered_delivery:
  assumes "biguint_laws B" "crypto_laws C" "deliverable cfg"
    and "is_gcm (sc_rtp_profile cfg) = is_gcm (sc_rtcp_profile cfg)"
    and "key \<in> set (sc_keys cfg)" "x \<in> {None, Some ssrc}"
    and "consecutive ssrc i (ps @ block)" "i < 2 ^ 16" "length (ps @ block) \<le> unat (l_rtp (mk_lifetime key))"
      "i + length (ps @ block) \<le> 2 ^ 48"
    and "length block \<le> unat (sc_replay_window_size cfg)" "length block < 32768" "ps = [] \<longrightarrow> i + length block \<le> 32768"
  shows "\<exists>s' qs r' blk.
      protect_all B C (mk_mki key) (ps @ block) (fst (add_stream (send_ops B C) [] order x cfg session_new)) =
        (s', map Ok (qs @ blk)) \<and> length qs = length ps \<and> length blk = length block \<and>
      unprotect_all B C qs (fst (add_stream (recv_ops B C) [] order' x cfg session_new)) = (r', map Ok ps) \<and>
      (\<forall>js. distinct js \<and> set js \<subseteq> {..<length block} \<longrightarrow>
        (\<exists>r''. unprotect_all B C (map ((!) blk) js) r' = (r'', map (\<lambda>j. Ok (block ! j)) js) \<and>
           (\<forall>j \<in> set js. snd (snd (rtp_unprotect B C (blk ! j) r'')) = Err InvalidPacketIndex)))"
proof -
  have cfg: "config_ok cfg" using assms(3) by (simp add: deliverable_def)
  obtain s where s: "add_stream (send_ops B C) [] order x cfg session_new = (s, Ok ())"
    using add_stream_succeeds(1) [OF assms(2) cfg assms(4)] by blast
  obtain r where r: "add_stream (recv_ops B C) [] order' x cfg session_new = (r, Ok ())"
    using add_stream_succeeds(2) [OF assms(2) cfg assms(4)] by blast
  show ?thesis
    by (rule reordered_block [OF assms s r]) (unfold s r fst_conv, blast)
qed

theorem reordered_delivery_witness:
  "\<exists>qs r. unprotect_all nat_biguint sample_crypto qs
     (fst (add_stream (recv_ops nat_biguint sample_crypto) [] (\<lambda>_. []) None sample_mki_config session_new)) =
   (r, [Ok (plain_rtp [1] 7 5), Ok (plain_rtp [3] 7 7), Ok (plain_rtp [2] 7 6)])"
proof -
  let ?k = "sample_key (Some [2])" and ?r = "fst (add_stream (recv_ops nat_biguint sample_crypto) []
    (\<lambda>_. []) None sample_mki_config session_new)"
  have key: "?k \<in> set (sc_keys sample_mki_config)"
    and lives: "l_rtp (mk_lifetime ?k) = 0x1000000000000"
    and family: "is_gcm (sc_rtp_profile sample_mki_config) = is_gcm (sc_rtcp_profile sample_mki_config)"
    and size: "sc_replay_window_size sample_mki_config = 128"
    by (simp_all add: sample_config_defs keys_lifetime_default_def MAX_RTP_SESSION_KEY_LIVES_def)
  obtain qs r' blk where first: "unprotect_all nat_biguint sample_crypto qs ?r = (r', [Ok (plain_rtp [1] 7 5)])"
    and late: "\<forall>js. distinct js \<and> set js \<subseteq> {..<length [plain_rtp [2] 7 6, plain_rtp [3] 7 7]} \<longrightarrow>
      (\<exists>r''. unprotect_all nat_biguint sample_crypto (map ((!) blk) js) r' =
        (r'', map (\<lambda>j. Ok ([plain_rtp [2] 7 6, plain_rtp [3] 7 7] ! j)) js) \<and> (\<forall>j \<in> set js.
          snd (snd (rtp_unprotect nat_biguint sample_crypto (blk ! j) r'')) = Err InvalidPacketIndex))"
    using reordered_delivery [OF nat_biguint_laws sample_crypto_laws sample_deliverable(2) family key,
        where i = 5 and ssrc = 7 and x = None and ps = "[plain_rtp [1] 7 5]"
          and block = "[plain_rtp [2] 7 6, plain_rtp [3] 7 7]" and order = "\<lambda>_. []" and order' = "\<lambda>_. []"]
    by (auto simp: lives size rtp_header_of_packet max_message_def)
  from late [rule_format, of "[1, 0]"] obtain r'' where
    "unprotect_all nat_biguint sample_crypto [blk ! 1, blk ! 0] r' = (r'', [Ok (plain_rtp [3] 7 7), Ok (plain_rtp [2] 7 6)])"
    by (auto simp del: One_nat_def simp: numeral_2_eq_2)
  with first have "unprotect_all nat_biguint sample_crypto (qs @ [blk ! 1, blk ! 0]) ?r =
      (r'', [Ok (plain_rtp [1] 7 5), Ok (plain_rtp [3] 7 7), Ok (plain_rtp [2] 7 6)])"
    by (simp only: unprotect_all_append Let_def prod.case append_Cons append_Nil)
  then show ?thesis by blast
qed

text \<open>
  C6. A failing call of a packet operation leaves the session exactly as it was, unless it reports a dead key. In
  a sending session no index is used, no life spent, no stream created; in a receiving session a forged or
  replayed packet moves no window and leaves behind no stream for the SSRC it claims. The same holds of
  \<^verbatim>\<open>remove_stream\<close>, \<^verbatim>\<open>set_roc\<close> and \<^verbatim>\<open>set_key_limit_handler\<close>. It does not hold of \<^verbatim>\<open>add_stream\<close>: see
  \<open>failed_update_merges\<close>.
\<close>

theorem error_unchanged:
  assumes "\<not> key_dead e"
  shows "(rtp_protect_mki B C p m s = (s', calls, Err e) \<or> rtcp_protect_mki B C p m s = (s', calls, Err e) \<or>
        remove_stream ssrc s = (s', Err e) \<or> set_key_limit_handler s = (s', Err e) \<longrightarrow> s' = s) \<and>
    (rtp_unprotect B C c r = (r', calls, Err e) \<or> rtcp_unprotect B C c r = (r', calls, Err e) \<or>
        set_roc ssrc roc r = (r', Err e) \<or> remove_stream ssrc r = (r', Err e) \<or>
        set_key_limit_handler r = (r', Err e) \<longrightarrow> r' = r)"
  by (auto dest: packet_error [OF _ assms] call_error)

theorem error_unchanged_witness:
  "fst (rtp_protect_mki nat_biguint sample_crypto sample_packet None session_new) = session_new \<and>
   fst (rtcp_unprotect nat_biguint sample_crypto sample_rtcp_packet session_new) = session_new"
proof -
  have "rtp_protect_mki nat_biguint sample_crypto sample_packet None session_new =
      (fst (rtp_protect_mki nat_biguint sample_crypto sample_packet None session_new), [], Err StreamNotFound)"
    "rtcp_unprotect nat_biguint sample_crypto sample_rtcp_packet session_new =
      (fst (rtcp_unprotect nat_biguint sample_crypto sample_rtcp_packet session_new), [], Err StreamNotFound)"
    by (simp_all add: rtp_protect_mki_def rtcp_unprotect_def sample_headers on_stream_def get_stream_def session_new_def)
  moreover have "\<not> key_dead StreamNotFound" by (auto simp: key_dead_def)
  ultimately show ?thesis using error_unchanged by blast
qed

section \<open>Replay protection\<close>

text \<open>
  C7. A receiving session accepts no RTP packet twice: in every reachable session, over any sequence of calls of
  \<^verbatim>\<open>rtp_unprotect\<close>, \<^verbatim>\<open>rtcp_unprotect\<close> and \<^verbatim>\<open>set_roc\<close>, with packets of any bytes and of any SSRCs, the pairs of an
  SSRC and an index it accepts are pairwise different. Calls of \<^verbatim>\<open>add_stream\<close> and \<^verbatim>\<open>remove_stream\<close> lie before such
  a sequence: a larger window forgets (C34), and a stream that is removed and made again starts afresh.
\<close>

theorem session_no_replay:
  assumes "biguint_laws B" "crypto_laws C" "recv_reachable B C s"
  shows "distinct (rtp_accepts B C xs s)"
  by (rule session_accepts_distinct [OF assms])

theorem session_no_replay_witness:
  "rtp_accepts nat_biguint sample_crypto [InRtp sample_cipher, InRtp sample_cipher] sample_recv_session = [(7, 5)]"
proof -
  let ?acc = "rtp_accepts nat_biguint sample_crypto [InRtp sample_cipher, InRtp sample_cipher] sample_recv_session"
  have "distinct ?acc"
    by (rule session_no_replay [OF nat_biguint_laws sample_crypto_laws sample_recv_session_reachable])
  moreover have "list_all (\<lambda>a. a = (7, 5)) ?acc \<and> ?acc \<noteq> []"
    by code_simp
  ultimately show ?thesis
    by (cases ?acc rule: remdups_adj.cases) auto
qed

text \<open>
  C8. The RTP replay database implements the sliding window of the specification: starting from a
  new database, the indices it admits are those the abstract window admits, in order, and no index
  twice.
\<close>

theorem rtp_window_refines:
  assumes "biguint_laws B" "\<forall>n \<in> set ns. n < 2 ^ 64"
  shows "snd (admit (rtp_seen_index B) (rtp_add_index B) (rtp_replay_new B sz) (map word_of_nat ns)) =
      map word_of_nat (snd (admit win_seen win_add (win_empty (unat sz)) ns)) \<and>
    distinct (snd (admit win_seen win_add (win_empty (unat sz)) ns))"
proof -
  note run = rtp_near_run [OF assms(2), of "win_empty (unat sz)"]
  show ?thesis
    using rtp_window.admit_refines [OF rtp_rel_new [OF assms(1)] run] admit_win_distinct [OF win_ok_empty] by blast
qed

theorem rtp_window_refines_witness:
  "snd (admit (rtp_seen_index nat_biguint) (rtp_add_index nat_biguint) (rtp_replay_new nat_biguint 4) (map word_of_nat [3, 5, 3, 1, 4])) =
     [3, 5, 4]"
  using rtp_window_refines [OF nat_biguint_laws, of "[3, 5, 3, 1, 4]" 4]
  by (simp add: win_seen_def win_add_def win_empty_def)

text \<open>
  C9. The RTCP database does the same for the indices a sender counts, which the wire carries
  modulo \<open>2^31\<close>, as long as an index is less than \<open>2^30\<close> from the newest one.
\<close>

theorem rtcp_window_refines:
  assumes "biguint_laws B" "rtcp_window.near_run (win_empty (unat sz)) ns"
  shows "snd (admit (rtcp_seen_index B) (rtcp_add_index B) (rtcp_replay_new B sz) (map rtcp_wire ns)) =
      map rtcp_wire (snd (admit win_seen win_add (win_empty (unat sz)) ns)) \<and>
    distinct (snd (admit win_seen win_add (win_empty (unat sz)) ns))"
  using rtcp_window.admit_refines [OF rtcp_rel_new [OF assms(1)] assms(2)] admit_win_distinct [OF win_ok_empty]
  by blast

theorem rtcp_window_refines_witness:
  "snd (admit (rtcp_seen_index nat_biguint) (rtcp_add_index nat_biguint) (rtcp_replay_new nat_biguint 4)
     (map rtcp_wire [3, 5, 3, 1, 4])) = map rtcp_wire [3, 5, 4]"
  using rtcp_window_refines [OF nat_biguint_laws, of 4 "[3, 5, 3, 1, 4]"]
  by (simp add: win_seen_def win_add_def win_empty_def rtcp_near_def rtcp_window.near_run.simps)

text \<open>
  C10. The receiver recovers the index of an RTP packet from its sequence number whenever the index
  is less than \<open>2^15\<close> from the newest one (RFC 3711, 3.3.1).
\<close>

theorem index_recovered:
  assumes "pending_roc db = None" "unat (r_index db) < 2 ^ 48"
    and "i < unat (r_index db) + 32768" "unat (r_index db) < i + 32768" "unat seq = i mod 65536"
  shows "unat (rtp_estimate_index db seq) = i"
  by (rule estimate_index_exact [OF assms])

theorem index_recovered_witness:
  "unat (rtp_estimate_index (\<lparr>r_index = 0x1FFFF, pending_roc = None, r_window = 0, r_mask = 0\<rparr> :: nat rtp_replay_db) 2) = 0x20002"
  by (rule index_recovered) simp_all

section \<open>Streams\<close>

text \<open>
  C11. Lost and reordered packets: a packet that a sending stream protects is given back by a
  receiving stream with the same transform under the same MKI, provided its index is less than
  \<open>2^15\<close> from the newest one the receiver has, and the receiver has not seen it.
\<close>

theorem lossy_delivery:
  assumes "crypto_laws C" "recv_ok B v" "mki_aligned v t m" "rtp_header_new p = Ok h"
    and "b_transforms (s_base s) m = Some (t, l)" "b_transforms (v_base v) m = Some (t, l')" "l_rtp l' \<noteq> 0"
    and "send_rtp_protect B C h p m s = (s', calls, Ok q)"
    and "i = rtp_estimate_index (b_rtp_index (s_base s)) (seq_num h)"
    and "pending_roc (b_rtp_index (v_base v)) = None" "unat (r_index (b_rtp_index (v_base v))) < 2 ^ 48"
    and "unat i < unat (r_index (b_rtp_index (v_base v))) + 32768"
    and "unat (r_index (b_rtp_index (v_base v))) < unat i + 32768"
    and "\<not> rtp_seen_index B (b_rtp_index (v_base v)) i"
  shows "rtp_header_new q = Ok h \<and> snd (snd (recv_rtp_unprotect B C h q v)) = Ok p"
proof -
  have t: "transform_ok t"
    using base_ok_entry [of B "v_base v" m t l'] assms(2,6) by (simp add: recv_ok_def)
  have "unat (rtp_estimate_index (b_rtp_index (v_base v)) (seq_num h)) = unat i"
    by (rule estimate_index_exact [OF assms(10-13)]) (simp add: assms(9) estimate_index_seq)
  then have i: "rtp_estimate_index (b_rtp_index (v_base v)) (seq_num h) = i"
    by (rule unsigned_word_eqI)
  from assms(8) have q: "transform_rtp_protect C t p h (ucast (drop_bit 16 i)) = Ok q"
    by (rule send_rtp_protect_Ok) (simp add: assms(5,9))
  from rtp_delivery [OF assms(1) t assms(3,6,7,4) q i assms(14)] show ?thesis
    by auto
qed

theorem lossy_delivery_witness:
  "\<exists>s' calls q. send_rtp_protect nat_biguint sample_crypto sample_header sample_packet None sample_sender = (s', calls, Ok q) \<and>
     snd (snd (recv_rtp_unprotect nat_biguint sample_crypto sample_header q sample_receiver)) = Ok sample_packet"
proof -
  obtain s' calls q where run: "send_rtp_protect nat_biguint sample_crypto sample_header sample_packet None sample_sender = (s', calls, Ok q)"
    by (rule sample_sends)
  obtain t where t: "b_transforms (s_base sample_sender) None = Some (CmSha1 t, keys_lifetime_default)"
    "b_transforms (v_base sample_receiver) None = Some (CmSha1 t, keys_lifetime_default)"
    "b_rtp_index (s_base sample_sender) = rtp_replay_new nat_biguint 4"
    "b_rtp_index (v_base sample_receiver) = rtp_replay_new nat_biguint 4"
    "mki_aligned sample_receiver (CmSha1 t) None"
    by (rule sample_entry)
  have "rtp_estimate_index (rtp_replay_new nat_biguint 4) (seq_num sample_header) = 5"
    by (simp add: rtp_estimate_index_def rtp_replay_new_def sample_header_def Let_def MAX_SEQ_NUM_STEP_def)
  then have i: "5 = rtp_estimate_index (b_rtp_index (s_base sample_sender)) (seq_num sample_header)"
    by (simp add: t)
  have "snd (snd (recv_rtp_unprotect nat_biguint sample_crypto sample_header q sample_receiver)) = Ok sample_packet"
    by (rule lossy_delivery [OF sample_crypto_laws sample_streams_ok(2) t(5) sample_headers(1) t(1,2) _ run i, THEN conjunct2])
      (simp_all add: t(4) rtp_replay_new_def keys_lifetime_default_def MAX_RTP_SESSION_KEY_LIVES_def rtp_seen_index_def)
  with run show ?thesis by blast
qed

text \<open>
  C12. A sending session in which neither a stream nor the template allows repetition uses no RTP initialisation
  vector twice, also between streams that share the session keys of a template: over any sequence of calls
  that protect RTP and RTCP packets, the vectors of AES counter mode are pairwise different, as long as the
  indices stay below \<open>2^48\<close>. Three things end this: a configuration with \<^verbatim>\<open>allow_send_repeat\<close>, which sends an index
  again on purpose, a stream that is removed and added again with the same key, and index \<open>2^48\<close>.
\<close>

theorem cm_rtp_iv_unique:
  assumes "biguint_laws B" "strict_session B C s" "list_all (\<lambda>(h, i). unat i < 2 ^ 48) (rtp_sends B C os s)" "length salt = 14"
  shows "distinct (map (\<lambda>(h, i). cm_rtp_iv salt h (ucast (drop_bit 16 i))) (rtp_sends B C os s))"
proof (rule session_iv_distinct [OF assms(1,2)])
  show "\<forall>(h, i) \<in> set (rtp_sends B C os s). unat i < 2 ^ 48"
    using assms(3) by (simp only: list_all_iff)
  show "rtp_ssrc h = rtp_ssrc h' \<and> r = r' \<and> seq_num h = seq_num h'" if "cm_rtp_iv salt h r = cm_rtp_iv salt h' r'" for h r h' r'
    using cm_rtp_iv_inject [OF assms(4) that] by simp
qed

theorem cm_rtp_iv_unique_witness:
  "length (rtp_sends nat_biguint sample_crypto sample_calls sample_send_session) = 2 \<and>
   distinct (map (\<lambda>(h, i). cm_rtp_iv (replicate 14 0) h (ucast (drop_bit 16 i)))
     (rtp_sends nat_biguint sample_crypto sample_calls sample_send_session))"
proof -
  note sends = sample_rtp_sends
  have "list_all (\<lambda>(h, i). unat i < 2 ^ 48) (rtp_sends nat_biguint sample_crypto sample_calls sample_send_session)"
    by (simp add: sends)
  from cm_rtp_iv_unique [OF nat_biguint_laws sample_send_session_strict this length_replicate] show ?thesis
    by (simp add: sends)
qed

text \<open>
  C13. The same for the nonces of AES-GCM, where a repetition would give the authentication key away: over any
  sequence of calls that protect packets, without repetition allowed and with indices below \<open>2^48\<close>.
\<close>

theorem gcm_rtp_iv_unique:
  assumes "biguint_laws B" "strict_session B C s" "list_all (\<lambda>(h, i). unat i < 2 ^ 48) (rtp_sends B C os s)" "gcm_ok t"
  shows "distinct (map (\<lambda>(h, i). gcm_get_rtp_iv t h (ucast (drop_bit 16 i))) (rtp_sends B C os s))"
proof (rule session_iv_distinct [OF assms(1,2)])
  show "\<forall>(h, i) \<in> set (rtp_sends B C os s). unat i < 2 ^ 48"
    using assms(3) by (simp only: list_all_iff)
  show "rtp_ssrc h = rtp_ssrc h' \<and> r = r' \<and> seq_num h = seq_num h'" if "gcm_get_rtp_iv t h r = gcm_get_rtp_iv t h' r'" for h r h' r'
    using gcm_rtp_iv_inject [of t, OF _ that] assms(4) by (simp add: gcm_ok_def)
qed

theorem gcm_rtp_iv_unique_witness:
  "length (rtp_sends nat_biguint sample_crypto sample_calls sample_send_session) = 2 \<and>
   distinct (map (\<lambda>(h, i). gcm_get_rtp_iv sample_gcm h (ucast (drop_bit 16 i)))
     (rtp_sends nat_biguint sample_crypto sample_calls sample_send_session))"
proof -
  note sends = sample_rtp_sends
  have "list_all (\<lambda>(h, i). unat i < 2 ^ 48) (rtp_sends nat_biguint sample_crypto sample_calls sample_send_session)"
    by (simp add: sends)
  from gcm_rtp_iv_unique [OF nat_biguint_laws sample_send_session_strict this sample_transforms_ok(1)] show ?thesis
    by (simp add: sends)
qed

text \<open>
  C14. The RTCP indices of a sending stream, which the vectors carry, are pairwise different over a whole run exactly
  as long as it sends at most \<open>2^31\<close> RTCP packets, under whichever keys. When all of them go under one key they
  are always different, as the key dies first; with several keys the index of the stream comes round while a
  key is alive (see C15).
\<close>

theorem rtcp_index_unique:
  assumes "send_ok B s" "send_run B C s es s'"
  shows "(distinct (map (\<lambda>(m, h, i). i) (rtcp_sent_list es)) \<longleftrightarrow> length (rtcp_sent_list es) \<le> 2 ^ 31) \<and>
    (list_all (\<lambda>(m', h, i). m' = m) (rtcp_sent_list es) \<longrightarrow> distinct (map (\<lambda>(m, h, i). i) (rtcp_sent_list es)))"
proof -
  have "length (rtcp_sent_list es) \<le> 2147483648" if "list_all (\<lambda>(m', h, i). m' = m) (rtcp_sent_list es)"
    by (rule send_run_one_key [OF assms]) (use that in \<open>simp add: list_all_iff\<close>)
  with send_run_rtcp_distinct_iff [OF assms] show ?thesis by simp
qed

theorem rtcp_index_unique_witness:
  "\<exists>es s'. send_run nat_biguint sample_crypto sample_sender es s' \<and> length (rtcp_sent_list es) = 1 \<and>
     distinct (map (\<lambda>(m, h, i). i) (rtcp_sent_list es))"
proof -
  let ?es = "[RtcpSent None sample_rtcp_header (s_rtcp_index sample_sender)]"
  obtain s' where es: "send_run nat_biguint sample_crypto sample_sender ?es s'"
    using sample_rtcp_run by blast
  have "distinct (map (\<lambda>(m, h, i). i) (rtcp_sent_list ?es))"
    by (rule rtcp_index_unique [OF sample_streams_ok(1) es, of None, THEN conjunct2, THEN mp]) simp
  with es show ?thesis by (intro exI [of _ ?es] exI [of _ s']) simp
qed

text \<open>
  C15. Over all master keys together the RTCP indices are consecutive modulo \<open>2^31\<close>: after \<open>2^31\<close>
  packets they start again, under whichever keys are then alive.
\<close>

theorem rtcp_index_consecutive:
  assumes "send_ok B s" "send_run B C s es s'"
  shows "map (\<lambda>(m, h, i). i) (rtcp_sent_list es) =
    map rtcp_wire [unat (s_rtcp_index s)..<unat (s_rtcp_index s) + length (rtcp_sent_list es)]"
  by (rule send_run_rtcp_indices [OF assms(2)]) (use assms(1) in \<open>simp add: send_ok_def rtcp_wire_unat\<close>)

theorem rtcp_index_consecutive_witness:
  "\<exists>es s'. send_run nat_biguint sample_crypto sample_sender es s' \<and>
     map (\<lambda>(m, h, i). i) (rtcp_sent_list es) = [rtcp_wire (unat (s_rtcp_index sample_sender))]"
proof -
  obtain s' where es: "send_run nat_biguint sample_crypto sample_sender
      [RtcpSent None sample_rtcp_header (s_rtcp_index sample_sender)] s'"
    using sample_rtcp_run by blast
  from es rtcp_index_consecutive [OF sample_streams_ok(1) es] show ?thesis
    by (intro exI conjI) auto
qed

text \<open>
  C16. A master key protects at most as many RTP and RTCP packets as it has lives left, and never
  more than \<open>2^48\<close> and \<open>2^31\<close>.
\<close>

theorem sender_key_lifetime:
  assumes "send_ok B s" "send_run B C s es s'"
  shows "length (filter (\<lambda>(m', h, i). m' = m) (rtp_sent_list es)) \<le> min (lives_left (s_base s) True m) (2 ^ 48) \<and>
    length (filter (\<lambda>(m', h, i). m' = m) (rtcp_sent_list es)) \<le> min (lives_left (s_base s) False m) (2 ^ 31)"
proof -
  have "base_ok B (s_base s)" using assms(1) by (simp add: send_ok_def)
  from send_run_lives [OF assms(2), of m] lives_left_max [OF this, of m] show ?thesis by simp
qed

theorem sender_key_lifetime_witness:
  "\<exists>es s'. send_run nat_biguint sample_crypto sample_sender es s' \<and> 1 \<le> lives_left (s_base sample_sender) True None"
proof -
  obtain s' where es: "send_run nat_biguint sample_crypto sample_sender [RtpSent None sample_header 5] s'"
    using sample_send_run by blast
  from es sender_key_lifetime [OF sample_streams_ok(1) es, of None] show ?thesis by auto
qed

text \<open>
  C17. A receiver accepts no more packets under a master key than the key has lives left.
\<close>

theorem receiver_key_lifetime:
  assumes "recv_run B C v es v'"
  shows "length (filter (\<lambda>(m', i). m' = m) (rtp_accepted_list es)) + lives_left (v_base v') True m
      \<le> lives_left (v_base v) True m \<and>
    length (filter (\<lambda>(m', i). m' = m) (rtcp_accepted_list es)) + lives_left (v_base v') False m
      \<le> lives_left (v_base v) False m"
  by (rule recv_run_lives [OF assms])

theorem receiver_key_lifetime_witness:
  "\<exists>m i v'. recv_run nat_biguint sample_crypto sample_receiver [RtpAccepted m i sample_packet] v' \<and>
     lives_left (v_base v') True m < lives_left (v_base sample_receiver) True m"
proof -
  obtain m i v' where es: "recv_run nat_biguint sample_crypto sample_receiver [RtpAccepted m i sample_packet] v'"
    using sample_recv_run by blast
  from es receiver_key_lifetime [OF es, of m] show ?thesis by (intro exI conjI) auto
qed

text \<open>
  C18. The use that takes the last life of a key for RTP or for RTCP takes it for both
  (RFC 3711, 9.2).
\<close>

theorem key_dies_for_both:
  assumes "send_rtp_protect B C h p m s = (s', calls, Ok q) \<and> lives_left (s_base s') True m = 0 \<or>
    send_rtcp_protect C h' p m s = (s', calls, Ok q) \<and> lives_left (s_base s') False m = 0"
  shows "lives_left (s_base s') True m = 0 \<and> lives_left (s_base s') False m = 0"
  using assms send_exhausts_both by blast

theorem key_dies_for_both_witness:
  "\<exists>s' calls q. send_rtp_protect nat_biguint sample_crypto sample_header sample_packet None (sample_short_lived 1) =
     (s', calls, Ok q) \<and> lives_left (s_base s') False None = 0"
proof -
  obtain s' calls q where "send_rtp_protect nat_biguint sample_crypto sample_header sample_packet None (sample_short_lived 1) =
     (s', calls, Ok q) \<and> lives_left (s_base s') True None = 0"
    using sample_last_life by blast
  with key_dies_for_both [OF disjI1 [OF this]] show ?thesis by blast
qed

text \<open>
  C19. A dead key refuses every packet of the session that comes to it, in all four packet operations, RTP and RTCP,
  sending and receiving: when the stream a session has for the SSRC, or would make from its template, has no
  lives left under the key of the packet, and the packet got past the checks before that of the lives, the call
  fails with the error that says so, the handler is told once, the stream is as it was, and a template loses
  the key (\<open>after_dead_key\<close>: nothing else of the session changes).
\<close>

theorem dead_key_refused:
  shows "(rtp_header_new p = Ok h \<and> stream_for (send_ops B C) (rtp_ssrc h) s = Some t \<and>
      b_transforms (s_base t) m \<noteq> None \<and> lives_left (s_base t) True m = 0 \<and> (b_allow_send_repeat (s_base t) \<or>
        \<not> rtp_seen_index B (b_rtp_index (s_base t)) (rtp_estimate_index (b_rtp_index (s_base t)) (seq_num h))) \<longrightarrow>
      rtp_protect_mki B C p m s = (after_dead_key (send_ops B C) (rtp_ssrc h) m s,
        dead_reports (s_base t) True m, Err (KeyLimit True True m (b_ssrc (s_base t))))) \<and>
    (rtcp_header_new p = Ok h' \<and> stream_for (send_ops B C) (rtcp_ssrc h') s = Some t \<and>
      b_transforms (s_base t) m \<noteq> None \<and> lives_left (s_base t) False m = 0 \<longrightarrow>
      rtcp_protect_mki B C p m s = (after_dead_key (send_ops B C) (rtcp_ssrc h') m s,
        dead_reports (s_base t) False m, Err (KeyLimit False True m (b_ssrc (s_base t))))) \<and>
    (rtp_header_new c = Ok h \<and> stream_for (recv_ops B C) (rtp_ssrc h) r = Some v \<and>
      b_transforms (v_base v) m \<noteq> None \<and> lives_left (v_base v) True m = 0 \<and>
      \<not> rtp_seen_index B (b_rtp_index (v_base v)) (rtp_estimate_index (b_rtp_index (v_base v)) (seq_num h)) \<and>
      recv_get_mki v c (header_len h) True = Ok m \<longrightarrow>
      rtp_unprotect B C c r = (after_dead_key (recv_ops B C) (rtp_ssrc h) m r,
        dead_reports (v_base v) True m, Err (KeyLimit True True m (b_ssrc (v_base v))))) \<and>
    (rtcp_header_new c = Ok h' \<and> stream_for (recv_ops B C) (rtcp_ssrc h') r = Some v \<and>
      b_transforms (v_base v) m \<noteq> None \<and> lives_left (v_base v) False m = 0 \<and>
      rtcp_header_len + (4 + v_rtcp_tag_len v + b_mki_len (v_base v)) \<le> length c \<and>
      \<not> rtcp_seen_index B (v_rtcp_index v) (rtcp_trailer_index v c) \<and>
      recv_get_mki v c rtcp_header_len False = Ok m \<longrightarrow>
      rtcp_unprotect B C c r = (after_dead_key (recv_ops B C) (rtcp_ssrc h') m r,
        dead_reports (v_base v) False m, Err (KeyLimit False True m (b_ssrc (v_base v)))))"
  by (intro conjI impI; elim conjE) (simp_all add: session_dead_key send_dead_key recv_dead_key)

theorem dead_key_refused_witness:
  "snd (rtp_protect_mki nat_biguint sample_crypto sample_packet None sample_reporting_session) =
     ([KeyLimit True True None 7], Err (KeyLimit True True None 7))"
proof -
  obtain t where t: "stream_for (send_ops nat_biguint sample_crypto) 7 sample_reporting_session = Some t"
    "b_transforms (s_base t) None \<noteq> None" "lives_left (s_base t) True None = 0"
    "\<not> rtp_seen_index nat_biguint (b_rtp_index (s_base t)) (rtp_estimate_index (b_rtp_index (s_base t)) 5)"
    "dead_reports (s_base t) True None = [KeyLimit True True None 7]" "b_ssrc (s_base t) = 7"
    by (rule sample_reporting_stream)
  have h: "rtp_ssrc sample_header = 7" "seq_num sample_header = 5" by (simp_all add: sample_header_def)
  have "rtp_protect_mki nat_biguint sample_crypto sample_packet None sample_reporting_session =
      (after_dead_key (send_ops nat_biguint sample_crypto) (rtp_ssrc sample_header) None sample_reporting_session,
       dead_reports (s_base t) True None, Err (KeyLimit True True None (b_ssrc (s_base t))))"
    using dead_key_refused [of sample_packet sample_header nat_biguint sample_crypto sample_reporting_session t None,
        THEN conjunct1, THEN mp] sample_headers(1) t(1-4) by (simp only: h) blast
  then show ?thesis by (simp add: t(5,6))
qed

text \<open>
  C20. A dead key of the template: once any packet operation, sending or receiving, RTP or RTCP, reports the key of a
  stream of the template dead, every stream of the template has lost that key for both kinds of packets, and so has
  every stream the template makes later.
\<close>

theorem template_key_killed:
  assumes "crypto_laws C" "key_dead e"
  shows "(send_reachable B C s \<and>
      (rtp_header_new p = Ok h \<and> templated (rtp_ssrc h) s \<and> rtp_protect_mki B C p m s = (s', calls, Err e) \<or>
       rtcp_header_new p = Ok h' \<and> templated (rtcp_ssrc h') s \<and> rtcp_protect_mki B C p m s = (s', calls, Err e)) \<longrightarrow>
      send_key_gone B C (err_mki e) s') \<and>
    (recv_reachable B C r \<and>
      (rtp_header_new c = Ok h \<and> templated (rtp_ssrc h) r \<and> rtp_unprotect B C c r = (r', calls, Err e) \<or>
       rtcp_header_new c = Ok h' \<and> templated (rtcp_ssrc h') r \<and> rtcp_unprotect B C c r = (r', calls, Err e)) \<longrightarrow>
      recv_key_gone B C (err_mki e) r')"
proof (intro conjI impI; elim conjE)
  assume s: "send_reachable B C s"
  note ok = send_reachable_ok [OF assms(1) s]
  assume "rtp_header_new p = Ok h \<and> templated (rtp_ssrc h) s \<and> rtp_protect_mki B C p m s = (s', calls, Err e) \<or>
    rtcp_header_new p = Ok h' \<and> templated (rtcp_ssrc h') s \<and> rtcp_protect_mki B C p m s = (s', calls, Err e)"
  from send_dead_kills [OF assms(1) ok assms(2) this] show "send_key_gone B C (err_mki e) s'"
    using kill_key_gone(1) [OF ok] by simp
next
  assume r: "recv_reachable B C r"
  note ok = recv_reachable_ok [OF assms(1) r]
  assume "rtp_header_new c = Ok h \<and> templated (rtp_ssrc h) r \<and> rtp_unprotect B C c r = (r', calls, Err e) \<or>
    rtcp_header_new c = Ok h' \<and> templated (rtcp_ssrc h') r \<and> rtcp_unprotect B C c r = (r', calls, Err e)"
  from recv_dead_kills [OF assms(1) ok assms(2) this] show "recv_key_gone B C (err_mki e) r'"
    using kill_key_gone(2) [OF ok] by simp
qed

theorem template_key_killed_witness:
  "\<exists>s' calls cfg stream. rtp_protect_mki nat_biguint sample_crypto sample_packet None sample_dead_session =
       (s', calls, Err (KeyLimit True True None 7)) \<and>
     template_config s' = Some cfg \<and> send_new nat_biguint sample_crypto 9 cfg (key_limit_handler s') = Ok stream \<and>
     lives_left (s_base stream) False None = 0"
proof -
  let ?r = "rtp_protect_mki nat_biguint sample_crypto sample_packet None sample_dead_session"
  have err: "snd (snd ?r) = Err (KeyLimit True True None 7)" by code_simp
  have new: "is_ok (and_then (ok_or (template_config (fst ?r)) StreamNotFound)
      (\<lambda>cfg. send_new nat_biguint sample_crypto 9 cfg (key_limit_handler (fst ?r))))" by code_simp
  obtain s' calls where r: "?r = (s', calls, Err (KeyLimit True True None 7))"
    using err by (metis prod.collapse)
  with new obtain cfg stream where cfg: "template_config s' = Some cfg"
    and stream: "send_new nat_biguint sample_crypto 9 cfg (key_limit_handler s') = Ok stream"
    by (auto simp: is_ok_iff outcome_simps)
  have "templated (rtp_ssrc sample_header) sample_dead_session" by code_simp
  moreover have "key_dead (KeyLimit True True None 7)" by (auto simp: key_dead_def)
  ultimately have "send_key_gone nat_biguint sample_crypto (err_mki (KeyLimit True True None 7)) s'"
    using template_key_killed [OF sample_crypto_laws, THEN conjunct1] sample_dead_reachable sample_headers(1) r by blast
  then have "lives_left (s_base stream) False None = 0"
    using cfg stream by (auto simp: send_key_gone_def)
  then show ?thesis using r cfg stream by blast
qed

text \<open>
  C21. The state of a session is well-formed in every reachable state: each stream has transforms
  with keys of the right sizes under their own MKI, lifetimes within the maxima, replay indices in
  range, and the template is a valid configuration.
\<close>

theorem sessions_well_formed:
  assumes "crypto_laws C"
  shows "(send_reachable B C s \<longrightarrow> send_session_ok B C s) \<and> (recv_reachable B C r \<longrightarrow> recv_session_ok B C r)"
  using send_reachable_ok [OF assms] recv_reachable_ok [OF assms] by blast

theorem sessions_well_formed_witness:
  "send_session_ok nat_biguint sample_crypto
     (fst (rtp_protect_mki nat_biguint sample_crypto sample_packet None
        (fst (add_stream (send_ops nat_biguint sample_crypto) [] (\<lambda>_. []) None sample_config session_new))))"
  using sessions_well_formed [OF sample_crypto_laws] send_rtp [OF send_add [OF send_start sample_lives_ok]]
  by blast

section \<open>Transforms\<close>

text \<open>
  C22. AES counter mode with HMAC-SHA1: what \<^verbatim>\<open>rtp_protect\<close> makes, \<^verbatim>\<open>rtp_unprotect\<close> with the
  same ROC gives back, MKI and tag removed; and so for RTCP, where the packet also carries its index
  and the E flag.
\<close>

theorem cm_inverse:
  assumes "crypto_laws C" "cm_ok t"
  shows "(header_len h \<le> length p \<and> cm_rtp_protect C t p h roc = Ok q \<longrightarrow> cm_rtp_unprotect C t q h roc = Ok p) \<and>
    (rtcp_header_len \<le> length p \<and> cm_rtcp_protect C t p h' i = Ok q \<longrightarrow>
     cm_rtcp_unprotect C t q h' i (4 + tag_len (cm_rtcp_profile t) + length (mki_bytes (cm_mki t))) = Ok p)"
  using cm_rtp_roundtrip [OF assms] cm_rtcp_roundtrip [OF assms] by blast

theorem cm_inverse_witness:
  "\<exists>q r. cm_rtp_protect sample_crypto sample_cm sample_packet sample_header 1 = Ok q \<and>
     cm_rtp_unprotect sample_crypto sample_cm q sample_header 1 = Ok sample_packet \<and>
     cm_rtcp_protect sample_crypto sample_cm sample_rtcp_packet sample_rtcp_header 1 = Ok r \<and>
     cm_rtcp_unprotect sample_crypto sample_cm r sample_rtcp_header 1 15 = Ok sample_rtcp_packet"
proof -
  note ok = sample_crypto_laws sample_transforms_ok(2)
  obtain q r where "cm_rtp_protect sample_crypto sample_cm sample_packet sample_header 1 = Ok q"
    "cm_rtcp_protect sample_crypto sample_cm sample_rtcp_packet sample_rtcp_header 1 = Ok r"
    using cm_rtp_protect_total [OF ok sample_lengths(3,5)] cm_rtcp_protect_total [OF ok sample_lengths(4,6)] by blast
  with cm_inverse [OF ok, of sample_header sample_packet 1 q]
    cm_inverse [OF ok, where p = sample_rtcp_packet and h' = sample_rtcp_header and i = 1 and q = r]
  show ?thesis using sample_lengths(3,4) by (simp add: sample_cm_def)
qed

text \<open>
  C23. AES-GCM: the same for its packets of both kinds.
\<close>

theorem gcm_inverse:
  assumes "crypto_laws C" "gcm_ok t"
  shows "(header_len h \<le> length p \<and> gcm_rtp_protect C t p h roc = Ok q \<longrightarrow> gcm_rtp_unprotect C t q h roc = Ok p) \<and>
    (rtcp_header_len \<le> length p \<and> gcm_rtcp_protect C t p h' i = Ok q \<longrightarrow>
     gcm_rtcp_unprotect C t q h' i (4 + length (mki_bytes (gcm_mki t))) = Ok p)"
  using gcm_rtp_roundtrip(2) [OF assms] gcm_rtcp_roundtrip(2) [OF assms] by blast

theorem gcm_inverse_witness:
  "\<exists>q r. gcm_rtp_protect sample_crypto sample_gcm sample_packet sample_header 1 = Ok q \<and>
     gcm_rtp_unprotect sample_crypto sample_gcm q sample_header 1 = Ok sample_packet \<and>
     gcm_rtcp_protect sample_crypto sample_gcm sample_rtcp_packet sample_rtcp_header 1 = Ok r \<and>
     gcm_rtcp_unprotect sample_crypto sample_gcm r sample_rtcp_header 1 5 = Ok sample_rtcp_packet"
proof -
  note ok = sample_crypto_laws sample_transforms_ok(1)
  have "is_ok (gcm_rtp_protect sample_crypto sample_gcm sample_packet sample_header 1)"
    and "is_ok (gcm_rtcp_protect sample_crypto sample_gcm sample_rtcp_packet sample_rtcp_header 1)"
    by code_simp+
  then obtain q r where "gcm_rtp_protect sample_crypto sample_gcm sample_packet sample_header 1 = Ok q"
    "gcm_rtcp_protect sample_crypto sample_gcm sample_rtcp_packet sample_rtcp_header 1 = Ok r"
    by (auto simp: is_ok_iff)
  with gcm_inverse [OF ok, of sample_header sample_packet 1 q]
    gcm_inverse [OF ok, where p = sample_rtcp_packet and h' = sample_rtcp_header and i = 1 and q = r]
  show ?thesis using sample_lengths(3,4) by (simp add: sample_gcm_def)
qed

text \<open>
  C24. Authentication: a packet counter mode accepts ends with the tag that the session key gives
  for the rest of it, MKI apart, and the ROC.
\<close>

theorem cm_rtp_authentic:
  assumes "crypto_laws C" "cm_rtp_unprotect C t c h roc = Ok p" "0 < tag_len (cm_rtp_profile t)"
  shows "\<exists>body m tag. c = body @ m @ tag \<and> length m = length (mki_bytes (cm_mki t)) \<and>
    cm_rtp_auth_tag C t body roc = Ok tag"
  using cm_rtp_unprotect_authentic [OF assms] by blast

theorem cm_rtp_authentic_witness:
  "\<exists>q body m tag. cm_rtp_protect sample_crypto sample_cm sample_packet sample_header 1 = Ok q \<and>
     q = body @ m @ tag \<and> cm_rtp_auth_tag sample_crypto sample_cm body 1 = Ok tag"
proof -
  obtain q where q: "cm_rtp_protect sample_crypto sample_cm sample_packet sample_header 1 = Ok q"
    using cm_rtp_protect_total [OF sample_crypto_laws sample_transforms_ok(2) sample_lengths(3,5)] by blast
  from cm_rtp_roundtrip [OF sample_crypto_laws sample_transforms_ok(2) sample_lengths(3) q]
  have "cm_rtp_unprotect sample_crypto sample_cm q sample_header 1 = Ok sample_packet" .
  from cm_rtp_authentic [OF sample_crypto_laws this] q show ?thesis
    by (auto simp: sample_cm_def)
qed

text \<open>
  C25. Session keys: two different labels never share an input of the pseudo-random function under
  one master salt, so the keys for encryption, authentication and salting, of RTP and of RTCP, come
  from different blocks.
\<close>

theorem kdf_labels_separate:
  assumes "prf_input l salt = Ok seed" "prf_input l' salt = Ok seed"
  shows "l = l'"
  by (rule prf_input_separates [OF assms])

theorem kdf_labels_separate_witness:
  "\<exists>seed. prf_input RtpSalt [1, 2] = Ok seed \<and> prf_input RtcpSalt [1, 2] \<noteq> Ok seed"
proof -
  obtain seed where seed: "prf_input RtpSalt [1, 2] = Ok seed"
    using prf_input_total [of "[1, 2]" RtpSalt] by auto
  with kdf_labels_separate [OF seed, of RtcpSalt] show ?thesis by auto
qed

text \<open>
  C26. Every outcome of the key derivation, for every label, master key and salt: a salt longer than the block of 16
  bytes panics (the copy into the block), a master key of another length than 16, 24 or 32 bytes is refused with
  \<^verbatim>\<open>InvalidKeySize\<close>, and otherwise the key is as long as its use asks for: the length of the master key for
  encryption, 14 bytes for a salt, 20 for authentication.
\<close>

theorem kdf_outcome:
  assumes "crypto_laws C"
  shows "if 16 < length salt then aes_cm_kdf C label mk salt = Panic
    else if length mk \<notin> {16, 24, 32} then aes_cm_kdf C label mk salt = Err InvalidKeySize
    else \<exists>out. aes_cm_kdf C label mk salt = Ok out \<and> length out =
      (if label \<in> {RtpEncrypt, RtcpEncrypt} then length mk else if label \<in> {RtpSalt, RtcpSalt} then 14 else 20)"
proof (cases "length salt \<le> 16 \<and> length mk \<in> {16, 24, 32}")
  case True
  then obtain out where "aes_cm_kdf C label mk salt = Ok out" "length out = output_size label (length mk)"
    using aes_cm_kdf_total [OF assms] by blast
  then show ?thesis
    using True by (cases label) (auto simp: SESSION_SALT_SIZE_def SESSION_AUTH_KEY_SIZE_def)
qed (use aes_cm_kdf_panic [of salt C label mk] aes_cm_kdf_bad_key [of salt mk C label] in auto)

theorem kdf_outcome_witness:
  "aes_cm_kdf sample_crypto RtpSalt [1, 2, 3] [] = Err InvalidKeySize \<and>
   aes_cm_kdf sample_crypto RtpSalt [1, 2, 3] (replicate 17 0) = Panic"
  using kdf_outcome [OF sample_crypto_laws, of "[]" RtpSalt "[1, 2, 3]"]
    kdf_outcome [OF sample_crypto_laws, of "replicate 17 0" RtpSalt "[1, 2, 3]"] by simp

text \<open>
  C27. Every outcome of \<^verbatim>\<open>AesCmSha1::new\<close>, for any master key, salt and pair of profiles: \<^verbatim>\<open>TransformDispatch\<close> when the RTP
  profile is one of GCM; the panic and the error of the key derivation; then \<^verbatim>\<open>TransformDispatch\<close> or
  \<^verbatim>\<open>InvalidProfile\<close> for an RTCP profile of GCM or without a full tag; otherwise a transform. Its keys have the
  sizes its profiles ask for when the master key has the length they name.
\<close>

theorem cm_new_outcome:
  assumes "crypto_laws C"
  shows "if is_gcm rtp then cm_new C mk salt m rtp rtcp = Err TransformDispatch
    else if 16 < length salt then cm_new C mk salt m rtp rtcp = Panic
    else if length mk \<notin> {16, 24, 32} then cm_new C mk salt m rtp rtcp = Err InvalidKeySize
    else if tag_len rtcp < 10
      then cm_new C mk salt m rtp rtcp = Err (if is_gcm rtcp then TransformDispatch else InvalidProfile)
    else \<exists>t. cm_new C mk salt m rtp rtcp = Ok t \<and> cm_rtp_profile t = rtp \<and> cm_rtcp_profile t = rtcp \<and> cm_mki t = m \<and>
      (master_fits mk salt rtp \<and> master_fits mk salt rtcp \<longrightarrow> cm_ok t)"
proof (cases "\<not> is_gcm rtp \<and> length salt \<le> 16 \<and> length mk \<in> {16, 24, 32}")
  case True
  then have a: "length mk \<in> {16, 24, 32}" "length salt \<le> 16" "\<not> is_gcm rtp" by simp_all
  obtain t where t: "cm_new C mk salt m rtp rtcp = (if tag_len rtcp < 10
      then Err (if is_gcm rtcp then TransformDispatch else InvalidProfile) else Ok t)"
    "cm_rtp_profile t = rtp" "cm_rtcp_profile t = rtcp" "cm_mki t = m"
    using cm_new_made [OF assms a] by blast
  have "cm_ok t" if "master_fits mk salt rtp" "master_fits mk salt rtcp" "\<not> tag_len rtcp < 10"
    using cm_new_ok [OF assms that(1,2) a(3) that(3), of m] t(1) that(3) by auto
  with t a show ?thesis by auto
qed (use cm_new_gcm [of rtp] cm_new_bad_master [of rtp salt] in \<open>auto simp: not_le\<close>)

theorem cm_new_outcome_witness:
  "cm_new sample_crypto (replicate 16 1) [] None Aes128CmHmacSha132 Aes128CmHmacSha132 = Err InvalidProfile \<and>
   cm_new sample_crypto (replicate 16 1) [] None AeadAes128Gcm Aes128CmHmacSha180 = Err TransformDispatch"
  using cm_new_outcome [OF sample_crypto_laws, of Aes128CmHmacSha132 "replicate 16 1" "[]" None Aes128CmHmacSha132]
    cm_new_outcome [OF sample_crypto_laws, of AeadAes128Gcm "replicate 16 1" "[]" None Aes128CmHmacSha180]
  by simp

section \<open>Headers\<close>

text \<open>
  C28. The RTP parser accepts or refuses with \<^verbatim>\<open>InvalidPacket\<close>, never anything else, and a header
  it accepts is at least 12 bytes long and lies within the packet.
\<close>

theorem rtp_header_outcome:
  "(\<exists>h. rtp_header_new p = Ok h \<and> 12 \<le> header_len h \<and> header_len h \<le> length p) \<or>
   rtp_header_new p = Err InvalidPacket"
  using rtp_header_len_bounds [of p] rtp_header_new_outcome [of p]
  by (cases "rtp_header_new p") auto

section \<open>Configurations\<close>

text \<open>
  C29. \<^verbatim>\<open>validate\<close> accepts exactly the configurations that are valid in the declarative sense, and
  its only error is \<^verbatim>\<open>InvalidProfile\<close>.
\<close>

theorem validate_outcome:
  "validate cfg = (if valid_config cfg then Ok () else Err InvalidProfile)"
  using validate_iff [of cfg] validate_cases [of cfg] by auto

text \<open>
  C30. For a validated configuration, the transforms are made when both profiles are of one family
  and refused with \<^verbatim>\<open>TransformDispatch\<close> when they are mixed, which \<^verbatim>\<open>validate\<close> lets pass when the
  salt is empty.
\<close>

theorem transforms_outcome:
  assumes "crypto_laws C" "validate cfg = Ok ()"
  shows "if is_gcm (sc_rtp_profile cfg) = is_gcm (sc_rtcp_profile cfg)
    then \<exists>ts. get_transforms C cfg = Ok ts \<and> dom ts = mk_mki ` set (sc_keys cfg)
    else get_transforms C cfg = Err TransformDispatch"
  using get_transforms_outcome [OF assms(1), of cfg] get_transforms_dom [of C cfg] assms(2)
  by (auto simp: validate_iff)

theorem transforms_outcome_witness:
  "validate sample_mixed_config = Ok () \<and> get_transforms sample_crypto sample_mixed_config = Err TransformDispatch"
proof -
  have valid: "validate sample_mixed_config = Ok ()"
    by (simp add: validate_iff sample_configs_valid)
  from transforms_outcome [OF sample_crypto_laws valid] valid show ?thesis
    by (simp add: sample_mixed_config_def stream_config_new_def)
qed

text \<open>
  C31. Updating a stream with a compatible configuration adds the new keys and keeps every key it
  has with the lives it has left, in whatever order the map is traversed; it fails exactly when an
  MKI is to get another transform.
\<close>

theorem update_keeps_lives:
  assumes "get_transforms C cfg = Ok new" "sc_keys cfg \<noteq> []"
    and "mki_policy (b_mki_len s) (mk_mki (hd (sc_keys cfg))) = Ok ()" "distinct order" "set order = dom new"
  shows "if mergeable new (b_transforms s)
    then base_update B C order cfg s =
      (s\<lparr>b_transforms := new ++ b_transforms s,
         b_rtp_index := rtp_set_window_size B (b_rtp_index s) (sc_replay_window_size cfg),
         b_allow_send_repeat := sc_allow_send_repeat cfg\<rparr>, Ok ())
    else snd (base_update B C order cfg s) \<noteq> Ok ()"
  using base_update_merges [OF assms, of B] by (auto intro: prod_eqI)

theorem update_keeps_lives_witness:
  "lives_left (fst (base_update nat_biguint sample_crypto [None] sample_config (s_base (sample_short_lived 1)))) True None = 1"
proof -
  obtain ts where ts: "get_transforms sample_crypto sample_config = Ok ts"
    "b_transforms (s_base sample_sender) = ts" "b_mki_len (s_base sample_sender) = 0"
    by (rule sample_transforms)
  have dom: "set [None] = dom ts"
    using get_transforms_dom [OF ts(1)] by (simp add: sample_config_defs)
  have merge: "mergeable ts (b_transforms (s_base (sample_short_lived 1)))"
    by (auto simp: mergeable_def sample_short_lived_def ts(2) split: option.split)
  have policy: "mki_policy (b_mki_len (s_base (sample_short_lived 1))) (mk_mki (hd (sc_keys sample_config))) = Ok ()"
    by (simp add: mki_policy_def sample_short_lived_def ts(3) sample_config_defs)
  have keys: "sc_keys sample_config \<noteq> []" by (simp add: sample_config_defs)
  from update_keeps_lives [OF ts(1) keys policy _ dom] merge show ?thesis
    by (simp add: sample_short_lived_def lives_left_def map_add_def)
qed

text \<open>
  C32. \<^verbatim>\<open>set_keys_lifetime\<close> on a configuration gives the lives to all keys or, when they are out of
  range, to none.
\<close>

theorem set_lives_all_or_none:
  "sc_set_keys_lifetime cfg rtp rtp_limit rtcp rtcp_limit =
     (if lives_accepted rtp rtp_limit rtcp rtcp_limit
      then (cfg\<lparr>sc_keys := map (\<lambda>k. k\<lparr>mk_lifetime := \<lparr>l_rtp = rtp, l_rtp_limit = rtp_limit,
          l_rtcp = rtcp, l_rtcp_limit = rtcp_limit\<rparr>\<rparr>) (sc_keys cfg)\<rparr>, Ok ())
      else (cfg, if sc_keys cfg = [] then Ok () else Err InvalidProfile))"
  by (simp add: sc_set_keys_lifetime_def set_lives_loop_eq)

section \<open>Boundary behaviour of the replay databases\<close>

text \<open>
  C33. At the boundary of the circular window the RTCP database departs from a window: an index exactly \<open>2^30\<close>
  ahead of the newest one, modulo \<open>2^31\<close>, is taken for new; after \<^verbatim>\<open>add_index\<close> it is recorded when the newest
  index was \<open>2^30\<close> or more, and not when it was smaller, so that the same packet is new again.
\<close>

theorem rtcp_boundary_replay:
  assumes "biguint_laws B" "rc_mask db = big_mask B sz" "0 < sz" "sz < 65536"
    and "unat (rc_index db) < 2 ^ 31" "unat i = (unat (rc_index db) + 2 ^ 30) mod 2 ^ 31"
  shows "\<not> rtcp_seen_index B db i \<and>
    (rtcp_seen_index B (rtcp_add_index B db i) i \<longleftrightarrow> 2 ^ 30 \<le> unat (rc_index db))"
proof -
  have idx: "unat (rc_index db) < 2147483648" "unat i = (unat (rc_index db) + 1073741824) mod 2147483648"
    using assms(5,6) by simp_all
  from rtcp_boundary [OF assms(1-4) idx] show ?thesis by simp
qed

theorem rtcp_boundary_replay_witness:
  "\<not> rtcp_seen_index nat_biguint (rtcp_add_index nat_biguint (rtcp_replay_new nat_biguint 128) 0x40000000) 0x40000000"
  using rtcp_boundary_replay [OF nat_biguint_laws, where db = "rtcp_replay_new nat_biguint 128" and sz = 128 and i = "0x40000000"]
  by (simp add: rtcp_replay_new_def big_mask_def)

text \<open>
  C34. Growing the replay window forgets. Whatever a new database with a window of \<open>sz\<close> has admitted, an index at least
  \<open>sz\<close> behind the newest one is refused as seen; once \<^verbatim>\<open>set_window_size\<close> has made the window large enough to reach
  it, the index is new, also one that was admitted before.
\<close>

theorem window_growth_forgets:
  assumes "biguint_laws B" "0 < sz"
    and "db = fst (admit (rtp_seen_index B) (rtp_add_index B) (rtp_replay_new B sz) ns)"
    and "i \<le> r_index db" "unat sz \<le> unat (r_index db - i)" "unat (r_index db - i) < unat sz'"
  shows "rtp_seen_index B db i \<and> \<not> rtp_seen_index B (rtp_set_window_size B db sz') i"
proof -
  have "0 < unat sz" using assms(2) by (simp add: word_less_nat_alt)
  then have "window_clear B (unat sz) db"
    unfolding assms(3) by (rule window_clear_admit [OF assms(1) _ window_clear_new [OF assms(1)]])
  from rtp_grow_forgets [OF assms(1) this assms(4-6)] show ?thesis by blast
qed

theorem window_growth_forgets_witness:
  "snd (admit (rtp_seen_index nat_biguint) (rtp_add_index nat_biguint) (rtp_replay_new nat_biguint 4) [1, 10]) = [1, 10] \<and>
   \<not> rtp_seen_index nat_biguint (rtp_set_window_size nat_biguint
      (fst (admit (rtp_seen_index nat_biguint) (rtp_add_index nat_biguint) (rtp_replay_new nat_biguint 4) [1, 10])) 64) 1"
proof -
  let ?db = "fst (admit (rtp_seen_index nat_biguint) (rtp_add_index nat_biguint) (rtp_replay_new nat_biguint 4) [1, 10])"
  have "r_index ?db = 10" by code_simp
  then have "\<not> rtp_seen_index nat_biguint (rtp_set_window_size nat_biguint ?db 64) 1"
    by (intro window_growth_forgets [OF nat_biguint_laws, of 4, THEN conjunct2, OF _ refl]) simp_all
  moreover have "snd (admit (rtp_seen_index nat_biguint) (rtp_add_index nat_biguint) (rtp_replay_new nat_biguint 4) [1, 10]) = [1, 10]"
    by code_simp
  ultimately show ?thesis by blast
qed

section \<open>Availability\<close>

text \<open>
  C35. A stream protects every packet whose index is fresh and whose key is alive: nothing else
  makes \<^verbatim>\<open>rtp_protect\<close> fail.
\<close>

theorem send_succeeds:
  assumes "crypto_laws C" "send_ok B s" "b_transforms (s_base s) m = Some (t, l)" "l_rtp l \<noteq> 0"
    and "header_len h \<le> length p" "length p \<le> max_message"
    and "\<not> rtp_seen_index B (b_rtp_index (s_base s)) (rtp_estimate_index (b_rtp_index (s_base s)) (seq_num h))"
  shows "is_ok (snd (snd (send_rtp_protect B C h p m s)))"
proof -
  have "0 < lives_left (s_base s) True m"
    using assms(3,4) by (simp add: lives_left_def unat_gt_0)
  from send_rtp_total [OF assms(1-3) this assms(5,6)] assms(7) show ?thesis
    by auto
qed

theorem send_succeeds_witness:
  "is_ok (snd (snd (send_rtp_protect nat_biguint sample_crypto sample_header sample_packet None (sample_short_lived 1))))"
proof -
  note short = sample_short_lived [of 1, OF order_refl]
  obtain t where t: "b_transforms (s_base (sample_short_lived 1)) None =
      Some (CmSha1 t, keys_lifetime_default\<lparr>l_rtp := 1, l_rtp_limit := 1\<rparr>)"
    using short(3) by blast
  show ?thesis
    by (rule send_succeeds [OF sample_crypto_laws short(1) t _ sample_lengths(3,5)])
      (simp_all add: short(4) sample_unseen)
qed

text \<open>
  C36. Late joiners. \<^verbatim>\<open>set_roc\<close> fails with \<^verbatim>\<open>StreamNotFound\<close> for an SSRC without a stream and refuses a value below the
  current ROC, without a change to the session. Otherwise it succeeds, and the packet that the session is
  given next is read with that ROC, however far it is from the one before: when a transform the stream has
  protected it with the ROC that was set, under the key of the stream and with a fresh index,
  \<^verbatim>\<open>rtp_unprotect\<close> gives it back, and \<^verbatim>\<open>get_roc\<close> is then the ROC that was set.
\<close>

theorem set_roc_outcome:
  assumes "crypto_laws C" "recv_reachable B C r"
  shows "case streams r ssrc of
      None \<Rightarrow> set_roc ssrc roc r = (r, Err StreamNotFound)
    | Some (v, ft) \<Rightarrow>
        if roc < recv_get_roc v then set_roc ssrc roc r = (r, Err InvalidPacketIndex)
        else \<exists>r'. set_roc ssrc roc r = (r', Ok ()) \<and>
          (\<forall>m t l p h q i. unat (r_index (b_rtp_index (v_base v))) < 2 ^ 48 \<and> mki_aligned v t m \<and>
             b_transforms (v_base v) m = Some (t, l) \<and> l_rtp l \<noteq> 0 \<and> rtp_header_new p = Ok h \<and> rtp_ssrc h = ssrc \<and>
             transform_rtp_protect C t p h roc = Ok q \<and> unat i = unat roc * 65536 + unat (seq_num h) \<and>
             \<not> rtp_seen_index B (b_rtp_index (v_base v)) i \<longrightarrow>
             (\<exists>r'' calls. rtp_unprotect B C q r' = (r'', calls, Ok p) \<and> get_roc (recv_ops B C) ssrc r'' = Ok roc))"
proof (cases "streams r ssrc")
  case None
  then show ?thesis by (simp add: set_roc_refused)
next
  case (Some x)
  obtain v ft where x: "x = (v, ft)" by (cases x)
  have v: "streams r ssrc = Some (v, ft)" using Some x by simp
  have t: "transform_ok t" if "b_transforms (v_base v) m = Some (t, l)" for m t l
    using recv_reachable_ok [OF assms] v that base_ok_entry [of B "v_base v" m t l]
    by (auto simp: recv_session_ok_def session_ok_def recv_ok_def)
  show ?thesis
  proof (cases "roc < recv_get_roc v")
    case True
    then show ?thesis using set_roc_refused(2) [OF v] by (simp add: v)
  next
    case False
    then obtain r' where r': "set_roc ssrc roc r = (r', Ok ())"
      using set_roc_accepted [OF v] by (auto simp: not_less)
    have "\<exists>r'' calls. rtp_unprotect B C q r' = (r'', calls, Ok p) \<and> get_roc (recv_ops B C) ssrc r'' = Ok roc"
      if "unat (r_index (b_rtp_index (v_base v))) < 2 ^ 48" "mki_aligned v t m" "b_transforms (v_base v) m = Some (t, l)"
        "l_rtp l \<noteq> 0" "rtp_header_new p = Ok h" "rtp_ssrc h = ssrc" "transform_rtp_protect C t p h roc = Ok q"
        "unat i = unat roc * 65536 + unat (seq_num h)" "\<not> rtp_seen_index B (b_rtp_index (v_base v)) i" for m t l p h q i
      by (rule set_roc_next [OF assms(1) v that(1) r' t [OF that(3)] that(2-9)])
    with False r' show ?thesis unfolding v by (simp only: option.case prod.case if_False) blast
  qed
qed

theorem set_roc_outcome_witness:
  "\<exists>q r'. set_roc 7 1 sample_joiner = (r', Ok ()) \<and>
     snd (snd (rtp_unprotect nat_biguint sample_crypto q r')) = Ok sample_packet"
proof -
  obtain t where t: "b_transforms (v_base sample_receiver) None = Some (CmSha1 t, keys_lifetime_default)"
    "b_rtp_index (v_base sample_receiver) = rtp_replay_new nat_biguint 4" "mki_aligned sample_receiver (CmSha1 t) None"
    by (rule sample_entry)
  have "transform_ok (CmSha1 t)"
    using t(1) sample_streams_ok(2) base_ok_entry by (fastforce simp: recv_ok_def)
  then have cm: "cm_ok t" by simp
  obtain q where q: "cm_rtp_protect sample_crypto t sample_packet sample_header 1 = Ok q"
    using cm_rtp_protect_total [OF sample_crypto_laws cm sample_lengths(3,5)] by blast
  have roc: "recv_get_roc sample_receiver = 0"
    by (simp add: recv_get_roc_def base_get_roc_def rtp_get_roc_def t(2) rtp_replay_new_def)
  from set_roc_outcome [OF sample_crypto_laws sample_joiner_reachable, of 7 1] obtain r' where
    r': "set_roc 7 1 sample_joiner = (r', Ok ())" and
    next_packet: "\<forall>m t l p h q i. unat (r_index (b_rtp_index (v_base sample_receiver))) < 2 ^ 48 \<and> mki_aligned sample_receiver t m \<and>
       b_transforms (v_base sample_receiver) m = Some (t, l) \<and> l_rtp l \<noteq> 0 \<and> rtp_header_new p = Ok h \<and> rtp_ssrc h = 7 \<and>
       transform_rtp_protect sample_crypto t p h 1 = Ok q \<and> unat i = unat (1 :: u32) * 65536 + unat (seq_num h) \<and>
       \<not> rtp_seen_index nat_biguint (b_rtp_index (v_base sample_receiver)) i \<longrightarrow>
       (\<exists>r'' calls. rtp_unprotect nat_biguint sample_crypto q r' = (r'', calls, Ok p) \<and>
         get_roc (recv_ops nat_biguint sample_crypto) 7 r'' = Ok 1)"
    by (auto simp: sample_joiner_stream roc)
  have "\<exists>r'' calls. rtp_unprotect nat_biguint sample_crypto q r' = (r'', calls, Ok sample_packet) \<and>
      get_roc (recv_ops nat_biguint sample_crypto) 7 r'' = Ok 1"
    by (rule next_packet [rule_format, where m = None and t = "CmSha1 t" and l = keys_lifetime_default and i = "0x10005"])
      (use t q sample_headers(1) in \<open>auto simp: sample_header_def keys_lifetime_default_def MAX_RTP_SESSION_KEY_LIVES_def
        rtp_replay_new_def rtp_seen_index_def\<close>)
  with r' show ?thesis by (intro exI [of _ q] exI [of _ r']) auto
qed

section \<open>The tests of the repository\<close>

text \<open>
  C37. Every pair of profiles in \<^verbatim>\<open>VALID_PROFILES\<close> works: with a key and a salt as \<^verbatim>\<open>generate_keys\<close> makes
  them, and any MKI or none, two sessions deliver a whole stream of packets.
\<close>

theorem valid_profiles_delivered:
  assumes "biguint_laws B" "crypto_laws C" "(rtp, rtcp) \<in> set VALID_PROFILES"
    and "generate_keys rng rtp = (mk, salt)" "m \<noteq> Some []" "consecutive ssrc i ps" "i < 2 ^ 16" "i + length ps \<le> 2 ^ 48"
  shows "let cfg = stream_config_new [master_key_new mk salt m] rtp rtcp in
    transmit B C (map (\<lambda>p. OutRtp p m) ps)
      (fst (add_stream (send_ops B C) [] order (Some ssrc) cfg session_new))
      (fst (add_stream (recv_ops B C) [] order' (Some ssrc) cfg session_new)) = map (\<lambda>p. (p, Ok p)) ps"
proof -
  let ?key = "master_key_new mk salt m"
  let ?cfg = "stream_config_new [?key] rtp rtcp"
  have key: "?key \<in> set (sc_keys ?cfg)" "mk_mki ?key = m" "unat (l_rtp (mk_lifetime ?key)) = 2 ^ 48"
    by (simp_all add: stream_config_new_def master_key_new_def keys_lifetime_default_def MAX_RTP_SESSION_KEY_LIVES_def)
  have family: "is_gcm (sc_rtp_profile ?cfg) = is_gcm (sc_rtcp_profile ?cfg)"
    using valid_profile_sizes(1) [OF assms(3,4)] by (simp add: stream_config_new_def)
  have "length ps \<le> unat (l_rtp (mk_lifetime ?key))"
    using assms(8) by (simp add: key(3))
  from whole_stream [OF assms(1,2) valid_profile_deliverable [OF assms(3-5)] family key(1) _ assms(6,7) this assms(8)]
  show ?thesis by (simp add: key(2))
qed

theorem valid_profiles_delivered_witness:
  "transmit nat_biguint sample_crypto [OutRtp (plain_rtp [1] 7 5) None]
     (fst (add_stream (send_ops nat_biguint sample_crypto) [] (\<lambda>_. []) (Some 7)
        (stream_config_new [master_key_new (replicate 32 9) (replicate 12 9) None] AeadAes256Gcm AeadAes256Gcm) session_new))
     (fst (add_stream (recv_ops nat_biguint sample_crypto) [] (\<lambda>_. []) (Some 7)
        (stream_config_new [master_key_new (replicate 32 9) (replicate 12 9) None] AeadAes256Gcm AeadAes256Gcm) session_new)) =
   [(plain_rtp [1] 7 5, Ok (plain_rtp [1] 7 5))]"
proof -
  have keys: "generate_keys (\<lambda>_. 9) AeadAes256Gcm = (replicate 32 9, replicate 12 9)"
    by code_simp
  have table: "(AeadAes256Gcm, AeadAes256Gcm) \<in> set VALID_PROFILES"
    by (simp add: VALID_PROFILES_def)
  let ?cfg = "stream_config_new [master_key_new (replicate 32 9) (replicate 12 9) None] AeadAes256Gcm AeadAes256Gcm"
  have "let cfg = ?cfg in
    transmit nat_biguint sample_crypto (map (\<lambda>p. OutRtp p None) [plain_rtp [1] 7 5])
      (fst (add_stream (send_ops nat_biguint sample_crypto) [] (\<lambda>_. []) (Some 7) cfg session_new))
      (fst (add_stream (recv_ops nat_biguint sample_crypto) [] (\<lambda>_. []) (Some 7) cfg session_new)) =
    map (\<lambda>p. (p, Ok p)) [plain_rtp [1] 7 5]"
    by (rule valid_profiles_delivered [OF nat_biguint_laws sample_crypto_laws table keys, where i = 5])
      (simp_all add: rtp_header_of_packet max_message_def)
  then show ?thesis by (simp only: list.map Let_def)
qed

text \<open>
  C38. The tests of \<^verbatim>\<open>stream.rs\<close> pass: streams of one configuration exchange the known packets with each
  profile, refuse changed ones and updates with another MKI length; and key limits are reported and
  enforced in the order the test \<^verbatim>\<open>key_limit\<close> expects, whatever the ciphers.
\<close>

theorem stream_tests:
  assumes "biguint_laws B" "crypto_laws C"
  shows "list_all (\<lambda>test. test B std_crypto = Ok ()) [stream_nullcipher, stream_aes128, stream_aes256, stream_mki] \<and>
    key_limit B C = Ok ()"
  using stream_tests_pass [OF assms(1)] assms(2) by simp

theorem stream_tests_witness:
  "stream_aes128 nat_biguint std_crypto = Ok () \<and> key_limit nat_biguint std_crypto = Ok ()"
  using stream_tests [OF nat_biguint_laws std_crypto_laws] by simp

section \<open>Repetition\<close>

text \<open>
  C39. A packet that is protected a second time at once: without \<^verbatim>\<open>allow_send_repeat\<close> the session refuses it with
  \<^verbatim>\<open>InvalidPacketIndex\<close>; with it, and while the key has lives, it gives the same protected packet, byte for
  byte, so that the vector is used again only on the same text.
\<close>

theorem repeat_policy:
  assumes "biguint_laws B" "rtp_header_new p = Ok h" "stream_for (send_ops B C) (rtp_ssrc h) s = Some t"
    and "pending_roc (b_rtp_index (s_base t)) = None"
      "unat (rtp_estimate_index (b_rtp_index (s_base t)) (seq_num h)) < 2 ^ 48"
    and "rtp_protect_mki B C p m s = (s', calls, Ok q)"
  shows "\<exists>t'. stream_for (send_ops B C) (rtp_ssrc h) s' = Some t' \<and>
    (\<not> b_allow_send_repeat (s_base t) \<longrightarrow> snd (snd (rtp_protect_mki B C p m s')) = Err InvalidPacketIndex) \<and>
    (b_allow_send_repeat (s_base t) \<and> 0 < lives_left (s_base t') True m \<longrightarrow>
      snd (snd (rtp_protect_mki B C p m s')) = Ok q)"
  by (rule protect_again [OF assms])

theorem repeat_policy_witness:
  "\<exists>s' calls q. rtp_protect_mki nat_biguint sample_crypto sample_packet None sample_repeating_session = (s', calls, Ok q) \<and>
     snd (snd (rtp_protect_mki nat_biguint sample_crypto sample_packet None s')) = Ok q"
proof -
  let ?run = "rtp_protect_mki nat_biguint sample_crypto sample_packet None"
  have ok: "is_ok (snd (snd (?run sample_repeating_session)))" by code_simp
  obtain s' calls q where run: "?run sample_repeating_session = (s', calls, Ok q)"
    using ok by (cases "?run sample_repeating_session") (auto simp: is_ok_iff)
  have alive: "case stream_for (send_ops nat_biguint sample_crypto) 7 (fst (?run sample_repeating_session)) of
      None \<Rightarrow> False | Some t \<Rightarrow> (case b_transforms (s_base t) None of None \<Rightarrow> False | Some (_, l) \<Rightarrow> l_rtp l \<noteq> 0)"
    by code_simp
  obtain t where t: "stream_for (send_ops nat_biguint sample_crypto) 7 sample_repeating_session = Some t"
    "b_allow_send_repeat (s_base t)" "Option.is_none (pending_roc (b_rtp_index (s_base t)))"
    "rtp_estimate_index (b_rtp_index (s_base t)) 5 = 5"
    by (rule sample_repeating_stream)
  have h: "rtp_ssrc sample_header = 7" "seq_num sample_header = 5" by (simp_all add: sample_header_def)
  have db: "pending_roc (b_rtp_index (s_base t)) = None" "unat (rtp_estimate_index (b_rtp_index (s_base t)) 5) < 2 ^ 48"
    using t(3,4) by (simp_all add: Option.is_none_def)
  obtain t' where t': "stream_for (send_ops nat_biguint sample_crypto) 7 s' = Some t'"
    and again: "0 < lives_left (s_base t') True None \<longrightarrow> snd (snd (?run s')) = Ok q"
    using repeat_policy [OF nat_biguint_laws sample_headers(1), unfolded h, OF t(1) db run] t(2) by auto
  have "0 < lives_left (s_base t') True None"
    using alive t' run by (auto simp: lives_left_def unat_gt_0 split: option.splits)
  with again run show ?thesis by blast
qed

end
